(* ===== verification/Prelude.thy ===== *)
theory Prelude
  imports Main
begin

text \<open>
  Shared vocabulary of the development: the named collections the component theories
  fill, decimal digits and the rendering and reading of natural numbers as digit strings
  (used by the JavaScript \<open>toFixed\<close>/\<open>parseFloat\<close> model, by the date-fns
  formatter and by the \<open>HH:mm\<close> parser), left padding, and a few generic facts on
  lists and function powers that several components share.
\<close>

named_theorems js_simps "evaluation rules of the modelled JavaScript built-ins"
named_theorems cal_simps "evaluation rules of the calendar model"
named_theorems store_simps "characteristic equations of the record store operations"

type_synonym minutes = nat
type_synonym hundredths = int

section \<open>Decimal digits\<close>

definition is_digit :: "char \<Rightarrow> bool" where
  "is_digit c \<longleftrightarrow> 48 \<le> (of_char c :: nat) \<and> (of_char c :: nat) \<le> 57"

definition digit_val :: "char \<Rightarrow> nat" where
  "digit_val c = (of_char c :: nat) - 48"

definition digit_char :: "nat \<Rightarrow> char" where
  "digit_char d = char_of (48 + d)"

fun show_nat :: "nat \<Rightarrow> string" where
  "show_nat n =
     (if n < 10 then [digit_char n] else show_nat (n div 10) @ [digit_char (n mod 10)])"

declare show_nat.simps [simp del]

definition read_nat :: "string \<Rightarrow> nat" where
  "read_nat s = foldl (\<lambda>acc c. 10 * acc + digit_val c) 0 s"

definition pad_left :: "nat \<Rightarrow> string \<Rightarrow> string" where
  "pad_left k s = replicate (k - length s) CHR ''0'' @ s"

section \<open>Digit lemmas\<close>

lemma of_char_digit_char [simp]: "d < 10 \<Longrightarrow> (of_char (digit_char d) :: nat) = 48 + d"
  by (simp add: digit_char_def)

lemma is_digit_digit_char [simp]: "d < 10 \<Longrightarrow> is_digit (digit_char d)"
  by (simp add: is_digit_def)

lemma digit_val_digit_char [simp]: "d < 10 \<Longrightarrow> digit_val (digit_char d) = d"
  by (simp add: digit_val_def)

lemma digit_val_bound: "is_digit c \<Longrightarrow> digit_val c < 10"
  unfolding is_digit_def digit_val_def by linarith

lemma digit_char_0 [simp]: "digit_char 0 = CHR ''0''"
proof -
  have "char_of (of_char CHR ''0'' :: nat) = CHR ''0''" by (rule char_of_char)
  then show ?thesis by (simp add: digit_char_def)
qed

lemma is_digit_zero [simp]: "is_digit CHR ''0''" and digit_val_zero [simp]: "digit_val CHR ''0'' = 0"
  by (simp_all add: is_digit_def digit_val_def)

lemma not_digit_punct [simp]:
  "\<not> is_digit CHR '':''" "\<not> is_digit CHR ''.''" "\<not> is_digit CHR ''-''" "\<not> is_digit CHR '' ''"
  by (simp_all add: is_digit_def)

lemma read_nat_Nil [simp]: "read_nat [] = 0"
  by (simp add: read_nat_def)

lemma read_nat_snoc [simp]: "read_nat (s @ [c]) = 10 * read_nat s + digit_val c"
  by (simp add: read_nat_def)

lemma foldl_digits_acc:
  "foldl (\<lambda>acc c. 10 * acc + digit_val c) a s = 10 ^ length s * a + read_nat s"
proof (induction s arbitrary: a rule: rev_induct)
  case Nil
  then show ?case by simp
next
  case (snoc c s)
  then show ?case by (simp add: algebra_simps)
qed

lemma read_nat_append:
  "read_nat (s @ t) = 10 ^ length t * read_nat s + read_nat t"
proof -
  have "read_nat (s @ t) = foldl (\<lambda>acc c. 10 * acc + digit_val c) (read_nat s) t"
    by (simp add: read_nat_def)
  then show ?thesis by (simp only: foldl_digits_acc)
qed

lemma read_nat_Cons_zero [simp]: "read_nat (CHR ''0'' # s) = read_nat s"
  using read_nat_append [of "[CHR ''0'']" s] by (simp add: read_nat_def)

lemma read_nat_replicate_zero [simp]: "read_nat (replicate k CHR ''0'' @ s) = read_nat s"
  by (induction k) simp_all

lemma read_nat_two: "read_nat [a, b] = 10 * digit_val a + digit_val b"
  by (simp add: read_nat_def)

lemma show_nat_digits: "c \<in> set (show_nat n) \<Longrightarrow> is_digit c"
proof (induction n rule: show_nat.induct)
  case (1 n)
  then show ?case by (cases "n < 10") (auto simp: show_nat.simps [of n])
qed

lemma show_nat_not_Nil [simp]: "show_nat n \<noteq> []"
  by (simp add: show_nat.simps [of n])

lemma read_show_nat [simp]: "read_nat (show_nat n) = n"
proof (induction n rule: show_nat.induct)
  case (1 n)
  then show ?case by (cases "n < 10") (simp_all add: show_nat.simps [of n] read_nat_def)
qed

lemma show_nat_length: "n < 10 ^ k \<Longrightarrow> 0 < k \<Longrightarrow> length (show_nat n) \<le> k"
proof (induction n arbitrary: k rule: show_nat.induct)
  case (1 n)
  show ?case
  proof (cases "n < 10")
    case True
    with "1.prems" show ?thesis by (simp add: show_nat.simps [of n])
  next
    case False
    obtain j where k: "k = Suc j" using "1.prems"(2) by (cases k) auto
    with "1.prems"(1) False have "n div 10 < 10 ^ j" "0 < j"
      by (auto simp: less_mult_imp_div_less mult.commute intro: Nat.gr0I)
    with "1.IH" False k show ?thesis by (simp add: show_nat.simps [of n])
  qed
qed

lemma pad_left_digits: "(\<forall>c \<in> set s. is_digit c) \<Longrightarrow> c \<in> set (pad_left k s) \<Longrightarrow> is_digit c"
  by (auto simp: pad_left_def)

lemma read_pad_left [simp]: "read_nat (pad_left k s) = read_nat s"
  by (simp add: pad_left_def)

lemma length_pad_left: "length s \<le> k \<Longrightarrow> length (pad_left k s) = k"
  by (simp add: pad_left_def)

lemma length_pad_left_ge: "k \<le> length (pad_left k s)"
  by (simp add: pad_left_def)

lemma pad_left_show_nat_two:
  "n < 100 \<Longrightarrow> pad_left 2 (show_nat n) = [digit_char (n div 10), digit_char (n mod 10)]"
  by (cases "n < 10") (simp_all add: pad_left_def show_nat.simps [of n] show_nat.simps [of "n div 10"])

lemma pad_show_nat:
  assumes "n < 10 ^ k" and "0 < k"
  shows "length (pad_left k (show_nat n)) = k \<and> list_all is_digit (pad_left k (show_nat n)) \<and>
         read_nat (pad_left k (show_nat n)) = n"
proof -
  have "length (show_nat n) \<le> k" using assms by (rule show_nat_length)
  moreover have "list_all is_digit (pad_left k (show_nat n))"
    unfolding list_all_iff by (blast intro: pad_left_digits show_nat_digits)
  ultimately show ?thesis by (simp add: length_pad_left)
qed

lemma list_length2: "length xs = 2 \<Longrightarrow> \<exists>a b. xs = [a, b]"
  by (auto simp: numeral_eq_Suc length_Suc_conv)

lemma list_length4: "length xs = 4 \<Longrightarrow> \<exists>a b c d. xs = [a, b, c, d]"
  by (auto simp: numeral_eq_Suc length_Suc_conv)

section \<open>Association lists keyed by a field\<close>

text \<open>A table of rows keyed by \<open>f\<close>, seen as the map from keys to the first row with that key.\<close>

lemma find_key_map_of [simp]: "find (\<lambda>r. f r = k) xs = map_of (map (\<lambda>r. (f r, r)) xs) k"
  by (induction xs) auto

lemma map_of_key_filter:
  "map_of (map (\<lambda>r. (f r, r)) (filter (\<lambda>r. f r \<noteq> k) xs)) = (map_of (map (\<lambda>r. (f r, r)) xs))(k := None)"
  by (induction xs) (auto simp: fun_eq_iff)

lemma map_of_key_snoc:
  "map_of (map (\<lambda>r. (f r, r)) (xs @ [x])) =
     (if f x \<in> f ` set xs then map_of (map (\<lambda>r. (f r, r)) xs) else (map_of (map (\<lambda>r. (f r, r)) xs))(f x \<mapsto> x))"
  by (induction xs) (auto simp: fun_eq_iff)

lemma map_of_key_replace_gen:
  assumes "f y = k"
  shows "map_of (map (\<lambda>r. (f r, r)) (map (\<lambda>x. if f x = k then y else x) xs)) =
     (if k \<in> f ` set xs then (map_of (map (\<lambda>r. (f r, r)) xs))(k \<mapsto> y) else map_of (map (\<lambda>r. (f r, r)) xs))"
  by (induction xs) (auto simp: assms fun_eq_iff)

lemma map_of_key_replace:
  assumes "f y = k" and "k \<in> f ` set xs"
  shows "map_of (map (\<lambda>r. (f r, r)) (map (\<lambda>x. if f x = k then y else x) xs)) =
     (map_of (map (\<lambda>r. (f r, r)) xs))(k \<mapsto> y)"
  using map_of_key_replace_gen [of f y k xs] assms by simp

section \<open>Mapping a partial function over a list\<close>

lemma those_map_Some: "those (map f xs) = Some ys \<longleftrightarrow> list_all2 (\<lambda>x y. f x = Some y) xs ys"
proof (induction xs arbitrary: ys)
  case Nil
  then show ?case by auto
next
  case (Cons x xs)
  then show ?case by (cases ys) (auto split: option.splits)
qed

lemma those_map_exists: "\<forall>x \<in> set xs. f x \<noteq> None \<Longrightarrow> \<exists>ys. those (map f xs) = Some ys"
  by (induction xs) auto

lemma list_all2_map_eq:
  assumes "list_all2 P xs ys" and "\<And>x y. P x y \<Longrightarrow> g y = f x"
  shows "map g ys = map f xs"
  using assms(1) by (induction rule: list_all2_induct) (simp_all add: assms(2))

section \<open>Function powers\<close>

lemma funpow_inv_step:
  assumes "\<And>x. P x \<Longrightarrow> P (f x)" and "P x"
  shows "P ((f ^^ n) x)"
  using assms(2) by (induction n) (simp_all add: assms(1))

lemma funpow_measure_step:
  assumes "\<And>x. P x \<Longrightarrow> P (f x)" and "\<And>x. P x \<Longrightarrow> g (f x) = g x + c" and "P x"
  shows "g ((f ^^ n) x) = g x + int n * c"
  using assms(3)
proof (induction n)
  case 0
  then show ?case by simp
next
  case (Suc n)
  have "P ((f ^^ n) x)" by (rule funpow_inv_step [of P f, OF assms(1) Suc.prems])
  with Suc show ?case by (simp add: assms(2) algebra_simps)
qed

section \<open>Integer division\<close>

text \<open>Stepping over a multiple of \<open>k\<close> raises \<open>y div k\<close> by one.\<close>

lemma div_step_dvd:
  assumes "0 < (k::int)"
  shows "y div k - (y - 1) div k = (if k dvd y then 1 else 0)"
proof -
  define q r where "q = y div k" and "r = y mod k"
  have y: "y = r + q * k" and r: "0 \<le> r" "r < k"
    using assms by (simp_all add: q_def r_def)
  show ?thesis
  proof (cases "r = 0")
    case True
    then have e: "y - 1 = (k - 1) + (q - 1) * k" using y by (simp add: algebra_simps)
    have "(y - 1) div k = (q - 1) + (k - 1) div k"
      unfolding e using assms by (rule div_mult_self1 [OF less_imp_neq [symmetric]])
    also have "(k - 1) div k = 0" using assms by (simp add: div_pos_pos_trivial)
    finally have "(y - 1) div k = q - 1" by simp
    moreover have "k dvd y" using True by (simp add: r_def dvd_eq_mod_eq_0)
    ultimately show ?thesis by (simp add: q_def)
  next
    case False
    have e: "y - 1 = (r - 1) + q * k" using y by simp
    have "(y - 1) div k = q + (r - 1) div k"
      unfolding e using assms by (rule div_mult_self1 [OF less_imp_neq [symmetric]])
    also have "(r - 1) div k = 0" using r False by (simp add: div_pos_pos_trivial)
    finally have "(y - 1) div k = q" by simp
    moreover have "\<not> k dvd y" using False by (simp add: r_def dvd_eq_mod_eq_0)
    ultimately show ?thesis by (simp add: q_def)
  qed
qed

section \<open>Monotone integer sequences\<close>

text \<open>A sequence that does not decrease between neighbours on \<open>[a, b]\<close> is monotone there.\<close>

lemma int_step_mono:
  fixes f :: "int \<Rightarrow> int"
  assumes step: "\<And>k. a \<le> k \<Longrightarrow> k < b \<Longrightarrow> f k \<le> f (k + 1)"
    and "a \<le> i" and "i \<le> j" and "j \<le> b"
  shows "f i \<le> f j"
proof -
  have "f i \<le> f (i + int n)" if "i + int n \<le> b" for n
    using that
  proof (induction n)
    case 0
    then show ?case by simp
  next
    case (Suc n)
    then have "f i \<le> f (i + int n)" by simp
    also have "\<dots> \<le> f (i + int n + 1)" using Suc.prems \<open>a \<le> i\<close> by (intro step) simp_all
    finally show ?case by (simp add: ac_simps)
  qed
  from this [of "nat (j - i)"] assms(3,4) show ?thesis by simp
qed

end
