(* ===== verification/JsRuntime.thy ===== *)
theory JsRuntime
  imports Prelude
begin

text \<open>
  The JavaScript built-ins the server code calls, at the precision the code uses them.
  A number is \<open>Num k\<close>, an integer count of a fixed unit that each use names
  (minutes, hundredths of an hour, ten-thousandths of a currency unit), or \<open>NaN\<close>;
  arithmetic is exact (the binary rounding of IEEE doubles is not modelled, see the
  header of \<open>Spec2Isabelle\<close>) and \<open>NaN\<close> absorbs, as in JavaScript.
  \<open>Number.prototype.toFixed(2)\<close> is \<open>round_half_away\<close> (ECMA-262: the
  nearest multiple of 1/100, the larger one in magnitude on a tie) followed by
  \<open>fixed2_str\<close>; \<open>parseFloat\<close> is \<open>parse_float\<close> on the decimal text that
  \<open>toFixed(2)\<close> and PostgreSQL's \<open>numeric\<close> output produce. A \<open>Map\<close> is an
  association list in insertion order. The lemmas give the rounding contract, the
  round trip \<open>parse_float (fixed2_str k) = Num k\<close>, and the key order of \<open>Map.set\<close>.
\<close>

section \<open>Numbers\<close>

datatype jsnum = Num int | NaN

fun js_add :: "jsnum \<Rightarrow> jsnum \<Rightarrow> jsnum" where
  "js_add (Num a) (Num b) = Num (a + b)"
| "js_add _ _ = NaN"

fun js_sub :: "jsnum \<Rightarrow> jsnum \<Rightarrow> jsnum" where
  "js_sub (Num a) (Num b) = Num (a - b)"
| "js_sub _ _ = NaN"

fun js_mul :: "jsnum \<Rightarrow> jsnum \<Rightarrow> jsnum" where
  "js_mul (Num a) (Num b) = Num (a * b)"
| "js_mul _ _ = NaN"

text \<open>Relational operators are false as soon as one side is \<open>NaN\<close>.\<close>

fun js_le :: "jsnum \<Rightarrow> jsnum \<Rightarrow> bool" where
  "js_le (Num a) (Num b) = (a \<le> b)"
| "js_le _ _ = False"

fun js_less :: "jsnum \<Rightarrow> jsnum \<Rightarrow> bool" where
  "js_less (Num a) (Num b) = (a < b)"
| "js_less _ _ = False"

text \<open>\<open>x || 0\<close>: \<open>0\<close> and \<open>NaN\<close> are falsy, so both give \<open>0\<close>.\<close>

fun js_or_zero :: "jsnum \<Rightarrow> jsnum" where
  "js_or_zero NaN = Num 0"
| "js_or_zero (Num a) = Num a"

section \<open>toFixed(2)\<close>

text \<open>The integer nearest to \<open>n / d\<close> (for \<open>0 < d\<close>), ties away from zero.\<close>

definition round_half_away :: "int \<Rightarrow> int \<Rightarrow> int" where
  "round_half_away n d =
     (if n < 0 then - ((2 * (- n) + d) div (2 * d)) else (2 * n + d) div (2 * d))"

text \<open>
  \<open>Number(x.toFixed(2))\<close> for the value \<open>x = n / d\<close>, in hundredths; \<open>NaN\<close>
  stays \<open>NaN\<close> (\<open>NaN.toFixed(2)\<close> is the string \<open>"NaN"\<close>).
\<close>

fun js_round2 :: "jsnum \<Rightarrow> int \<Rightarrow> jsnum" where
  "js_round2 (Num n) d = Num (round_half_away (100 * n) d)"
| "js_round2 NaN d = NaN"

text \<open>The decimal text of a value in hundredths: \<open>toFixed(2)\<close>'s digits.\<close>

definition fixed2_str :: "hundredths \<Rightarrow> string" where
  "fixed2_str k =
     (if k < 0 then ''-'' else []) @ show_nat (nat \<bar>k\<bar> div 100) @ ''.'' @
       pad_left 2 (show_nat (nat \<bar>k\<bar> mod 100))"

fun js_to_fixed2 :: "jsnum \<Rightarrow> string" where
  "js_to_fixed2 (Num k) = fixed2_str k"
| "js_to_fixed2 NaN = ''NaN''"

section \<open>parseFloat\<close>

text \<open>
  \<open>parseFloat\<close> on an optional sign, decimal digits and at most two fraction digits,
  the shape of every text this program parses; \<open>"NaN"\<close> and any other text give
  \<open>NaN\<close>. The result is in hundredths.
\<close>

definition parse_unsigned :: "string \<Rightarrow> nat option" where
  "parse_unsigned t =
     (let ip = takeWhile is_digit t; rest = dropWhile is_digit t
      in case rest of
           [] \<Rightarrow> if ip = [] then None else Some (100 * read_nat ip)
         | c # fr \<Rightarrow>
             if c = CHR ''.'' \<and> ip \<noteq> [] \<and> length fr \<le> 2 \<and> list_all is_digit fr
             then Some (100 * read_nat ip + 10 ^ (2 - length fr) * read_nat fr) else None)"

definition parse_float :: "string \<Rightarrow> jsnum" where
  "parse_float s =
     (case s of
        [] \<Rightarrow> NaN
      | c # t \<Rightarrow>
          if c = CHR ''-'' then (case parse_unsigned t of None \<Rightarrow> NaN | Some a \<Rightarrow> Num (- int a))
          else (case parse_unsigned s of None \<Rightarrow> NaN | Some a \<Rightarrow> Num (int a)))"

section \<open>Map\<close>

text \<open>\<open>Map.prototype.set\<close>: an existing key keeps its place, a new key goes last.\<close>

fun jsmap_set :: "('k \<times> 'v) list \<Rightarrow> 'k \<Rightarrow> 'v \<Rightarrow> ('k \<times> 'v) list" where
  "jsmap_set [] k v = [(k, v)]"
| "jsmap_set ((k', v') # m) k v = (if k' = k then (k, v) # m else (k', v') # jsmap_set m k v)"

abbreviation jsmap_get :: "('k \<times> 'v) list \<Rightarrow> 'k \<Rightarrow> 'v option" where
  "jsmap_get \<equiv> map_of"

text \<open>The sum of a list of numbers, the reference the aggregations are compared with.\<close>

definition js_sum :: "jsnum list \<Rightarrow> jsnum" where
  "js_sum xs = foldr js_add xs (Num 0)"

section \<open>Lemmas: numbers\<close>

lemma js_add_Num_iff: "js_add a b = Num c \<longleftrightarrow> (\<exists>x y. a = Num x \<and> b = Num y \<and> c = x + y)"
  by (cases a; cases b) auto

lemma js_add_NaN [simp]: "js_add a NaN = NaN" "js_add NaN a = NaN"
  by (cases a; simp)+

lemma js_add_assoc: "js_add (js_add a b) c = js_add a (js_add b c)"
  by (cases a; cases b; cases c) simp_all

lemma js_add_commute: "js_add a b = js_add b a"
  by (cases a; cases b) simp_all

lemma js_add_left_commute: "js_add a (js_add b c) = js_add b (js_add a c)"
  by (cases a; cases b; cases c) simp_all

lemma js_add_zero [simp]: "js_add (Num 0) a = a" "js_add a (Num 0) = a"
  by (cases a; simp)+

lemmas js_add_ac = js_add_assoc js_add_commute js_add_left_commute

lemma div_bounds_int: "0 < (D::int) \<Longrightarrow> D * (x div D) \<le> x \<and> x < D * (x div D) + D"
proof -
  assume "0 < D"
  then have "0 \<le> x mod D" "x mod D < D" by simp_all
  moreover have "D * (x div D) + x mod D = x" by (rule mult_div_mod_eq)
  ultimately show ?thesis by linarith
qed

text \<open>The rounding contract of \<open>toFixed\<close>: the result is within half a unit.\<close>

lemma round_half_away_nearest:
  assumes "0 < d"
  shows "\<bar>2 * d * round_half_away n d - 2 * n\<bar> \<le> d"
proof (cases "n < 0")
  case True
  from assms have "0 < 2 * d" by simp
  from div_bounds_int [OF this, of "2 * (- n) + d"] True show ?thesis
    by (simp add: round_half_away_def abs_le_iff)
next
  case False
  from assms have "0 < 2 * d" by simp
  from div_bounds_int [OF this, of "2 * n + d"] False show ?thesis
    by (simp add: round_half_away_def abs_le_iff)
qed

lemma round_half_away_exact [simp]: "0 < d \<Longrightarrow> round_half_away (d * k) d = k"
proof -
  assume d: "0 < d"
  have pos: "(2 * (d * m) + d) div (2 * d) = m" if "0 \<le> m" for m
  proof -
    have "(2 * (d * m) + d) div (2 * d) = (d + m * (2 * d)) div (2 * d)"
      by (simp add: algebra_simps)
    also have "\<dots> = m + d div (2 * d)" using d by simp
    also have "d div (2 * d) = 0" using d by simp
    finally show ?thesis by simp
  qed
  show ?thesis
  proof (cases "k < 0")
    case True
    then have "d * k < 0" using d by (simp add: mult_pos_neg)
    then have "round_half_away (d * k) d = - ((2 * (d * (- k)) + d) div (2 * d))"
      by (simp add: round_half_away_def)
    also have "\<dots> = k" using pos [of "- k"] True by simp
    finally show ?thesis .
  next
    case False
    then have "\<not> d * k < 0" using d by (simp add: not_less)
    then have "round_half_away (d * k) d = (2 * (d * k) + d) div (2 * d)"
      by (simp add: round_half_away_def)
    also have "\<dots> = k" using pos [of k] False by simp
    finally show ?thesis .
  qed
qed

section \<open>Lemmas: the decimal text round trip\<close>

lemma fixed2_str_not_NaN: "fixed2_str k \<noteq> ''NaN''"
proof -
  obtain c s where cs: "show_nat (nat \<bar>k\<bar> div 100) = c # s"
    by (cases "show_nat (nat \<bar>k\<bar> div 100)") auto
  have "c \<in> set (show_nat (nat \<bar>k\<bar> div 100))" using cs by simp
  then have "is_digit c" by (rule show_nat_digits)
  then have "c \<noteq> CHR ''N''" by (auto simp: is_digit_def)
  with cs show ?thesis by (simp add: fixed2_str_def)
qed

lemma takeWhile_digits_dot:
  "(\<forall>c \<in> set ip. is_digit c) \<Longrightarrow> takeWhile is_digit (ip @ CHR ''.'' # r) = ip"
  by (induction ip) auto

lemma dropWhile_digits_dot:
  "(\<forall>c \<in> set ip. is_digit c) \<Longrightarrow> dropWhile is_digit (ip @ CHR ''.'' # r) = CHR ''.'' # r"
  by (induction ip) auto

lemma parse_unsigned_fixed:
  assumes "list_all is_digit ip" "ip \<noteq> []" "list_all is_digit fr" "length fr = 2"
  shows "parse_unsigned (ip @ CHR ''.'' # fr) = Some (100 * read_nat ip + read_nat fr)"
proof -
  have d: "\<forall>c \<in> set ip. is_digit c" using assms(1) by (simp add: list_all_iff)
  note tw = takeWhile_digits_dot [OF d, of fr] and dw = dropWhile_digits_dot [OF d, of fr]
  show ?thesis unfolding parse_unsigned_def Let_def tw dw using assms(2-4) by simp
qed

theorem parse_float_fixed2_str [js_simps]: "parse_float (fixed2_str k) = Num k"
proof -
  let ?m = "nat \<bar>k\<bar>"
  let ?ip = "show_nat (?m div 100)"
  let ?fr = "pad_left 2 (show_nat (?m mod 100))"
  have ip: "list_all is_digit ?ip" "?ip \<noteq> []"
    by (simp_all add: list_all_iff show_nat_digits)
  have fr: "list_all is_digit ?fr" "length ?fr = 2" "read_nat ?fr = ?m mod 100"
    using pad_show_nat [of "?m mod 100" 2] by simp_all
  have u: "parse_unsigned (?ip @ CHR ''.'' # ?fr) = Some ?m"
    using parse_unsigned_fixed [OF ip fr(1,2)] fr(3) by simp
  obtain c r where cr: "?ip = c # r" using ip(2) by (cases ?ip) auto
  have "is_digit c" using ip(1) cr by simp
  then have c: "c \<noteq> CHR ''-''" by auto
  show ?thesis
  proof (cases "k < 0")
    case True
    have "fixed2_str k = CHR ''-'' # (?ip @ CHR ''.'' # ?fr)" using True by (simp add: fixed2_str_def)
    then show ?thesis using u True by (simp add: parse_float_def)
  next
    case False
    have "fixed2_str k = ?ip @ CHR ''.'' # ?fr" using False by (simp add: fixed2_str_def)
    then have "fixed2_str k = c # (r @ CHR ''.'' # ?fr)" using cr by simp
    then show ?thesis using u False c cr by (simp add: parse_float_def)
  qed
qed

lemma parse_float_NaN [js_simps]: "parse_float ''NaN'' = NaN"
  by (simp add: parse_float_def parse_unsigned_def is_digit_def)

lemma parse_float_to_fixed2 [js_simps]: "parse_float (js_to_fixed2 x) = x"
  by (cases x) (simp_all add: parse_float_fixed2_str parse_float_NaN)

section \<open>Lemmas: Map\<close>

lemma map_of_jsmap_set [simp]: "map_of (jsmap_set m k v) = (map_of m)(k \<mapsto> v)"
  by (induction m) auto

lemma keys_jsmap_set_present:
  "k \<in> set (map fst m) \<Longrightarrow> map fst (jsmap_set m k v) = map fst m"
  by (induction m) force+

lemma keys_jsmap_set_new:
  "k \<notin> set (map fst m) \<Longrightarrow> map fst (jsmap_set m k v) = map fst m @ [k]"
  by (induction m) auto

lemma keys_jsmap_set: "set (map fst (jsmap_set m k v)) = insert k (set (map fst m))"
proof (induction m)
  case Nil
  then show ?case by simp
next
  case (Cons p m)
  then show ?case by (cases p) (simp add: insert_commute)
qed

lemma distinct_jsmap_set: "distinct (map fst m) \<Longrightarrow> distinct (map fst (jsmap_set m k v))"
proof (induction m)
  case Nil
  then show ?case by simp
next
  case (Cons p m)
  then show ?case using keys_jsmap_set [of m k v] by (cases p) auto
qed

lemma foldl_jsmap_set_fresh:
  assumes "distinct (map f ix)" and "set (map f ix) \<inter> set (map fst m) = {}"
  shows "foldl (\<lambda>m i. jsmap_set m (f i) v) m ix = m @ map (\<lambda>i. (f i, v)) ix"
  using assms
proof (induction ix arbitrary: m)
  case Nil
  then show ?case by simp
next
  case (Cons i ix)
  have "jsmap_set m (f i) v = m @ [(f i, v)]"
    using Cons.prems(2) by (induction m) auto
  with Cons show ?case by auto
qed

lemma js_sum_Cons [simp]: "js_sum (x # xs) = js_add x (js_sum xs)"
  by (simp add: js_sum_def)

lemma js_sum_Nil [simp]: "js_sum [] = Num 0"
  by (simp add: js_sum_def)

lemma js_sum_append: "js_sum (xs @ ys) = js_add (js_sum xs) (js_sum ys)"
  by (induction xs) (simp_all add: js_add_assoc)

lemma js_sum_Num: "js_sum (map Num xs) = Num (sum_list xs)"
  by (induction xs) simp_all

text \<open>Overwriting the value \<open>u\<close> of a present key by \<open>v\<close> swaps \<open>u\<close> for \<open>v\<close> in the sum.\<close>

lemma js_sum_jsmap_set_present:
  assumes "distinct (map fst m)" and "map_of m k = Some u"
  shows "js_add (js_sum (map snd (jsmap_set m k v))) u = js_add (js_sum (map snd m)) v"
  using assms
proof (induction m)
  case Nil
  then show ?case by simp
next
  case (Cons p m)
  obtain k' v' where p: "p = (k', v')" by (cases p)
  show ?case
  proof (cases "k' = k")
    case True
    then show ?thesis using Cons.prems p by (simp add: js_add_ac)
  next
    case False
    then have "js_add (js_sum (map snd (jsmap_set m k v))) u = js_add (js_sum (map snd m)) v"
      using Cons p by simp
    then show ?thesis using False p by (simp add: js_add_assoc)
  qed
qed

lemma js_add_cancel: "js_add x (Num c) = js_add y (Num c) \<Longrightarrow> x = y"
  by (cases x; cases y) simp_all

lemma vals_jsmap_set: "set (map snd (jsmap_set m k v)) \<subseteq> insert v (set (map snd m))"
proof (induction m)
  case Nil
  then show ?case by simp
next
  case (Cons p m)
  then show ?case by (cases p) auto
qed

lemma js_sum_not_NaN: "\<forall>x \<in> set xs. x \<noteq> NaN \<Longrightarrow> js_sum xs \<noteq> NaN"
proof (induction xs)
  case Nil
  then show ?case by simp
next
  case (Cons x xs)
  then show ?case by (cases x; cases "js_sum xs") simp_all
qed

lemma js_sum_zeros: "js_sum (map (\<lambda>k. Num 0) ks) = Num 0"
  by (induction ks) simp_all

lemma js_round2_hundredths: "x \<noteq> NaN \<Longrightarrow> js_round2 x 100 = x"
  by (cases x) simp_all

lemma js_add_not_NaN: "x \<noteq> NaN \<Longrightarrow> y \<noteq> NaN \<Longrightarrow> js_add x y \<noteq> NaN"
  by (cases x; cases y) simp_all

lemma js_or_zero_not_NaN: "x \<noteq> NaN \<Longrightarrow> js_or_zero x = x"
  by (cases x) simp_all

end
