(* ===== verification/Clock.thy ===== *)
theory Clock
  imports JsRuntime
begin

text \<open>
  Times of day and the Duration Calculator. \<open>parse_hhmm\<close> is date-fns
  \<open>parse(s, 'HH:mm', new Date())\<close>: one or two digits of hour (0 to 23), a colon, one or
  two digits of minute (0 to 59), nothing after but white space, else an Invalid Date.
  \<open>js_time\<close> is that Date's \<open>getTime()\<close> in minutes after the reference day's
  midnight: both calls share the reference day, so the common offset cancels in every
  difference the code takes. \<open>pg_time_in\<close>/\<open>pg_time_out\<close> are PostgreSQL's
  \<open>time\<close> column: it accepts \<open>HH:MM\<close> (hour 24 only as \<open>24:00\<close>) and returns
  \<open>HH:MM:SS\<close>. \<open>duration_text\<close> is the block of \<open>createWorkLog\<close> and
  \<open>updateWorkLog\<close> (src/server/storage.ts) that derives \<open>hoursWorked\<close>;
  \<open>end_not_after_start\<close> is the \<open>end <= start\<close> check of the routes.
\<close>

section \<open>date-fns parse with format HH:mm\<close>

definition is_js_space :: "char \<Rightarrow> bool" where
  "is_js_space c \<longleftrightarrow> c \<in> set [CHR '' '', CHR 0x09, CHR 0x0A, CHR 0x0B, CHR 0x0C, CHR 0x0D]"

text \<open>The \<open>/^\d{1,2}/\<close> pattern of the \<open>HH\<close> and \<open>mm\<close> tokens.\<close>

definition take_digits12 :: "string \<Rightarrow> (nat \<times> string) option" where
  "take_digits12 s =
     (let ds = take 2 (takeWhile is_digit s)
      in if ds = [] then None else Some (read_nat ds, drop (length ds) s))"

definition parse_hhmm :: "string \<Rightarrow> minutes option" where
  "parse_hhmm s =
     (case take_digits12 s of
        None \<Rightarrow> None
      | Some (h, r) \<Rightarrow>
          if 23 < h then None
          else (case r of
                  c # r' \<Rightarrow>
                    if c \<noteq> CHR '':'' then None
                    else (case take_digits12 r' of
                            None \<Rightarrow> None
                          | Some (m, r'') \<Rightarrow>
                              if 59 < m \<or> \<not> list_all is_js_space r'' then None
                              else Some (60 * h + m))
                | [] \<Rightarrow> None))"

fun js_time :: "minutes option \<Rightarrow> jsnum" where
  "js_time (Some t) = Num (int t)"
| "js_time None = NaN"

section \<open>PostgreSQL time column\<close>

definition pg_time_in :: "string \<Rightarrow> (nat \<times> nat) option" where
  "pg_time_in s =
     (case s of
        [h1, h2, c, m1, m2] \<Rightarrow>
          if list_all is_digit [h1, h2, m1, m2] \<and> c = CHR '':'' then
            (let h = read_nat [h1, h2]; m = read_nat [m1, m2]
             in if (h < 24 \<and> m < 60) \<or> (h = 24 \<and> m = 0) then Some (h, m) else None)
          else None
      | _ \<Rightarrow> None)"

definition pg_time_out :: "nat \<times> nat \<Rightarrow> string" where
  "pg_time_out hm =
     pad_left 2 (show_nat (fst hm)) @ '':'' @ pad_left 2 (show_nat (snd hm)) @ '':00''"

section \<open>The duration calculator\<close>

text \<open>
  \<^verbatim>\<open>const start = parse(startTime, 'HH:mm', new Date());
const end = parse(endTime, 'HH:mm', new Date());
let durationHours = (end.getTime() - start.getTime()) / (1000 * 60 * 60);
if (durationHours < 0) durationHours = 0;
... hoursWorked: durationHours.toFixed(2)\<close>
  The difference is kept in minutes (the division by 60 is the unit of
  \<open>js_round2 _ 60\<close>).
\<close>

definition duration_minutes :: "string \<Rightarrow> string \<Rightarrow> jsnum" where
  "duration_minutes st et =
     (let d = js_sub (js_time (parse_hhmm et)) (js_time (parse_hhmm st))
      in if js_less d (Num 0) then Num 0 else d)"

definition duration_text :: "string \<Rightarrow> string \<Rightarrow> string" where
  "duration_text st et = js_to_fixed2 (js_round2 (duration_minutes st et) 60)"

text \<open>The routes' \<open>if (end <= start)\<close> on the two parsed Dates.\<close>

definition end_not_after_start :: "string \<Rightarrow> string \<Rightarrow> bool" where
  "end_not_after_start st et = js_le (js_time (parse_hhmm et)) (js_time (parse_hhmm st))"

section \<open>Parser lemmas\<close>

lemma take_digits12_two:
  "is_digit a \<Longrightarrow> is_digit b \<Longrightarrow> take_digits12 (a # b # r) = Some (read_nat [a, b], r)"
  by (simp add: take_digits12_def)

lemma parse_hhmm_clock:
  assumes "list_all is_digit [h1, h2, m1, m2]"
  shows "parse_hhmm [h1, h2, CHR '':'', m1, m2] =
    (let h = read_nat [h1, h2]; m = read_nat [m1, m2]
     in if 23 < h \<or> 59 < m then None else Some (60 * h + m))"
  using assms by (simp add: parse_hhmm_def take_digits12_two Let_def)

lemma parse_hhmm_bound: "parse_hhmm s = Some t \<Longrightarrow> t < 1440"
  by (auto simp: parse_hhmm_def split: option.splits list.splits if_splits)

text \<open>The text the \<open>time\<close> column returns always has a second colon part.\<close>

lemma parse_hhmm_trailing_seconds:
  assumes "is_digit a" "is_digit b" "is_digit c" "is_digit d"
  shows "parse_hhmm ([a, b, CHR '':'', c, d] @ r @ [CHR '':'', x, y]) = None"
proof -
  have "\<not> list_all is_js_space (r @ [CHR '':'', x, y])"
    by (simp add: is_js_space_def)
  with assms show ?thesis
    by (simp add: parse_hhmm_def take_digits12_two Let_def)
qed

lemma pg_time_in_bound: "pg_time_in s = Some hm \<Longrightarrow> fst hm \<le> 24 \<and> snd hm < 60"
  by (auto simp: pg_time_in_def Let_def split: list.splits if_splits)

lemma parse_hhmm_pg_time_out:
  assumes "fst hm < 100" and "snd hm < 100"
  shows "parse_hhmm (pg_time_out hm) = None"
proof -
  have "pg_time_out hm = [digit_char (fst hm div 10), digit_char (fst hm mod 10), CHR '':'',
      digit_char (snd hm div 10), digit_char (snd hm mod 10)] @ [] @ [CHR '':'', CHR ''0'', CHR ''0'']"
    using assms by (simp add: pg_time_out_def pad_left_show_nat_two)
  also have "parse_hhmm \<dots> = None"
    using assms by (intro parse_hhmm_trailing_seconds) simp_all
  finally show ?thesis .
qed

section \<open>Duration lemmas\<close>

lemma duration_minutes_Some:
  "parse_hhmm st = Some s \<Longrightarrow> parse_hhmm et = Some e \<Longrightarrow>
   duration_minutes st et = Num (max 0 (int e - int s))"
  by (simp add: duration_minutes_def Let_def)

lemma duration_minutes_None:
  "parse_hhmm st = None \<or> parse_hhmm et = None \<Longrightarrow> duration_minutes st et = NaN"
  by (cases "parse_hhmm st"; cases "parse_hhmm et") (auto simp: duration_minutes_def)

lemma int_bound_40: "- 60 \<le> 40 * (x::int) \<Longrightarrow> 40 * x \<le> 60 \<Longrightarrow> - 1 \<le> x \<and> x \<le> 1"
  by presburger
lemma round_minutes_hundredths:
  assumes "0 \<le> m"
  shows "\<bar>3 * round_half_away (100 * m) 60 - 5 * m\<bar> \<le> 1"
proof -
  define r where "r = round_half_away (100 * m) 60"
  have "\<bar>2 * 60 * r - 2 * (100 * m)\<bar> \<le> 60"
    unfolding r_def by (rule round_half_away_nearest) simp
  then have "- 60 \<le> 40 * (3 * r - 5 * m)" "40 * (3 * r - 5 * m) \<le> 60"
    by (simp_all add: abs_le_iff algebra_simps)
  then have "- 1 \<le> 3 * r - 5 * m \<and> 3 * r - 5 * m \<le> 1" by (rule int_bound_40)
  then show ?thesis unfolding r_def by (simp add: abs_le_iff)
qed
lemma round_minutes_nonneg:
  "0 \<le> m \<Longrightarrow> 0 \<le> round_half_away (100 * m) 60"
  unfolding round_half_away_def by (simp add: pos_imp_zdiv_nonneg_iff)

lemma round_minutes_mono:
  "m \<le> m' \<Longrightarrow> round_half_away (100 * m) 60 \<le> round_half_away (100 * m') 60"
  unfolding round_half_away_def by (auto intro: zdiv_mono1 simp: not_less)

lemma fixed2_str_zero: "fixed2_str 0 = ''0.00''"
  by (simp add: fixed2_str_def show_nat.simps [of 0] pad_left_def)

lemma duration_text_Some:
  "parse_hhmm st = Some s \<Longrightarrow> parse_hhmm et = Some e \<Longrightarrow>
   duration_text st et = fixed2_str (round_half_away (100 * max 0 (int e - int s)) 60)"
  by (simp add: duration_text_def duration_minutes_Some)

lemma duration_text_None:
  "parse_hhmm st = None \<or> parse_hhmm et = None \<Longrightarrow> duration_text st et = ''NaN''"
  by (simp add: duration_text_def duration_minutes_None)

section \<open>Properties of the duration calculator\<close>

text \<open>
  C1. For two clock times that date-fns parses, with the end after the start, the
  stored \<open>hoursWorked\<close> text is \<open>toFixed(2)\<close> of a number of hundredths \<open>h\<close>
  that is the nearest hundredth to the elapsed hours (\<open>|h/100 - \<Delta>/60| \<le> 1/300\<close>),
  positive, and at most 23.98, so it always fits the \<open>numeric(5,2)\<close> column.
\<close>

theorem duration_text_nearest:
  assumes "parse_hhmm st = Some s" and "parse_hhmm et = Some e" and "s < e"
  shows "\<exists>h. duration_text st et = fixed2_str h \<and> \<bar>3 * h - 5 * (int e - int s)\<bar> \<le> 1 \<and>
             0 < h \<and> h \<le> 2398"
proof -
  let ?m = "int e - int s"
  let ?h = "round_half_away (100 * ?m) 60"
  have m: "1 \<le> ?m" "?m \<le> 1439"
    using assms parse_hhmm_bound [OF assms(2)] by simp_all
  have "round_half_away (100 * 1) 60 \<le> ?h" by (rule round_minutes_mono) (use m in simp)
  then have lo: "0 < ?h" by (simp add: round_half_away_def)
  have "?h \<le> round_half_away (100 * 1439) 60" by (rule round_minutes_mono) (use m in simp)
  then have hi: "?h \<le> 2398" by (simp add: round_half_away_def)
  have "\<bar>3 * ?h - 5 * ?m\<bar> \<le> 1" by (rule round_minutes_hundredths) (use m in simp)
  moreover have "duration_text st et = fixed2_str ?h"
    using duration_text_Some [OF assms(1,2)] m by simp
  ultimately show ?thesis using lo hi by blast
qed

lemma duration_text_nearest_witness:
  "\<exists>h. duration_text ''09:00'' ''17:00'' = fixed2_str h \<and> \<bar>3 * h - 5 * (int 1020 - int 540)\<bar> \<le> 1 \<and>
       0 < h \<and> h \<le> 2398"
proof -
  have a: "parse_hhmm ''09:00'' = Some 540" by code_simp
  have b: "parse_hhmm ''17:00'' = Some 1020" by code_simp
  show ?thesis by (rule duration_text_nearest [OF a b]) simp
qed

text \<open>
  C2. The defensive clamp: when the end is not after the start, the calculator stores
  \<open>0.00\<close>, never a negative duration.
\<close>

theorem duration_text_clamps:
  assumes "parse_hhmm st = Some s" and "parse_hhmm et = Some e" and "e \<le> s"
  shows "duration_text st et = ''0.00''"
proof -
  have "max 0 (int e - int s) = 0" using assms(3) by simp
  then show ?thesis
    using duration_text_Some [OF assms(1,2)] by (simp add: fixed2_str_zero round_half_away_def)
qed

lemma duration_text_clamps_witness: "duration_text ''17:00'' ''09:00'' = ''0.00''"
proof -
  have a: "parse_hhmm ''17:00'' = Some 1020" by code_simp
  have b: "parse_hhmm ''09:00'' = Some 540" by code_simp
  show ?thesis by (rule duration_text_clamps [OF a b]) simp
qed

text \<open>
  C3. A time date-fns cannot parse with \<open>HH:mm\<close> (an hour above 23, a minute above 59,
  or trailing text such as the seconds of PostgreSQL's \<open>HH:MM:SS\<close>) makes the
  calculator store the text \<open>NaN\<close>, and the routes' \<open>end <= start\<close> check is false
  for it, so the check does not reject it.
\<close>

theorem duration_text_invalid:
  assumes "parse_hhmm st = None \<or> parse_hhmm et = None"
  shows "duration_text st et = ''NaN'' \<and> \<not> end_not_after_start st et"
proof -
  have "duration_minutes st et = NaN" using assms by (rule duration_minutes_None)
  moreover have "\<not> end_not_after_start st et"
    using assms by (cases "parse_hhmm st"; cases "parse_hhmm et") (auto simp: end_not_after_start_def)
  ultimately show ?thesis by (simp add: duration_text_def)
qed

lemma duration_text_invalid_witness:
  "duration_text ''09:00'' ''24:00'' = ''NaN'' \<and> \<not> end_not_after_start ''09:00'' ''24:00''"
proof -
  have "parse_hhmm ''24:00'' = None" by code_simp
  then show ?thesis using duration_text_invalid [of "''09:00''" "''24:00''"] by blast
qed

end
