(* ===== verification/Calendar.thy ===== *)
theory Calendar
  imports Prelude "HOL-Library.Product_Lexorder"
begin

text \<open>
  The calendar arithmetic the server does through JavaScript's \<open>Date\<close> and date-fns.
  A local calendar date is a triple (year, month 1..12, day of month); the server's
  time zone is a fixed offset \<open>tz\<close> in minutes east of UTC (no daylight saving). The
  operations are the ones \<open>getWeekRange\<close> and the summary handler of
  src/server/routes.ts call: \<open>getDay\<close> (\<open>weekday\<close>), \<open>addDays\<close> and
  \<open>setDate\<close> (\<open>add_days\<close>), the \<open>Date(y, m, d)\<close> constructor and
  \<open>setFullYear\<close> (\<open>make_day\<close>, ECMA-262's MakeDay), \<open>startOfWeek\<close>,
  \<open>endOfWeek\<close>, \<open>endOfMonth\<close>, \<open>format(_, 'yyyy-MM-dd')\<close>,
  \<open>format(_, 'EEE')\<close> and \<open>new Date("YYYY-MM-DD")\<close>, which V8 reads as UTC
  midnight. \<open>day_number\<close> (days since 1970-01-01, the proleptic Gregorian count of
  ECMA-262's Day) is the bridge: the lemmas show that \<open>next_day\<close> adds one to it, that it
  is injective on valid dates, and what each date-fns operation does to it.
\<close>

type_synonym date = "int \<times> int \<times> int"

section \<open>The Gregorian calendar\<close>

definition leap_year :: "int \<Rightarrow> bool" where
  "leap_year y \<longleftrightarrow> 4 dvd y \<and> (\<not> 100 dvd y \<or> 400 dvd y)"

definition days_in_month :: "int \<Rightarrow> int \<Rightarrow> int" where
  "days_in_month y m =
     (if m = 2 then (if leap_year y then 29 else 28)
      else if m = 4 \<or> m = 6 \<or> m = 9 \<or> m = 11 then 30 else 31)"

fun valid_date :: "date \<Rightarrow> bool" where
  "valid_date (y, m, d) \<longleftrightarrow> 1 \<le> m \<and> m \<le> 12 \<and> 1 \<le> d \<and> d \<le> days_in_month y m"

text \<open>
  Days since 1970-01-01 (H. Hinnant's \<open>days_from_civil\<close>): years are counted from
  March, so that the leap day ends the year; \<open>year_days\<close> counts the days of the
  March-based years before, \<open>month_days\<close> those of the months since March.
\<close>

definition year_days :: "int \<Rightarrow> int" where
  "year_days y = 365 * y + y div 4 - y div 100 + y div 400"

definition month_days :: "int \<Rightarrow> int" where
  "month_days mp = (153 * mp + 2) div 5"

fun day_number :: "date \<Rightarrow> int" where
  "day_number (y, m, d) =
     year_days (if m \<le> 2 then y - 1 else y) + month_days ((m + 9) mod 12) + d - 1 - 719468"

text \<open>\<open>Date.prototype.getDay\<close>: 0 is Sunday; 1970-01-01 was a Thursday.\<close>

definition weekday :: "date \<Rightarrow> int" where
  "weekday x = (day_number x + 4) mod 7"

fun next_day :: "date \<Rightarrow> date" where
  "next_day (y, m, d) =
     (if d < days_in_month y m then (y, m, d + 1)
      else if m < 12 then (y, m + 1, 1) else (y + 1, 1, 1))"

fun prev_day :: "date \<Rightarrow> date" where
  "prev_day (y, m, d) =
     (if 1 < d then (y, m, d - 1)
      else if 1 < m then (y, m - 1, days_in_month y (m - 1)) else (y - 1, 12, 31))"

text \<open>
  \<open>addDays(x, n)\<close> is \<open>setDate(getDate() + n)\<close>, whose day overflow ECMA-262
  carries into the month and year: \<open>n\<close> steps of \<open>next_day\<close> or \<open>prev_day\<close>.
\<close>

definition add_days :: "int \<Rightarrow> date \<Rightarrow> date" where
  "add_days n x = (if 0 \<le> n then (next_day ^^ nat n) x else (prev_day ^^ nat (- n)) x)"

text \<open>
  ECMA-262's MakeDay for the local calendar: \<open>new Date(y, m0, d)\<close> and
  \<open>setFullYear(y, m0, d)\<close> with a month counted from 0 that overflows into the year and
  a day that overflows (or, at 0, underflows) into the neighbouring months.
\<close>

definition make_day :: "int \<Rightarrow> int \<Rightarrow> int \<Rightarrow> date" where
  "make_day y m0 d = add_days (d - 1) (y + m0 div 12, m0 mod 12 + 1, 1)"

text \<open>date-fns \<open>startOfWeek(date, { weekStartsOn: 1 })\<close> (the reset of the time of day
  is not seen by the calendar date).\<close>

definition start_of_week :: "date \<Rightarrow> date" where
  "start_of_week x =
     (let day = weekday x; diff = (if day < 1 then 7 else 0) + day - 1 in add_days (- diff) x)"

text \<open>date-fns \<open>endOfWeek(date, { weekStartsOn: 1 })\<close>.\<close>

definition end_of_week :: "date \<Rightarrow> date" where
  "end_of_week x =
     (let day = weekday x; diff = (if day < 1 then - 7 else 0) + 6 - (day - 1) in add_days diff x)"

text \<open>date-fns \<open>endOfMonth\<close>: \<open>setFullYear(getFullYear(), getMonth() + 1, 0)\<close>.\<close>

fun end_of_month :: "date \<Rightarrow> date" where
  "end_of_month (y, m, d) = make_day y ((m - 1) + 1) 0"

text \<open>date-fns \<open>format(date, 'yyyy-MM-dd')\<close>: the year of the era padded to four digits,
  month and day padded to two.\<close>

fun format_ymd :: "date \<Rightarrow> string" where
  "format_ymd (y, m, d) =
     pad_left 4 (show_nat (nat (if 0 < y then y else 1 - y))) @ ''-'' @
     pad_left 2 (show_nat (nat m)) @ ''-'' @ pad_left 2 (show_nat (nat d))"

text \<open>date-fns \<open>format(date, 'EEE')\<close> in the en-US locale.\<close>

definition day_abbrev :: "date \<Rightarrow> string" where
  "day_abbrev x = [''Sun'', ''Mon'', ''Tue'', ''Wed'', ''Thu'', ''Fri'', ''Sat''] ! nat (weekday x)"

text \<open>
  V8's \<open>new Date("YYYY-MM-DD")\<close>: four year digits, a month 01 to 12 and a day 01 to 31
  (a day past the month's end overflows through MakeDay), read as midnight UTC; any other
  text is an Invalid Date (\<open>None\<close>). The result is the UTC calendar date.
\<close>

definition parse_iso_date :: "string \<Rightarrow> date option" where
  "parse_iso_date s =
     (case s of
        [y1, y2, y3, y4, c1, m1, m2, c2, d1, d2] \<Rightarrow>
          if list_all is_digit [y1, y2, y3, y4, m1, m2, d1, d2] \<and> c1 = CHR ''-'' \<and> c2 = CHR ''-''
          then (let y = int (read_nat [y1, y2, y3, y4]); m = int (read_nat [m1, m2]);
                    d = int (read_nat [d1, d2])
                in if 1 \<le> m \<and> m \<le> 12 \<and> 1 \<le> d \<and> d \<le> 31 then Some (make_day y (m - 1) d)
                   else None)
          else None
      | _ \<Rightarrow> None)"

text \<open>The local calendar date of midnight UTC of \<open>x\<close> in a zone \<open>tz\<close> minutes east of UTC.\<close>

definition local_of_utc_midnight :: "int \<Rightarrow> date \<Rightarrow> date" where
  "local_of_utc_midnight tz x = add_days (tz div 1440) x"

section \<open>Calendar lemmas\<close>

lemma leap_year_days:
  "(y div 4 - (y - 1) div 4) - (y div 100 - (y - 1) div 100) + (y div 400 - (y - 1) div 400) =
     (if leap_year y then 1 else 0)"
proof -
  have a: "y div 4 - (y - 1) div 4 = (if 4 dvd y then 1 else 0)" by (rule div_step_dvd) simp
  have b: "y div 100 - (y - 1) div 100 = (if 100 dvd y then 1 else 0)" by (rule div_step_dvd) simp
  have c: "y div 400 - (y - 1) div 400 = (if 400 dvd y then 1 else 0)" by (rule div_step_dvd) simp
  have d1: "400 dvd y \<Longrightarrow> 100 dvd y" using dvd_trans [of 100 400 y] by simp
  have d2: "100 dvd y \<Longrightarrow> 4 dvd y" using dvd_trans [of 4 100 y] by simp
  show ?thesis
    unfolding a b c leap_year_def
    by (cases "4 dvd y"; cases "100 dvd y"; cases "400 dvd y") (simp_all add: d1 d2)
qed

lemma days_in_month_bounds: "28 \<le> days_in_month y m" "days_in_month y m \<le> 31"
  by (simp_all add: days_in_month_def)

lemma month_cases:
  assumes "1 \<le> m" "m \<le> (12::int)"
  shows "m = 1 \<or> m = 2 \<or> m = 3 \<or> m = 4 \<or> m = 5 \<or> m = 6 \<or> m = 7 \<or> m = 8 \<or>
         m = 9 \<or> m = 10 \<or> m = 11 \<or> m = 12"
  using assms by presburger

lemma valid_next_day [cal_simps]: "valid_date x \<Longrightarrow> valid_date (next_day x)"
  by (cases x) (auto simp: days_in_month_def)

lemma valid_prev_day [cal_simps]: "valid_date x \<Longrightarrow> valid_date (prev_day x)"
  by (cases x) (auto simp: days_in_month_def)

lemma year_days_step: "year_days y = year_days (y - 1) + 365 + (if leap_year y then 1 else 0)"
  using leap_year_days [of y] unfolding year_days_def by (simp add: algebra_simps)

lemma day_number_month_end:
  assumes "1 \<le> m" "m < 12"
  shows "day_number (y, m + 1, 1) = day_number (y, m, days_in_month y m) + 1"
proof -
  have m: "m = 1 \<or> m = 2 \<or> m = 3 \<or> m = 4 \<or> m = 5 \<or> m = 6 \<or> m = 7 \<or> m = 8 \<or>
         m = 9 \<or> m = 10 \<or> m = 11"
    using assms by presburger
  have feb: "day_number (y, 3, 1) = day_number (y, 2, days_in_month y 2) + 1"
    using year_days_step [of y] by (simp add: days_in_month_def month_days_def)
  from m feb show ?thesis by (elim disjE) (simp_all add: days_in_month_def month_days_def)
qed

lemma day_number_next_day [cal_simps]:
  "valid_date x \<Longrightarrow> day_number (next_day x) = day_number x + 1"
proof (cases x)
  case (fields y m d)
  assume v: "valid_date x"
  show ?thesis
  proof (cases "d < days_in_month y m")
    case True
    with fields show ?thesis by simp
  next
    case False
    with v fields have d: "d = days_in_month y m" by simp
    show ?thesis
    proof (cases "m < 12")
      case True
      with v fields d day_number_month_end [of m y] show ?thesis by simp
    next
      case False
      with v fields have "m = 12" by simp
      with fields d show ?thesis by (simp add: days_in_month_def month_days_def)
    qed
  qed
qed

lemma next_prev_day [cal_simps]: "valid_date x \<Longrightarrow> next_day (prev_day x) = x"
  by (cases x) (auto simp: days_in_month_def)

lemma prev_next_day [cal_simps]: "valid_date x \<Longrightarrow> prev_day (next_day x) = x"
  by (cases x) (auto simp: days_in_month_def)

lemma day_number_prev_day [cal_simps]:
  "valid_date x \<Longrightarrow> day_number (prev_day x) = day_number x - 1"
  using day_number_next_day [of "prev_day x"] by (simp add: valid_prev_day next_prev_day)

lemma valid_add_days [cal_simps]: "valid_date x \<Longrightarrow> valid_date (add_days n x)"
  by (simp add: add_days_def funpow_inv_step valid_next_day valid_prev_day)

lemma day_number_add_days [cal_simps]:
  "valid_date x \<Longrightarrow> day_number (add_days n x) = day_number x + n"
proof (cases "0 \<le> n")
  case True
  assume "valid_date x"
  with True show ?thesis
    using funpow_measure_step [of valid_date next_day day_number 1 x "nat n"]
    by (simp add: add_days_def valid_next_day day_number_next_day)
next
  case False
  assume "valid_date x"
  with False show ?thesis
    using funpow_measure_step [of valid_date prev_day day_number "- 1" x "nat (- n)"]
    by (simp add: add_days_def valid_prev_day day_number_prev_day)
qed

lemma weekday_add_days [cal_simps]:
  "valid_date x \<Longrightarrow> weekday (add_days n x) = (weekday x + n) mod 7"
  by (simp add: weekday_def day_number_add_days mod_add_right_eq algebra_simps)

lemma weekday_range: "0 \<le> weekday x" "weekday x < 7"
  by (simp_all add: weekday_def)

lemma day_number_day: "day_number (y, m, d) = day_number (y, m, 1) + (d - 1)"
  by simp

declare day_number.simps [simp del]

section \<open>The day number is an order embedding\<close>

lemma month_start_step:
  "1 \<le> m \<Longrightarrow> m < 12 \<Longrightarrow> day_number (y, m + 1, 1) = day_number (y, m, 1) + days_in_month y m"
  using day_number_month_end [of m y] day_number_day [of y m "days_in_month y m"] by simp

lemma month_start_mono:
  assumes "1 \<le> i" "i \<le> j" "j \<le> 12"
  shows "day_number (y, i, 1) \<le> day_number (y, j, 1)"
proof (rule int_step_mono [where f = "\<lambda>k. day_number (y, k, 1)" and a = 1 and b = 12])
  fix k :: int
  assume "1 \<le> k" "k < 12"
  then show "day_number (y, k, 1) \<le> day_number (y, k + 1, 1)"
    using month_start_step [of k y] days_in_month_bounds(1) [of y k] by simp
qed (use assms in simp_all)

lemma day_in_month:
  "valid_date (y, m, d) \<Longrightarrow>
   day_number (y, m, 1) \<le> day_number (y, m, d) \<and> day_number (y, m, d) < day_number (y, m, 1) + days_in_month y m"
  using day_number_day [of y m d] by simp

lemma year_start_step: "day_number (y + 1, 1, 1) = day_number (y, 12, 31) + 1"
  using day_number_next_day [of "(y, 12, 31)"] by (simp add: days_in_month_def)

lemma day_in_year:
  assumes "valid_date (y, m, d)"
  shows "day_number (y, 1, 1) \<le> day_number (y, m, d) \<and> day_number (y, m, d) \<le> day_number (y, 12, 31)"
proof -
  from assms have m: "1 \<le> m" "m \<le> 12" by simp_all
  have lo: "day_number (y, 1, 1) \<le> day_number (y, m, 1)"
    by (rule month_start_mono) (use m in simp_all)
  have hi: "day_number (y, m, d) \<le> day_number (y, 12, 31)"
  proof (cases "m < 12")
    case True
    have "day_number (y, m, d) < day_number (y, m + 1, 1)"
      using day_in_month [OF assms] month_start_step [of m y] m True by simp
    also have "\<dots> \<le> day_number (y, 12, 1)"
      by (rule month_start_mono) (use m True in simp_all)
    also have "\<dots> \<le> day_number (y, 12, 31)" using day_number_day [of y 12 31] by simp
    finally show ?thesis by simp
  next
    case False
    with m have "m = 12" by simp
    with assms show ?thesis using day_number_day [of y 12 d] day_number_day [of y 12 31]
      by (simp add: days_in_month_def)
  qed
  from lo hi day_in_month [OF assms] show ?thesis by simp
qed

lemma year_start_mono: "y \<le> y' \<Longrightarrow> day_number (y, 1, 1) \<le> day_number (y', 1, 1)"
proof (rule int_step_mono [where f = "\<lambda>k. day_number (k, 1, 1)" and a = y and b = y'])
  fix k :: int
  assume "y \<le> k" "k < y'"
  have "day_number (k, 1, 1) \<le> day_number (k, 12, 31)"
    using day_in_year [of k 12 31] by (simp add: days_in_month_def)
  then show "day_number (k, 1, 1) \<le> day_number (k + 1, 1, 1)" using year_start_step [of k] by simp
qed simp_all

lemma day_number_lex_less:
  assumes "valid_date (y, m, d)" "valid_date (y', m', d')"
    and "y < y' \<or> (y = y' \<and> m < m') \<or> (y = y' \<and> m = m' \<and> d < d')"
  shows "day_number (y, m, d) < day_number (y', m', d')"
  using assms(3)
proof (elim disjE conjE)
  assume "y < y'"
  have "day_number (y, m, d) \<le> day_number (y, 12, 31)" using day_in_year [OF assms(1)] by simp
  also have "\<dots> < day_number (y + 1, 1, 1)" using year_start_step [of y] by simp
  also have "\<dots> \<le> day_number (y', 1, 1)" by (rule year_start_mono) (use \<open>y < y'\<close> in simp)
  also have "\<dots> \<le> day_number (y', m', d')" using day_in_year [OF assms(2)] by simp
  finally show ?thesis .
next
  assume "y = y'" "m < m'"
  from assms(1,2) have m: "1 \<le> m" "m' \<le> 12" by simp_all
  have "day_number (y, m, d) < day_number (y, m + 1, 1)"
    using day_in_month [OF assms(1)] month_start_step [of m y] m \<open>m < m'\<close> by simp
  also have "\<dots> \<le> day_number (y, m', 1)"
    by (rule month_start_mono) (use m \<open>m < m'\<close> in simp_all)
  also have "\<dots> \<le> day_number (y', m', d')" using day_in_month [OF assms(2)] \<open>y = y'\<close> by simp
  finally show ?thesis .
next
  assume "y = y'" "m = m'" "d < d'"
  then show ?thesis using day_number_day [of y m d] day_number_day [of y' m' d'] by simp
qed

theorem day_number_inj:
  assumes "valid_date x" and "valid_date z" and "day_number x = day_number z"
  shows "x = z"
proof (rule ccontr)
  obtain y m d y' m' d' where x: "x = (y, m, d)" and z: "z = (y', m', d')"
    by (metis prod_cases3)
  assume "x \<noteq> z"
  then have "y \<noteq> y' \<or> m \<noteq> m' \<or> d \<noteq> d'" using x z by auto
  then have "(y < y' \<or> (y = y' \<and> m < m') \<or> (y = y' \<and> m = m' \<and> d < d')) \<or>
             (y' < y \<or> (y' = y \<and> m' < m) \<or> (y' = y \<and> m' = m \<and> d' < d))"
    by arith
  then show False
    using day_number_lex_less [of y m d y' m' d'] day_number_lex_less [of y' m' d' y m d] assms x z
    by auto
qed

text \<open>On real dates the day number orders as the \<open>(year, month, day)\<close> triple does.\<close>

lemma day_number_less_lex:
  assumes "valid_date x" and "valid_date z" and "x < z"
  shows "day_number x < day_number z"
proof -
  obtain y m d y' m' d' where x: "x = (y, m, d)" and z: "z = (y', m', d')"
    by (metis prod_cases3)
  have "y < y' \<or> (y = y' \<and> m < m') \<or> (y = y' \<and> m = m' \<and> d < d')"
    using assms(3) by (auto simp: x z less_prod_def)
  then show ?thesis using day_number_lex_less [of y m d y' m' d'] assms(1,2) x z by simp
qed

lemma day_number_le_iff:
  assumes "valid_date x" and "valid_date z"
  shows "day_number x \<le> day_number z \<longleftrightarrow> x \<le> z"
proof (cases x z rule: linorder_cases)
  case less
  then show ?thesis using day_number_less_lex [OF assms less] by simp
next
  case equal
  then show ?thesis by simp
next
  case greater
  then show ?thesis using day_number_less_lex [OF assms(2,1) greater] by simp
qed

section \<open>The date-fns operations\<close>

lemma add_days_in_month:
  assumes "valid_date (y, m, 1)" "0 \<le> k" "k < days_in_month y m"
  shows "add_days k (y, m, 1) = (y, m, 1 + k)"
proof (rule day_number_inj)
  show "valid_date (add_days k (y, m, 1))" using assms(1) by (rule valid_add_days)
  show "valid_date (y, m, 1 + k)" using assms by simp
  show "day_number (add_days k (y, m, 1)) = day_number (y, m, 1 + k)"
    using assms(1) day_number_day [of y m "1 + k"] by (simp add: day_number_add_days)
qed

lemma add_days_minus_one: "add_days (- 1) x = prev_day x"
  by (simp add: add_days_def)

lemma make_day_valid_date [cal_simps]:
  assumes "valid_date (y, m, d)"
  shows "make_day y (m - 1) d = (y, m, d)"
proof -
  from assms have m: "1 \<le> m" "m \<le> 12" by simp_all
  then have "(m - 1) div 12 = 0" "(m - 1) mod 12 + 1 = m" by simp_all
  then have "make_day y (m - 1) d = add_days (d - 1) (y, m, 1)" by (simp add: make_day_def)
  also have "\<dots> = (y, m, d)" using assms add_days_in_month [of y m "d - 1"] by simp
  finally show ?thesis .
qed

lemma valid_make_day [cal_simps]: "valid_date (make_day y m0 d)"
proof -
  have "0 \<le> m0 mod 12" "m0 mod 12 < 12" by simp_all
  then have "valid_date (y + m0 div 12, m0 mod 12 + 1, 1)" by (simp add: days_in_month_def, linarith)
  then show ?thesis unfolding make_day_def by (rule valid_add_days)
qed

theorem end_of_month_last_day:
  assumes "valid_date (y, m, d)"
  shows "end_of_month (y, m, d) = (y, m, days_in_month y m)"
proof -
  from assms have m: "1 \<le> m" "m \<le> 12" by simp_all
  have "end_of_month (y, m, d) = prev_day (y + m div 12, m mod 12 + 1, 1)"
    by (simp add: make_day_def add_days_minus_one)
  also have "\<dots> = (y, m, days_in_month y m)"
  proof (cases "m < 12")
    case True
    with m have "m div 12 = 0" "m mod 12 = m" by simp_all
    then show ?thesis using m by simp
  next
    case False
    with m have "m = 12" by simp
    then show ?thesis by (simp add: days_in_month_def)
  qed
  finally show ?thesis .
qed

lemma start_of_week_facts:
  assumes "valid_date x"
  shows "valid_date (start_of_week x) \<and> weekday (start_of_week x) = 1 \<and>
         day_number (start_of_week x) \<le> day_number x \<and> day_number x \<le> day_number (start_of_week x) + 6"
proof -
  have w: "0 \<le> weekday x" "weekday x < 7" by (rule weekday_range)+
  show ?thesis
  proof (cases "weekday x < 1")
    case True
    with w have "weekday x = 0" by simp
    with assms show ?thesis
      by (simp add: start_of_week_def valid_add_days weekday_add_days day_number_add_days)
  next
    case False
    with assms w show ?thesis
      by (simp add: start_of_week_def valid_add_days weekday_add_days day_number_add_days)
  qed
qed

lemma end_of_week_start:
  assumes "valid_date x"
  shows "end_of_week x = add_days 6 (start_of_week x)"
proof (rule day_number_inj)
  have s: "valid_date (start_of_week x)" using start_of_week_facts [OF assms] by simp
  show "valid_date (end_of_week x)" unfolding end_of_week_def Let_def by (rule valid_add_days [OF assms])
  show "valid_date (add_days 6 (start_of_week x))" using s by (rule valid_add_days)
  have w: "0 \<le> weekday x" "weekday x < 7" by (rule weekday_range)+
  show "day_number (end_of_week x) = day_number (add_days 6 (start_of_week x))"
    using assms s w
    by (simp add: end_of_week_def start_of_week_def day_number_add_days Let_def)
qed

lemma week_dates_cover:
  assumes "valid_date s" "valid_date z"
    and "day_number s \<le> day_number z" "day_number z \<le> day_number s + 6"
  shows "z \<in> set (map (\<lambda>i. add_days (int i) s) [0..<7])"
proof -
  let ?i = "nat (day_number z - day_number s)"
  have z: "z = add_days (int ?i) s"
    by (rule day_number_inj) (use assms in \<open>simp_all add: valid_add_days day_number_add_days\<close>)
  have i: "?i \<in> set [0..<7]" using assms(4) by simp
  show ?thesis unfolding set_map by (rule image_eqI [where f = "\<lambda>i. add_days (int i) s", OF z i])
qed

lemma format_ymd_digits:
  assumes "valid_date (y, m, d)" "1 \<le> y" "y \<le> 9999"
  obtains a b c e f g h i where
    "format_ymd (y, m, d) = [a, b, c, e, CHR ''-'', f, g, CHR ''-'', h, i]"
    "list_all is_digit [a, b, c, e, f, g, h, i]"
    "read_nat [a, b, c, e] = nat y" "read_nat [f, g] = nat m" "read_nat [h, i] = nat d"
proof -
  from assms have bounds: "nat y < 10 ^ 4" "nat m < 10 ^ 2" "nat d < 10 ^ 2"
    using days_in_month_bounds(2) [of y m] by (simp_all add: nat_less_iff)
  note Y = pad_show_nat [OF bounds(1) zero_less_numeral] and M = pad_show_nat [OF bounds(2) zero_less_numeral]
    and D = pad_show_nat [OF bounds(3) zero_less_numeral]
  obtain a b c e where ys: "pad_left 4 (show_nat (nat y)) = [a, b, c, e]"
    using list_length4 Y by blast
  obtain f g where ms: "pad_left 2 (show_nat (nat m)) = [f, g]" using list_length2 M by blast
  obtain h i where ds: "pad_left 2 (show_nat (nat d)) = [h, i]" using list_length2 D by blast
  show thesis
    by (rule that [of a b c e f g h i]) (use assms Y M D ys ms ds in simp_all)
qed

text \<open>
  Round trip of the date text: for a valid date with a four-digit year, V8 reads the
  text date-fns writes with \<open>yyyy-MM-dd\<close> back as the same date.
\<close>

theorem parse_iso_format_ymd:
  assumes "valid_date (y, m, d)" and "1 \<le> y" and "y \<le> 9999"
  shows "parse_iso_date (format_ymd (y, m, d)) = Some (y, m, d)"
proof -
  obtain a b c e f g h i where
    s: "format_ymd (y, m, d) = [a, b, c, e, CHR ''-'', f, g, CHR ''-'', h, i]"
    and dig: "list_all is_digit [a, b, c, e, f, g, h, i]"
    and r: "read_nat [a, b, c, e] = nat y" "read_nat [f, g] = nat m" "read_nat [h, i] = nat d"
    using format_ymd_digits [OF assms] by blast
  have "1 \<le> m \<and> m \<le> 12 \<and> 1 \<le> d \<and> d \<le> 31"
    using assms(1) days_in_month_bounds(2) [of y m] by simp
  with dig r assms(2) make_day_valid_date [OF assms(1)] show ?thesis
    unfolding s parse_iso_date_def by (simp add: Let_def)
qed

lemma parse_iso_format_ymd_witness:
  "valid_date (2024, 2, 29) \<and> (1::int) \<le> 2024 \<and> (2024::int) \<le> 9999 \<and>
   parse_iso_date (format_ymd (2024, 2, 29)) = Some (2024, 2, 29)"
proof -
  have v: "valid_date (2024, 2, 29)" by (simp add: days_in_month_def leap_year_def)
  show ?thesis using v parse_iso_format_ymd [OF v] by simp
qed

lemma format_ymd_inj:
  assumes "valid_date x" "valid_date z" "1 \<le> fst x" "fst x \<le> 9999" "1 \<le> fst z" "fst z \<le> 9999"
    and "format_ymd x = format_ymd z"
  shows "x = z"
proof -
  obtain y m d y' m' d' where x: "x = (y, m, d)" and z: "z = (y', m', d')"
    by (metis prod_cases3)
  have "parse_iso_date (format_ymd x) = Some x"
    using parse_iso_format_ymd [of y m d] assms(1,3,4) x by simp
  moreover have "parse_iso_date (format_ymd z) = Some z"
    using parse_iso_format_ymd [of y' m' d'] assms(2,5,6) z by simp
  ultimately show ?thesis using assms(7) by (metis option.inject)
qed

lemma parse_iso_date_valid: "parse_iso_date s = Some x \<Longrightarrow> valid_date x"
  by (auto simp: parse_iso_date_def Let_def valid_make_day split: list.splits if_splits)

lemma fst_next_day: "fst x \<le> fst (next_day x) \<and> fst (next_day x) \<le> fst x + 1"
  by (cases x) auto

lemma fst_prev_day: "fst x - 1 \<le> fst (prev_day x) \<and> fst (prev_day x) \<le> fst x"
  by (cases x) auto

lemma fst_funpow_next_day: "fst x \<le> fst ((next_day ^^ k) x) \<and> fst ((next_day ^^ k) x) \<le> fst x + int k"
proof (induction k)
  case 0
  then show ?case by simp
next
  case (Suc k)
  then show ?case using fst_next_day [of "(next_day ^^ k) x"] by simp
qed

lemma fst_funpow_prev_day: "fst x - int k \<le> fst ((prev_day ^^ k) x) \<and> fst ((prev_day ^^ k) x) \<le> fst x"
proof (induction k)
  case 0
  then show ?case by simp
next
  case (Suc k)
  then show ?case using fst_prev_day [of "(prev_day ^^ k) x"] by simp
qed

text \<open>Moving \<open>n\<close> days changes the year by at most \<open>|n|\<close>.\<close>

lemma fst_add_days: "fst x - \<bar>n\<bar> \<le> fst (add_days n x) \<and> fst (add_days n x) \<le> fst x + \<bar>n\<bar>"
  using fst_funpow_next_day [of x "nat n"] fst_funpow_prev_day [of x "nat (- n)"]
  by (cases "0 \<le> n") (simp_all add: add_days_def)

lemma fst_add_days_nonneg: "0 \<le> n \<Longrightarrow> fst x \<le> fst (add_days n x) \<and> fst (add_days n x) \<le> fst x + n"
  using fst_funpow_next_day [of x "nat n"] by (simp add: add_days_def)

lemma fst_add_days_nonpos: "n \<le> 0 \<Longrightarrow> fst x + n \<le> fst (add_days n x) \<and> fst (add_days n x) \<le> fst x"
  using fst_funpow_prev_day [of x "nat (- n)"] by (cases "n = 0") (simp_all add: add_days_def)

lemma start_of_week_shift: "\<exists>k. 0 \<le> k \<and> k \<le> 6 \<and> start_of_week x = add_days (- k) x"
proof -
  have "0 \<le> weekday x" "weekday x < 7" by (rule weekday_range)+
  then show ?thesis unfolding start_of_week_def Let_def
    by (intro exI [of _ "(if weekday x < 1 then 7 else 0) + weekday x - 1"]) auto
qed

lemma add_days_add:
  assumes "valid_date x"
  shows "add_days a (add_days b x) = add_days (a + b) x"
  by (rule day_number_inj) (simp_all add: assms valid_add_days day_number_add_days)

lemma add_days_zero [simp]: "add_days 0 x = x"
  by (simp add: add_days_def)

end
