(* ===== verification/Store.thy ===== *)
theory Store
  imports Clock Calendar "HOL-Library.Product_Lexorder" "HOL-Library.Multiset"
begin

text \<open>
  The Record Store: \<open>DatabaseStorage\<close> of src/server/storage.ts over the two tables of
  src/shared/schema.ts. The database is a record of the \<open>work_logs\<close> rows (in insertion
  order), the \<open>serial\<close> counter of their ids and the \<open>settings\<close> table as a map. A row
  holds PostgreSQL values: a \<open>date\<close>, two \<open>time\<close>s (hour, minute), the
  \<open>numeric(5,2)\<close> hours and the optional \<open>numeric(10,2)\<close> rate in hundredths.
  What the JavaScript side reads of a row is the text PostgreSQL prints
  (\<open>log_date_text\<close>, \<open>start_text\<close>, \<open>end_text\<close>, \<open>hours_text\<close>,
  \<open>rate_text\<close>); what it writes passes PostgreSQL's input conversions
  (\<open>pg_date_in\<close>, \<open>pg_time_in\<close>, \<open>pg_numeric_in\<close>, \<open>pg_rate_in\<close>), whose
  refusal is the \<open>store_error\<close> branch (an exception the route turns into a 500).
  One function per method: \<open>create_work_log\<close>, \<open>get_work_log\<close>,
  \<open>update_work_log\<close>, \<open>delete_work_log\<close>, \<open>get_work_logs_by_range\<close>,
  \<open>get_setting\<close>, \<open>update_setting\<close>. The lemmas give the store invariant (distinct
  positive ids below the counter, valid dates) kept by every operation, the refinement of
  each operation to a map from ids to rows, the range query's contract, and what
  \<open>hoursWorked\<close> becomes on create and on update.
\<close>

section \<open>Data\<close>

datatype store_error = Rejected string

record work_log =
  log_id :: int
  log_date :: date
  start_time :: "nat \<times> nat"
  end_time :: "nat \<times> nat"
  hours_worked :: jsnum
  hourly_rate :: "hundredths option"
  created_at :: int
  updated_at :: int

record db =
  rows :: "work_log list"
  next_id :: int
  settings :: "string \<Rightarrow> string option"

text \<open>\<open>InsertWorkLog\<close> after the zod schema (the rate coerced to a number, in hundredths).\<close>

record log_input =
  in_date :: string
  in_start :: string
  in_end :: string
  in_rate :: "hundredths option"

text \<open>\<open>Partial<InsertWorkLog>\<close>: \<open>None\<close> is a field the request does not send.\<close>

record log_update =
  up_date :: "string option"
  up_start :: "string option"
  up_end :: "string option"
  up_rate :: "hundredths option"

definition empty_db :: db where
  "empty_db = \<lparr>rows = [], next_id = 1, settings = Map.empty\<rparr>"

section \<open>PostgreSQL column conversions\<close>

text \<open>The \<open>date\<close> column accepts \<open>YYYY-MM-DD\<close> naming a real date of the common era.\<close>

definition pg_date_in :: "string \<Rightarrow> date option" where
  "pg_date_in s =
     (case s of
        [y1, y2, y3, y4, c1, m1, m2, c2, d1, d2] \<Rightarrow>
          if list_all is_digit [y1, y2, y3, y4, m1, m2, d1, d2] \<and> c1 = CHR ''-'' \<and> c2 = CHR ''-''
          then (let x = (int (read_nat [y1, y2, y3, y4]), int (read_nat [m1, m2]), int (read_nat [d1, d2]))
                in if valid_date x \<and> 1 \<le> fst x then Some x else None)
          else None
      | _ \<Rightarrow> None)"

text \<open>\<open>numeric(p, 2)\<close>: \<open>NaN\<close> is accepted; a value needs fewer than \<open>p\<close> digits in hundredths.\<close>

definition pg_numeric_in :: "nat \<Rightarrow> string \<Rightarrow> jsnum option" where
  "pg_numeric_in p s =
     (case parse_float s of
        NaN \<Rightarrow> if s = ''NaN'' then Some NaN else None
      | Num k \<Rightarrow> if \<bar>k\<bar> < 10 ^ p then Some (Num k) else None)"

definition pg_rate_in :: "hundredths \<Rightarrow> hundredths option" where
  "pg_rate_in k = (if \<bar>k\<bar> < 10 ^ 10 then Some k else None)"

text \<open>An optional field: absent stays absent, present must convert.\<close>

definition opt_in :: "('a \<Rightarrow> 'b option) \<Rightarrow> 'a option \<Rightarrow> 'b option option" where
  "opt_in f v = (case v of None \<Rightarrow> Some None | Some a \<Rightarrow> map_option Some (f a))"

definition opt_or :: "'a option \<Rightarrow> 'a \<Rightarrow> 'a" where
  "opt_or v a = (case v of None \<Rightarrow> a | Some b \<Rightarrow> b)"

section \<open>What the JavaScript side reads of a row\<close>

definition log_date_text :: "work_log \<Rightarrow> string" where
  "log_date_text r = format_ymd (log_date r)"

definition start_text :: "work_log \<Rightarrow> string" where
  "start_text r = pg_time_out (start_time r)"

definition end_text :: "work_log \<Rightarrow> string" where
  "end_text r = pg_time_out (end_time r)"

definition hours_text :: "work_log \<Rightarrow> string" where
  "hours_text r = js_to_fixed2 (hours_worked r)"

definition rate_text :: "work_log \<Rightarrow> string option" where
  "rate_text r = map_option fixed2_str (hourly_rate r)"

text \<open>\<open>a || b\<close> on an optional text field: absent or empty (falsy) gives \<open>b\<close>.\<close>

definition js_or_text :: "string option \<Rightarrow> string \<Rightarrow> string" where
  "js_or_text v b = (case v of None \<Rightarrow> b | Some a \<Rightarrow> if a = [] then b else a)"

section \<open>The storage methods\<close>

definition get_work_log :: "int \<Rightarrow> db \<Rightarrow> work_log option" where
  "get_work_log k s = find (\<lambda>r. log_id r = k) (rows s)"

text \<open>
  \<open>createWorkLog\<close>: the duration block of \<open>Clock\<close>, then one \<open>INSERT ... RETURNING\<close>
  that takes the next id and stamps both timestamps with the current time \<open>now\<close>.
\<close>

definition create_work_log :: "int \<Rightarrow> log_input \<Rightarrow> db \<Rightarrow> store_error + (work_log \<times> db)" where
  "create_work_log now i s =
     (let hours = duration_text (in_start i) (in_end i)
      in case (pg_date_in (in_date i), pg_time_in (in_start i), pg_time_in (in_end i),
               pg_numeric_in 5 hours, opt_in pg_rate_in (in_rate i)) of
           (Some d, Some st, Some et, Some h, Some r) \<Rightarrow>
             (let row = \<lparr>log_id = next_id s, log_date = d, start_time = st, end_time = et,
                         hours_worked = h, hourly_rate = r, created_at = now, updated_at = now\<rparr>
              in Inr (row, s\<lparr>rows := rows s @ [row], next_id := next_id s + 1\<rparr>))
         | _ \<Rightarrow> Inl (Rejected ''invalid input value''))"

text \<open>
  \<open>updateWorkLog\<close>: \<open>undefined\<close> for a missing id; otherwise the times are the request's
  or the stored ones as the driver returns them, the duration is recomputed, and one
  \<open>UPDATE ... RETURNING\<close> writes the sent fields, the hours and \<open>updatedAt\<close>.
\<close>

definition update_work_log ::
  "int \<Rightarrow> int \<Rightarrow> log_update \<Rightarrow> db \<Rightarrow> store_error + (work_log option \<times> db)" where
  "update_work_log now k u s =
     (case get_work_log k s of
        None \<Rightarrow> Inr (None, s)
      | Some ex \<Rightarrow>
          (let st = js_or_text (up_start u) (start_text ex);
               et = js_or_text (up_end u) (end_text ex);
               hours = duration_text st et
           in case (opt_in pg_date_in (up_date u), opt_in pg_time_in (up_start u),
                    opt_in pg_time_in (up_end u), pg_numeric_in 5 hours, opt_in pg_rate_in (up_rate u)) of
                (Some d, Some a, Some b, Some h, Some r) \<Rightarrow>
                  (let row = ex\<lparr>log_date := opt_or d (log_date ex), start_time := opt_or a (start_time ex),
                                end_time := opt_or b (end_time ex), hours_worked := h,
                                hourly_rate := (if r = None then hourly_rate ex else r), updated_at := now\<rparr>
                   in Inr (Some row, s\<lparr>rows := map (\<lambda>x. if log_id x = k then row else x) (rows s)\<rparr>))
              | _ \<Rightarrow> Inl (Rejected ''invalid input value'')))"

definition delete_work_log :: "int \<Rightarrow> db \<Rightarrow> db" where
  "delete_work_log k s = s\<lparr>rows := filter (\<lambda>r. log_id r \<noteq> k) (rows s)\<rparr>"

text \<open>
  \<open>getWorkLogsByRange\<close>: the bounds are cast to \<open>date\<close>, the rows compared as dates and
  ordered by date, then start time (rows equal in both keep the table order here; SQL
  leaves that order open, and no result of the development depends on it).
\<close>

definition range_key :: "work_log \<Rightarrow> int \<times> nat \<times> nat" where
  "range_key r = (day_number (log_date r), start_time r)"

definition in_range :: "date \<Rightarrow> date \<Rightarrow> work_log \<Rightarrow> bool" where
  "in_range lo hi r \<longleftrightarrow> day_number lo \<le> day_number (log_date r) \<and> day_number (log_date r) \<le> day_number hi"

definition get_work_logs_by_range :: "string \<Rightarrow> string \<Rightarrow> db \<Rightarrow> store_error + work_log list" where
  "get_work_logs_by_range a b s =
     (case (pg_date_in a, pg_date_in b) of
        (Some lo, Some hi) \<Rightarrow> Inr (sort_key range_key (filter (in_range lo hi) (rows s)))
      | _ \<Rightarrow> Inl (Rejected ''invalid input syntax for type date''))"

text \<open>
  A \<open>text\<close> parameter: PostgreSQL refuses a string holding the character U+0000
  (\<open>invalid byte sequence for encoding "UTF8": 0x00\<close>), and the driver throws.
\<close>

definition pg_text_ok :: "string \<Rightarrow> bool" where
  "pg_text_ok v \<longleftrightarrow> CHR 0x00 \<notin> set v"

definition get_setting :: "string \<Rightarrow> db \<Rightarrow> store_error + string option" where
  "get_setting k s = (if pg_text_ok k then Inr (settings s k) else Inl (Rejected ''invalid byte sequence''))"

text \<open>\<open>INSERT ... ON CONFLICT (key) DO UPDATE SET value\<close>: one atomic upsert.\<close>

definition update_setting :: "string \<Rightarrow> string \<Rightarrow> db \<Rightarrow> store_error + db" where
  "update_setting k v s =
     (if pg_text_ok k \<and> pg_text_ok v then Inr (s\<lparr>settings := (settings s)(k \<mapsto> v)\<rparr>)
      else Inl (Rejected ''invalid byte sequence''))"

section \<open>The storage interface as a step function\<close>

text \<open>
  The state-changing methods of \<open>IStorage\<close> as operations on the database. A method that
  throws leaves the tables as they were: each is a single SQL statement.
\<close>

datatype store_op =
    OpCreate int log_input
  | OpUpdate int int log_update
  | OpDelete int
  | OpSetting string string

fun store_step :: "store_op \<Rightarrow> db \<Rightarrow> db" where
  "store_step (OpCreate now i) s = (case create_work_log now i s of Inr (_, s') \<Rightarrow> s' | Inl _ \<Rightarrow> s)"
| "store_step (OpUpdate now k u) s = (case update_work_log now k u s of Inr (_, s') \<Rightarrow> s' | Inl _ \<Rightarrow> s)"
| "store_step (OpDelete k) s = delete_work_log k s"
| "store_step (OpSetting k v) s = (case update_setting k v s of Inr s' \<Rightarrow> s' | Inl _ \<Rightarrow> s)"

inductive reachable :: "db \<Rightarrow> bool" where
  reachable_empty: "reachable empty_db"
| reachable_step: "reachable s \<Longrightarrow> reachable (store_step op s)"

section \<open>Invariant and abstraction\<close>

definition time_ok :: "nat \<times> nat \<Rightarrow> bool" where
  "time_ok hm \<longleftrightarrow> fst hm \<le> 24 \<and> snd hm < 60"

definition row_ok :: "int \<Rightarrow> work_log \<Rightarrow> bool" where
  "row_ok n r \<longleftrightarrow> 0 < log_id r \<and> log_id r < n \<and> valid_date (log_date r) \<and>
     time_ok (start_time r) \<and> time_ok (end_time r)"

definition store_inv :: "db \<Rightarrow> bool" where
  "store_inv s \<longleftrightarrow> 0 < next_id s \<and> distinct (map log_id (rows s)) \<and> list_all (row_ok (next_id s)) (rows s)"

definition rows_map :: "db \<Rightarrow> int \<Rightarrow> work_log option" where
  "rows_map s = map_of (map (\<lambda>r. (log_id r, r)) (rows s))"

text \<open>A sample request and the database after it, used by the witnesses below.\<close>

definition sample_input :: log_input where
  "sample_input = \<lparr>in_date = ''2024-01-15'', in_start = ''09:00'', in_end = ''17:30'', in_rate = Some 2500\<rparr>"

definition sample_db :: db where
  "sample_db = store_step (OpCreate 0 sample_input) empty_db"

section \<open>Conversion lemmas\<close>

lemma pg_date_in_valid: "pg_date_in s = Some x \<Longrightarrow> valid_date x"
  by (auto simp: pg_date_in_def Let_def split: list.splits if_splits)

lemma pg_time_in_ok: "pg_time_in s = Some hm \<Longrightarrow> time_ok hm"
  unfolding time_ok_def by (rule pg_time_in_bound)

lemma opt_in_Some:
  "opt_in f v = Some w \<Longrightarrow> (v = None \<and> w = None) \<or> (\<exists>a b. v = Some a \<and> w = Some b \<and> f a = Some b)"
  by (cases v) (auto simp: opt_in_def)

lemma opt_or_opt_in:
  assumes "opt_in f v = Some w" and "\<And>a b. f a = Some b \<Longrightarrow> P b" and "P x"
  shows "P (opt_or w x)"
  using opt_in_Some [OF assms(1)] assms(2,3) by (auto simp: opt_or_def)

lemma pg_numeric_in_parse: "pg_numeric_in p t = Some x \<Longrightarrow> x = parse_float t"
  by (auto simp: pg_numeric_in_def split: jsnum.splits if_splits)

section \<open>Characteristic lemmas of the methods\<close>

lemma create_work_log_Inr:
  assumes "create_work_log now i s = Inr (r, s')"
  shows "\<exists>d st et h rt. pg_date_in (in_date i) = Some d \<and> pg_time_in (in_start i) = Some st \<and>
     pg_time_in (in_end i) = Some et \<and> pg_numeric_in 5 (duration_text (in_start i) (in_end i)) = Some h \<and>
     opt_in pg_rate_in (in_rate i) = Some rt \<and>
     r = \<lparr>log_id = next_id s, log_date = d, start_time = st, end_time = et,
          hours_worked = h, hourly_rate = rt, created_at = now, updated_at = now\<rparr> \<and>
     s' = s\<lparr>rows := rows s @ [r], next_id := next_id s + 1\<rparr>"
  using assms by (auto simp: create_work_log_def Let_def split: option.splits)

lemma update_work_log_Inr:
  assumes "update_work_log now k u s = Inr (Some r, s')"
  shows "\<exists>ex d a b h rt. get_work_log k s = Some ex \<and> opt_in pg_date_in (up_date u) = Some d \<and>
     opt_in pg_time_in (up_start u) = Some a \<and> opt_in pg_time_in (up_end u) = Some b \<and>
     pg_numeric_in 5 (duration_text (js_or_text (up_start u) (start_text ex))
                                    (js_or_text (up_end u) (end_text ex))) = Some h \<and>
     opt_in pg_rate_in (up_rate u) = Some rt \<and>
     r = ex\<lparr>log_date := opt_or d (log_date ex), start_time := opt_or a (start_time ex),
            end_time := opt_or b (end_time ex), hours_worked := h,
            hourly_rate := (if rt = None then hourly_rate ex else rt), updated_at := now\<rparr> \<and>
     s' = s\<lparr>rows := map (\<lambda>x. if log_id x = k then r else x) (rows s)\<rparr>"
  using assms by (auto simp: update_work_log_def Let_def split: option.splits)

lemma update_work_log_missing: "get_work_log k s = None \<Longrightarrow> update_work_log now k u s = Inr (None, s)"
  by (simp add: update_work_log_def)

lemma update_work_log_found: "update_work_log now k u s = Inr (None, s') \<Longrightarrow> s' = s \<and> get_work_log k s = None"
  by (auto simp: update_work_log_def Let_def split: option.splits)

lemma get_work_log_Some: "get_work_log k s = Some r \<Longrightarrow> r \<in> set (rows s) \<and> log_id r = k"
  by (auto simp: get_work_log_def dest: map_of_SomeD)

section \<open>The invariant is kept\<close>

lemma row_ok_mono: "row_ok n r \<Longrightarrow> n \<le> m \<Longrightarrow> row_ok m r"
  by (simp add: row_ok_def)

lemma store_inv_empty: "store_inv empty_db"
  by (simp add: store_inv_def empty_db_def)

lemma create_work_log_inv:
  assumes "store_inv s" and "create_work_log now i s = Inr (r, s')"
  shows "store_inv s'"
proof -
  obtain d st et h rt where conv: "pg_date_in (in_date i) = Some d" "pg_time_in (in_start i) = Some st"
      "pg_time_in (in_end i) = Some et"
    and r: "r = \<lparr>log_id = next_id s, log_date = d, start_time = st, end_time = et,
          hours_worked = h, hourly_rate = rt, created_at = now, updated_at = now\<rparr>"
    and s': "s' = s\<lparr>rows := rows s @ [r], next_id := next_id s + 1\<rparr>"
    using create_work_log_Inr [OF assms(2)] by blast
  have old: "list_all (row_ok (next_id s)) (rows s)" "distinct (map log_id (rows s))" "0 < next_id s"
    using assms(1) by (simp_all add: store_inv_def)
  then have fresh: "next_id s \<notin> log_id ` set (rows s)"
    by (auto simp: list_all_iff row_ok_def)
  have "row_ok (next_id s + 1) r"
    using old(3) conv pg_date_in_valid pg_time_in_ok by (simp add: r row_ok_def)
  moreover have "list_all (row_ok (next_id s + 1)) (rows s)"
    using old(1) by (auto simp: list_all_iff intro: row_ok_mono)
  ultimately show ?thesis
    using old fresh by (simp add: store_inv_def s' r)
qed

lemma update_row_ok:
  assumes "row_ok n ex" and "opt_in pg_date_in v = Some d" and "opt_in pg_time_in a = Some a'"
    and "opt_in pg_time_in b = Some b'"
  shows "row_ok n (ex\<lparr>log_date := opt_or d (log_date ex), start_time := opt_or a' (start_time ex),
            end_time := opt_or b' (end_time ex), hours_worked := h, hourly_rate := rt, updated_at := t\<rparr>)"
proof -
  have ex: "valid_date (log_date ex)" "time_ok (start_time ex)" "time_ok (end_time ex)"
    using assms(1) by (simp_all add: row_ok_def)
  have "valid_date (opt_or d (log_date ex))"
    by (rule opt_or_opt_in [where P = valid_date, OF assms(2) pg_date_in_valid ex(1)])
  moreover have "time_ok (opt_or a' (start_time ex))"
    by (rule opt_or_opt_in [where P = time_ok, OF assms(3) pg_time_in_ok ex(2)])
  moreover have "time_ok (opt_or b' (end_time ex))"
    by (rule opt_or_opt_in [where P = time_ok, OF assms(4) pg_time_in_ok ex(3)])
  ultimately show ?thesis using assms(1) unfolding row_ok_def by simp
qed

lemma update_work_log_inv:
  assumes "store_inv s" and "update_work_log now k u s = Inr (res, s')"
  shows "store_inv s'"
proof (cases res)
  case None
  then show ?thesis using assms update_work_log_found by blast
next
  case (Some r)
  obtain ex d a b h rt where ex: "get_work_log k s = Some ex"
    and conv: "opt_in pg_date_in (up_date u) = Some d" "opt_in pg_time_in (up_start u) = Some a"
      "opt_in pg_time_in (up_end u) = Some b"
    and r: "r = ex\<lparr>log_date := opt_or d (log_date ex), start_time := opt_or a (start_time ex),
            end_time := opt_or b (end_time ex), hours_worked := h,
            hourly_rate := (if rt = None then hourly_rate ex else rt), updated_at := now\<rparr>"
    and s': "s' = s\<lparr>rows := map (\<lambda>x. if log_id x = k then r else x) (rows s)\<rparr>"
    using update_work_log_Inr [OF assms(2) [unfolded Some]] by blast
  have exk: "ex \<in> set (rows s)" "log_id ex = k" using get_work_log_Some [OF ex] by simp_all
  have ok: "row_ok (next_id s) ex" using assms(1) exk(1) by (simp add: store_inv_def list_all_iff)
  have "row_ok (next_id s) r" unfolding r by (rule update_row_ok [OF ok conv])
  moreover have "map log_id (map (\<lambda>x. if log_id x = k then r else x) (rows s)) = map log_id (rows s)"
    using exk(2) by (simp add: r)
  ultimately show ?thesis
    using assms(1) by (auto simp: store_inv_def s' list_all_iff simp del: map_map)
qed

lemma delete_work_log_inv: "store_inv s \<Longrightarrow> store_inv (delete_work_log k s)"
  by (auto simp: store_inv_def delete_work_log_def list_all_iff distinct_map_filter)

lemma update_setting_Inr:
  "update_setting k v s = Inr s' \<Longrightarrow> s' = s\<lparr>settings := (settings s)(k \<mapsto> v)\<rparr> \<and> pg_text_ok k \<and> pg_text_ok v"
  by (simp add: update_setting_def split: if_splits)

lemma update_setting_inv: "store_inv s \<Longrightarrow> update_setting k v s = Inr s' \<Longrightarrow> store_inv s'"
  by (auto simp: store_inv_def dest!: update_setting_Inr)

lemma store_step_inv: "store_inv s \<Longrightarrow> store_inv (store_step op s)"
  by (cases op) (auto split: sum.split intro: create_work_log_inv update_work_log_inv
      delete_work_log_inv update_setting_inv)

section \<open>Refinement lemmas\<close>

lemma get_work_log_rows_map [store_simps]: "get_work_log k s = rows_map s k"
  by (simp add: get_work_log_def rows_map_def)

lemma dom_rows_map: "dom (rows_map s) = log_id ` set (rows s)"
  by (force simp: rows_map_def dom_map_of_conv_image_fst)

lemma fresh_next_id: "store_inv s \<Longrightarrow> next_id s \<notin> dom (rows_map s)"
  by (auto simp: dom_rows_map store_inv_def list_all_iff row_ok_def)

section \<open>The hours column always accepts the computed text\<close>

lemma round_minutes_day_bound: "m \<le> 1440 \<Longrightarrow> round_half_away (100 * m) 60 \<le> 2400"
proof -
  assume "m \<le> 1440"
  then have "round_half_away (100 * m) 60 \<le> round_half_away (100 * 1440) 60" by (rule round_minutes_mono)
  also have "\<dots> = 2400" by (simp add: round_half_away_def)
  finally show ?thesis .
qed

lemma pg_numeric_in_duration:
  "\<exists>y. pg_numeric_in 5 (duration_text st et) = Some y \<and> y = parse_float (duration_text st et)"
proof (cases "parse_hhmm st = None \<or> parse_hhmm et = None")
  case True
  then show ?thesis by (simp add: duration_text_None pg_numeric_in_def parse_float_NaN)
next
  case False
  then obtain a b where a: "parse_hhmm st = Some a" and b: "parse_hhmm et = Some b" by auto
  define h where "h = round_half_away (100 * max 0 (int b - int a)) 60"
  have "b < 1440" using b by (rule parse_hhmm_bound)
  then have "0 \<le> h" "h \<le> 2400"
    unfolding h_def by (simp_all add: round_minutes_nonneg round_minutes_day_bound)
  moreover have "duration_text st et = fixed2_str h" unfolding h_def by (rule duration_text_Some [OF a b])
  ultimately show ?thesis by (simp add: pg_numeric_in_def parse_float_fixed2_str)
qed

lemma time_ok_pg_time_out: "time_ok hm \<Longrightarrow> parse_hhmm (pg_time_out hm) = None"
  by (rule parse_hhmm_pg_time_out) (simp_all add: time_ok_def)

lemma js_or_text_None [simp]: "js_or_text None b = b"
  by (simp add: js_or_text_def)

lemma in_range_lex:
  assumes "valid_date lo" and "valid_date hi" and "valid_date (log_date r)"
  shows "in_range lo hi r \<longleftrightarrow> lo \<le> log_date r \<and> log_date r \<le> hi"
  using assms by (simp add: in_range_def day_number_le_iff)

section \<open>Properties of the record store\<close>

text \<open>
  C4. Every database the storage methods can produce from the empty tables has distinct,
  positive ids below the serial counter, and only real dates and clock times in its rows.
\<close>

theorem reachable_store_inv: "reachable s \<Longrightarrow> store_inv s"
  by (induction rule: reachable.induct) (simp_all add: store_inv_empty store_step_inv)

lemma reachable_store_inv_witness: "store_inv sample_db"
  unfolding sample_db_def by (rule reachable_store_inv [OF reachable_step [OF reachable_empty]])

text \<open>
  C5. \<open>createWorkLog\<close> refines inserting a fresh key into the map from ids to rows: the
  new row gets the serial counter's value, which no stored row has, the counter advances,
  and no other row and no setting changes.
\<close>

theorem create_work_log_refines:
  assumes "store_inv s" and "create_work_log now i s = Inr (r, s')"
  shows "rows_map s' = (rows_map s)(next_id s \<mapsto> r) \<and> next_id s \<notin> dom (rows_map s) \<and>
    log_id r = next_id s \<and> next_id s' = next_id s + 1 \<and> settings s' = settings s"
proof -
  obtain d st et h rt where
    r: "r = \<lparr>log_id = next_id s, log_date = d, start_time = st, end_time = et,
          hours_worked = h, hourly_rate = rt, created_at = now, updated_at = now\<rparr>"
    and s': "s' = s\<lparr>rows := rows s @ [r], next_id := next_id s + 1\<rparr>"
    using create_work_log_Inr [OF assms(2)] by blast
  have fresh: "next_id s \<notin> dom (rows_map s)" using assms(1) by (rule fresh_next_id)
  then have "log_id r \<notin> log_id ` set (rows s)" by (simp add: r dom_rows_map)
  moreover have "rows s' = rows s @ [r]" by (simp add: s')
  ultimately have "rows_map s' = (rows_map s)(log_id r \<mapsto> r)"
    by (simp only: rows_map_def map_of_key_snoc if_False)
  with fresh show ?thesis by (simp add: r s')
qed

lemma create_work_log_refines_witness:
  "case create_work_log 0 sample_input empty_db of
     Inr (r, s') \<Rightarrow> rows_map s' = (rows_map empty_db)(next_id empty_db \<mapsto> r) \<and>
       next_id empty_db \<notin> dom (rows_map empty_db) \<and> log_id r = next_id empty_db \<and>
       next_id s' = next_id empty_db + 1 \<and> settings s' = settings empty_db
   | Inl _ \<Rightarrow> False"
proof -
  have ok: "\<not> isl (create_work_log 0 sample_input empty_db)" by code_simp
  then obtain r s' where eq: "create_work_log 0 sample_input empty_db = Inr (r, s')"
    by (cases "create_work_log 0 sample_input empty_db") auto
  show ?thesis using create_work_log_refines [OF store_inv_empty eq] by (simp add: eq)
qed

text \<open>
  C6. \<open>updateWorkLog\<close> refines overwriting one key of the map from ids to rows: it
  returns \<open>undefined\<close> and changes nothing exactly when no row has the id, and
  otherwise replaces that row by the returned one, which keeps the id; the serial
  counter is untouched.
\<close>

theorem update_work_log_refines:
  assumes "update_work_log now k u s = Inr (res, s')"
  shows "rows_map s' = (case res of None \<Rightarrow> rows_map s | Some r \<Rightarrow> (rows_map s)(k \<mapsto> r)) \<and>
    (res = None \<longleftrightarrow> k \<notin> dom (rows_map s)) \<and> (\<forall>r. res = Some r \<longrightarrow> log_id r = k) \<and>
    next_id s' = next_id s"
proof (cases res)
  case None
  then have "s' = s \<and> get_work_log k s = None" using assms update_work_log_found by blast
  then show ?thesis using None by (auto simp: get_work_log_rows_map)
next
  case (Some r)
  obtain ex d a b h rt where ex: "get_work_log k s = Some ex"
    and r: "r = ex\<lparr>log_date := opt_or d (log_date ex), start_time := opt_or a (start_time ex),
            end_time := opt_or b (end_time ex), hours_worked := h,
            hourly_rate := (if rt = None then hourly_rate ex else rt), updated_at := now\<rparr>"
    and s': "s' = s\<lparr>rows := map (\<lambda>x. if log_id x = k then r else x) (rows s)\<rparr>"
    using update_work_log_Inr [OF assms [unfolded Some]] by blast
  have exk: "ex \<in> set (rows s)" "log_id ex = k" using get_work_log_Some [OF ex] by simp_all
  then have key: "log_id r = k" "k \<in> log_id ` set (rows s)" by (auto simp: r)
  have "rows s' = map (\<lambda>x. if log_id x = k then r else x) (rows s)" by (simp add: s')
  then have "rows_map s' = (rows_map s)(k \<mapsto> r)"
    by (simp only: rows_map_def map_of_key_replace [OF key])
  moreover have "k \<in> dom (rows_map s)" using key(2) by (simp add: dom_rows_map)
  ultimately show ?thesis using Some key(1) by (simp add: s')
qed

lemma update_work_log_refines_witness:
  "case update_work_log 1 1 \<lparr>up_date = None, up_start = None, up_end = Some ''18:00'', up_rate = None\<rparr> sample_db of
     Inr (res, s') \<Rightarrow> rows_map s' = (case res of None \<Rightarrow> rows_map sample_db | Some r \<Rightarrow> (rows_map sample_db)(1 \<mapsto> r)) \<and>
       (res = None \<longleftrightarrow> 1 \<notin> dom (rows_map sample_db)) \<and> (\<forall>r. res = Some r \<longrightarrow> log_id r = 1) \<and>
       next_id s' = next_id sample_db
   | Inl _ \<Rightarrow> False"
proof -
  have ok: "\<not> isl (update_work_log 1 1 \<lparr>up_date = None, up_start = None, up_end = Some ''18:00'', up_rate = None\<rparr> sample_db)"
    by code_simp
  then obtain res s' where
    eq: "update_work_log 1 1 \<lparr>up_date = None, up_start = None, up_end = Some ''18:00'', up_rate = None\<rparr> sample_db = Inr (res, s')"
    by (cases "update_work_log 1 1 \<lparr>up_date = None, up_start = None, up_end = Some ''18:00'', up_rate = None\<rparr> sample_db") auto
  show ?thesis using update_work_log_refines [OF eq] by (simp add: eq)
qed

text \<open>
  C7. \<open>createWorkLog\<close> throws exactly when PostgreSQL refuses the date, one of the two
  times or the rate; the computed hours text never makes the insert fail, since it is
  either a number of hundredths that fits \<open>numeric(5,2)\<close> or the text \<open>NaN\<close>, which
  the column accepts.
\<close>

theorem create_work_log_error:
  "(\<exists>e. create_work_log now i s = Inl e) \<longleftrightarrow>
     pg_date_in (in_date i) = None \<or> pg_time_in (in_start i) = None \<or> pg_time_in (in_end i) = None \<or>
     opt_in pg_rate_in (in_rate i) = None"
proof -
  obtain y where "pg_numeric_in 5 (duration_text (in_start i) (in_end i)) = Some y"
    using pg_numeric_in_duration by blast
  then show ?thesis by (auto simp: create_work_log_def Let_def split: option.splits)
qed

lemma create_work_log_error_witness:
  "\<exists>e. create_work_log 0 (sample_input\<lparr>in_date := ''2024-02-30''\<rparr>) empty_db = Inl e"
proof -
  have "pg_date_in (in_date (sample_input\<lparr>in_date := ''2024-02-30''\<rparr>)) = None" by code_simp
  then show ?thesis using create_work_log_error by blast
qed

text \<open>
  C8. The \<open>hoursWorked\<close> a created row returns, printed as the driver hands it back,
  is the very text the server computed with \<open>toFixed(2)\<close>: the numeric column stores
  the number that text denotes, with nothing lost.
\<close>

theorem create_hours_roundtrip:
  assumes "create_work_log now i s = Inr (r, s')"
  shows "hours_text r = duration_text (in_start i) (in_end i) \<and>
    hours_worked r = parse_float (duration_text (in_start i) (in_end i))"
proof -
  obtain h where h: "pg_numeric_in 5 (duration_text (in_start i) (in_end i)) = Some h"
    and r: "hours_worked r = h"
    using create_work_log_Inr [OF assms] by auto
  have hp: "h = parse_float (duration_text (in_start i) (in_end i))" using h by (rule pg_numeric_in_parse)
  have "hours_text r = js_to_fixed2 (parse_float (js_to_fixed2 (js_round2 (duration_minutes (in_start i) (in_end i)) 60)))"
    by (simp add: hours_text_def r hp duration_text_def)
  also have "\<dots> = duration_text (in_start i) (in_end i)" by (simp add: parse_float_to_fixed2 duration_text_def)
  finally show ?thesis using r hp by simp
qed

lemma create_hours_roundtrip_witness:
  "case create_work_log 0 sample_input empty_db of
     Inr (r, s') \<Rightarrow> hours_text r = duration_text (in_start sample_input) (in_end sample_input) \<and>
       hours_worked r = parse_float (duration_text (in_start sample_input) (in_end sample_input))
   | Inl _ \<Rightarrow> False"
proof -
  have ok: "\<not> isl (create_work_log 0 sample_input empty_db)" by code_simp
  then obtain r s' where eq: "create_work_log 0 sample_input empty_db = Inr (r, s')"
    by (cases "create_work_log 0 sample_input empty_db") auto
  show ?thesis using create_hours_roundtrip [OF eq] by (simp add: eq)
qed

text \<open>
  C9. An update that does not send both times recomputes the hours from the stored
  time, which the driver returns as \<open>HH:MM:SS\<close>; \<open>parse(.., 'HH:mm')\<close> rejects that
  text, so every such successful update (a date, a rate or a single time changed) stores
  \<open>hoursWorked = NaN\<close>, whatever the row held before.
\<close>

theorem update_hours_NaN:
  assumes "store_inv s" and "up_start u = None \<or> up_end u = None"
    and "update_work_log now k u s = Inr (Some r, s')"
  shows "hours_worked r = NaN"
proof -
  obtain ex h where ex: "get_work_log k s = Some ex"
    and h: "pg_numeric_in 5 (duration_text (js_or_text (up_start u) (start_text ex))
                                         (js_or_text (up_end u) (end_text ex))) = Some h"
    and r: "hours_worked r = h"
    using update_work_log_Inr [OF assms(3)] by auto
  have "row_ok (next_id s) ex"
    using assms(1) get_work_log_Some [OF ex] by (simp add: store_inv_def list_all_iff)
  then have "parse_hhmm (start_text ex) = None" "parse_hhmm (end_text ex) = None"
    by (simp_all add: row_ok_def start_text_def end_text_def time_ok_pg_time_out)
  then have "duration_text (js_or_text (up_start u) (start_text ex)) (js_or_text (up_end u) (end_text ex)) = ''NaN''"
    using assms(2) by (auto intro: duration_text_None)
  then show ?thesis using pg_numeric_in_parse [OF h] r by (simp add: parse_float_NaN)
qed

lemma update_hours_NaN_witness:
  "case update_work_log 1 1 \<lparr>up_date = None, up_start = None, up_end = None, up_rate = Some 3000\<rparr> sample_db of
     Inr (Some r, s') \<Rightarrow> hours_worked r = NaN
   | _ \<Rightarrow> False"
proof -
  have inv: "store_inv sample_db" by code_simp
  have ok: "\<not> isl (update_work_log 1 1 \<lparr>up_date = None, up_start = None, up_end = None, up_rate = Some 3000\<rparr> sample_db) \<and>
      fst (projr (update_work_log 1 1 \<lparr>up_date = None, up_start = None, up_end = None, up_rate = Some 3000\<rparr> sample_db)) \<noteq> None"
    by code_simp
  then obtain r s' where
    eq: "update_work_log 1 1 \<lparr>up_date = None, up_start = None, up_end = None, up_rate = Some 3000\<rparr> sample_db = Inr (Some r, s')"
    by (cases "update_work_log 1 1 \<lparr>up_date = None, up_start = None, up_end = None, up_rate = Some 3000\<rparr> sample_db") auto
  have "up_start \<lparr>up_date = None, up_start = None, up_end = None, up_rate = Some (3000::int)\<rparr> = None \<or>
      up_end \<lparr>up_date = None, up_start = None, up_end = None, up_rate = Some (3000::int)\<rparr> = None" by simp
  with inv eq show ?thesis using update_hours_NaN [OF inv _ eq] by (simp add: eq)
qed

text \<open>
  C10. \<open>getWorkLogsByRange\<close> on two well-formed dates returns, in date and then
  start-time order, exactly the stored rows whose date lies between them (both bounds
  included, compared as calendar dates), each once.
\<close>

theorem get_work_logs_by_range_spec:
  assumes "store_inv s" and "pg_date_in a = Some lo" and "pg_date_in b = Some hi"
  shows "\<exists>xs. get_work_logs_by_range a b s = Inr xs \<and> sorted (map range_key xs) \<and>
    mset xs = mset (filter (in_range lo hi) (rows s)) \<and>
    set xs = {r \<in> set (rows s). lo \<le> log_date r \<and> log_date r \<le> hi}"
proof -
  have v: "valid_date lo" "valid_date hi" using assms(2,3) by (simp_all add: pg_date_in_valid)
  have "\<forall>r \<in> set (rows s). valid_date (log_date r)"
    using assms(1) by (simp add: store_inv_def list_all_iff row_ok_def)
  then have "set (filter (in_range lo hi) (rows s)) = {r \<in> set (rows s). lo \<le> log_date r \<and> log_date r \<le> hi}"
    using v by (auto simp: in_range_lex)
  then show ?thesis
    by (simp add: get_work_logs_by_range_def assms(2,3) del: set_filter)
qed

lemma get_work_logs_by_range_spec_witness:
  "\<exists>xs. get_work_logs_by_range ''2024-01-15'' ''2024-01-21'' sample_db = Inr xs \<and> sorted (map range_key xs) \<and>
    mset xs = mset (filter (in_range (2024, 1, 15) (2024, 1, 21)) (rows sample_db)) \<and>
    set xs = {r \<in> set (rows sample_db). (2024, 1, 15) \<le> log_date r \<and> log_date r \<le> (2024, 1, 21)}"
proof -
  have inv: "store_inv sample_db" by code_simp
  have a: "pg_date_in ''2024-01-15'' = Some (2024, 1, 15)" by code_simp
  have b: "pg_date_in ''2024-01-21'' = Some (2024, 1, 21)" by code_simp
  show ?thesis by (rule get_work_logs_by_range_spec [OF inv a b])
qed

section \<open>Dates printed by the server are read back by the date column\<close>

lemma pg_date_in_format_ymd:
  assumes "valid_date x" and "1 \<le> fst x" and "fst x \<le> 9999"
  shows "pg_date_in (format_ymd x) = Some x"
proof -
  obtain y m d where x: "x = (y, m, d)" by (metis prod_cases3)
  obtain a b c e f g h i where
    s: "format_ymd (y, m, d) = [a, b, c, e, CHR ''-'', f, g, CHR ''-'', h, i]"
    and dig: "list_all is_digit [a, b, c, e, f, g, h, i]"
    and r: "read_nat [a, b, c, e] = nat y" "read_nat [f, g] = nat m" "read_nat [h, i] = nat d"
    using format_ymd_digits assms x by (metis fst_conv)
  have "1 \<le> m" "1 \<le> d" using assms(1) x by simp_all
  with dig r assms x show ?thesis
    unfolding s x pg_date_in_def by (simp add: Let_def)
qed

lemma get_work_logs_by_range_Inr:
  "get_work_logs_by_range a b s = Inr xs \<Longrightarrow>
   \<exists>lo hi. pg_date_in a = Some lo \<and> pg_date_in b = Some hi \<and>
     xs = sort_key range_key (filter (in_range lo hi) (rows s))"
  by (auto simp: get_work_logs_by_range_def split: option.splits)

lemma range_result_set:
  assumes "store_inv s" and "pg_date_in a = Some lo" and "pg_date_in b = Some hi"
    and "get_work_logs_by_range a b s = Inr xs"
  shows "set xs = {r \<in> set (rows s). lo \<le> log_date r \<and> log_date r \<le> hi}"
proof -
  have v: "valid_date lo" "valid_date hi" using assms(2,3) by (simp_all add: pg_date_in_valid)
  have "\<forall>r \<in> set (rows s). valid_date (log_date r)"
    using assms(1) by (simp add: store_inv_def list_all_iff row_ok_def)
  then show ?thesis
    using v assms(2-4) by (auto simp: get_work_logs_by_range_def in_range_lex)
qed

end
