(* ===== verification/Summary.thy ===== *)
theory Summary
  imports Store
begin

text \<open>
  The Week Aggregator, the Quincena Aggregator and the Summary Assembler: the
  \<open>getWeekRange\<close> helper and the body of the \<open>GET /api/work-logs/summary\<close> handler of
  src/server/routes.ts. The reference date is \<open>new Date(dateStr)\<close> read in local time
  (\<open>target_date\<close>: UTC midnight of the text, shifted by the server's fixed offset from
  UTC) or, without a date, the local date of \<open>new Date()\<close> (\<open>today\<close>). The week pass
  \<open>week_fold\<close> is the \<open>logs.forEach\<close> over the seven-day \<open>Map\<close> that
  \<open>init_days\<close> fills; the quincena pass \<open>quincena_fold\<close> the second \<open>forEach\<close>;
  \<open>get_summary\<close> composes both with two range queries of the store. A thrown
  exception (the store's, or date-fns' \<open>RangeError\<close> on an Invalid Date) is the
  \<open>Inl\<close> branch that the handler turns into a 500.
\<close>

section \<open>The reference date and the week range\<close>

record clock_env =
  today :: date
  tz_offset :: int

datatype server_error = Db_error store_error | Range_error

text \<open>\<open>dateStr ? new Date(dateStr) : new Date()\<close>; an empty string is falsy.\<close>

definition target_date :: "clock_env \<Rightarrow> string option \<Rightarrow> date option" where
  "target_date env q =
     (case q of
        None \<Rightarrow> Some (today env)
      | Some s \<Rightarrow> if s = [] then Some (today env)
                  else map_option (local_of_utc_midnight (tz_offset env)) (parse_iso_date s))"

record week_range =
  start_str :: string
  end_str :: string
  week_start :: date

definition get_week_range :: "clock_env \<Rightarrow> string option \<Rightarrow> week_range option" where
  "get_week_range env q =
     map_option (\<lambda>x. \<lparr>start_str = format_ymd (start_of_week x), end_str = format_ymd (end_of_week x),
                      week_start = start_of_week x\<rparr>) (target_date env q)"

section \<open>The week pass\<close>

text \<open>\<open>for (let i = 0; i < 7; i++) daysMap.set(format(addDays(start, i), 'yyyy-MM-dd'), 0)\<close>.\<close>

definition init_days :: "date \<Rightarrow> (string \<times> jsnum) list" where
  "init_days start = foldl (\<lambda>m i. jsmap_set m (format_ymd (add_days (int i) start)) (Num 0)) [] [0..<7]"

text \<open>\<open>if (log.hourlyRate) pay += hours * parseFloat(log.hourlyRate)\<close>: a non-empty text is truthy.\<close>

definition add_pay :: "work_log \<Rightarrow> jsnum \<Rightarrow> jsnum \<Rightarrow> jsnum" where
  "add_pay r h p =
     (case rate_text r of
        None \<Rightarrow> p
      | Some t \<Rightarrow> if t = [] then p else js_add p (js_mul h (parse_float t)))"

record week_acc =
  days_map :: "(string \<times> jsnum) list"
  week_hours :: jsnum
  week_pay :: jsnum

text \<open>\<open>daysMap.get(log.date) || 0\<close>: a missing key and a \<open>NaN\<close> bucket both give 0.\<close>

definition day_total :: "(string \<times> jsnum) list \<Rightarrow> string \<Rightarrow> jsnum" where
  "day_total m k = (case jsmap_get m k of None \<Rightarrow> Num 0 | Some v \<Rightarrow> js_or_zero v)"

definition week_step :: "week_acc \<Rightarrow> work_log \<Rightarrow> week_acc" where
  "week_step a r =
     (let h = parse_float (hours_text r); k = log_date_text r
      in \<lparr>days_map = jsmap_set (days_map a) k (js_add (day_total (days_map a) k) h),
          week_hours = js_add (week_hours a) h,
          week_pay = add_pay r h (week_pay a)\<rparr>)"

definition week_fold :: "date \<Rightarrow> work_log list \<Rightarrow> week_acc" where
  "week_fold start logs =
     foldl week_step \<lparr>days_map = init_days start, week_hours = Num 0, week_pay = Num 0\<rparr> logs"

record day_summary =
  ds_date :: string
  ds_name :: string
  ds_hours :: jsnum

text \<open>
  One entry of \<open>Array.from(daysMap.entries()).map(..)\<close>: \<open>format(new Date(date), 'EEE')\<close>
  reads the key back as UTC midnight in local time; the hours are in hundredths, so
  \<open>Number(totalHours.toFixed(2))\<close> is \<open>js_round2 _ 100\<close>.
\<close>

definition day_entry :: "int \<Rightarrow> string \<times> jsnum \<Rightarrow> day_summary option" where
  "day_entry tz e =
     map_option (\<lambda>x. \<lparr>ds_date = fst e, ds_name = day_abbrev (local_of_utc_midnight tz x),
                      ds_hours = js_round2 (snd e) 100\<rparr>) (parse_iso_date (fst e))"

section \<open>The quincena pass\<close>

text \<open>
  \<open>qStart = new Date(y, getMonth(), first ? 1 : 16)\<close> and
  \<open>qEnd = first ? new Date(y, getMonth(), 15) : endOfMonth(targetDate)\<close>, with
  \<open>first = getDate() <= 15\<close>.
\<close>

text \<open>
  The year the constructor \<open>new Date(y, m, d)\<close> uses (ECMA-262 MakeFullYear): a year
  from 0 to 99 stands for 1900 to 1999. \<open>endOfMonth\<close> goes through \<open>setFullYear\<close>,
  which keeps the year.
\<close>

definition date_ctor_year :: "int \<Rightarrow> int" where
  "date_ctor_year y = (if 0 \<le> y \<and> y \<le> 99 then 1900 + y else y)"

fun quincena_range :: "date \<Rightarrow> date \<times> date \<times> bool" where
  "quincena_range (y, m, d) =
     (let first = d \<le> 15
      in (make_day (date_ctor_year y) (m - 1) (if first then 1 else 16),
          if first then make_day (date_ctor_year y) (m - 1) 15 else end_of_month (y, m, d), first))"

definition quincena_label :: "bool \<Rightarrow> string" where
  "quincena_label first = (if first then ''1ra Quincena'' else ''2da Quincena'')"

definition quincena_step :: "jsnum \<times> jsnum \<Rightarrow> work_log \<Rightarrow> jsnum \<times> jsnum" where
  "quincena_step a r = (let h = parse_float (hours_text r) in (js_add (fst a) h, add_pay r h (snd a)))"

definition quincena_fold :: "work_log list \<Rightarrow> jsnum \<times> jsnum" where
  "quincena_fold logs = foldl quincena_step (Num 0, Num 0) logs"

section \<open>The summary\<close>

text \<open>Hours are in hundredths, pay (hours times rate) in ten-thousandths.\<close>

record summary =
  start_date :: string
  end_date :: string
  days :: "day_summary list"
  total_weekly_hours :: jsnum
  total_pay :: jsnum
  quincena_name :: string
  quincena_hours :: jsnum
  quincena_pay :: jsnum

definition get_summary :: "clock_env \<Rightarrow> string option \<Rightarrow> db \<Rightarrow> server_error + summary" where
  "get_summary env q s =
     (case get_week_range env q of
        None \<Rightarrow> Inl Range_error
      | Some w \<Rightarrow>
          (case get_work_logs_by_range (start_str w) (end_str w) s of
             Inl e \<Rightarrow> Inl (Db_error e)
           | Inr logs \<Rightarrow>
               (let a = week_fold (week_start w) logs
                in case those (map (day_entry (tz_offset env)) (days_map a)) of
                     None \<Rightarrow> Inl Range_error
                   | Some ds \<Rightarrow>
                       (case target_date env q of
                          None \<Rightarrow> Inl Range_error
                        | Some t \<Rightarrow>
                            (let (qs, qe, first) = quincena_range t
                             in case get_work_logs_by_range (format_ymd qs) (format_ymd qe) s of
                                  Inl e \<Rightarrow> Inl (Db_error e)
                                | Inr ql \<Rightarrow>
                                    (let qa = quincena_fold ql
                                     in Inr \<lparr>start_date = start_str w, end_date = end_str w, days = ds,
                                             total_weekly_hours = js_round2 (week_hours a) 100,
                                             total_pay = js_round2 (week_pay a) 10000,
                                             quincena_name = quincena_label first,
                                             quincena_hours = js_round2 (fst qa) 100,
                                             quincena_pay = js_round2 (snd qa) 10000\<rparr>))))))"

section \<open>Reference values\<close>

text \<open>
  What a record contributes to the pay as the spec states it (hours times rate, nothing
  without a rate), and the seven keys of the week starting at \<open>start\<close>.
\<close>

definition log_pay :: "work_log \<Rightarrow> jsnum" where
  "log_pay r = (case hourly_rate r of None \<Rightarrow> Num 0 | Some k \<Rightarrow> js_mul (hours_worked r) (Num k))"

definition week_keys :: "date \<Rightarrow> string list" where
  "week_keys start = map (\<lambda>i. format_ymd (add_days (int i) start)) [0..<7]"

section \<open>Lemmas: the two passes compute sums\<close>

lemma fixed2_str_not_Nil: "fixed2_str k \<noteq> []"
  by (simp add: fixed2_str_def)

lemma log_hours [simp]: "parse_float (hours_text r) = hours_worked r"
  by (simp add: hours_text_def parse_float_to_fixed2)

lemma add_pay_log_pay: "add_pay r (hours_worked r) p = js_add p (log_pay r)"
  by (cases "hourly_rate r") (simp_all add: add_pay_def log_pay_def rate_text_def fixed2_str_not_Nil
      parse_float_fixed2_str)

lemma week_fold_acc:
  "week_hours (foldl week_step a logs) = js_add (week_hours a) (js_sum (map hours_worked logs)) \<and>
   week_pay (foldl week_step a logs) = js_add (week_pay a) (js_sum (map log_pay logs))"
  by (induction logs arbitrary: a) (simp_all add: week_step_def Let_def add_pay_log_pay js_add_assoc)

lemma week_fold_totals:
  "week_hours (week_fold start logs) = js_sum (map hours_worked logs) \<and>
   week_pay (week_fold start logs) = js_sum (map log_pay logs)"
  using week_fold_acc [of _ logs] by (simp add: week_fold_def)

lemma quincena_fold_acc:
  "foldl quincena_step a logs = (js_add (fst a) (js_sum (map hours_worked logs)),
                                 js_add (snd a) (js_sum (map log_pay logs)))"
  by (induction logs arbitrary: a) (simp_all add: quincena_step_def Let_def add_pay_log_pay js_add_assoc)

lemma quincena_fold_totals:
  "quincena_fold logs = (js_sum (map hours_worked logs), js_sum (map log_pay logs))"
  by (simp add: quincena_fold_def quincena_fold_acc)

section \<open>Lemmas: the summary handler\<close>

lemma get_summary_Inr:
  assumes "get_summary env q s = Inr sm"
  shows "\<exists>w logs ds t ql. get_week_range env q = Some w \<and>
    get_work_logs_by_range (start_str w) (end_str w) s = Inr logs \<and>
    those (map (day_entry (tz_offset env)) (days_map (week_fold (week_start w) logs))) = Some ds \<and>
    target_date env q = Some t \<and>
    get_work_logs_by_range (format_ymd (fst (quincena_range t))) (format_ymd (fst (snd (quincena_range t)))) s = Inr ql \<and>
    sm = \<lparr>start_date = start_str w, end_date = end_str w, days = ds,
          total_weekly_hours = js_round2 (week_hours (week_fold (week_start w) logs)) 100,
          total_pay = js_round2 (week_pay (week_fold (week_start w) logs)) 10000,
          quincena_name = quincena_label (snd (snd (quincena_range t))),
          quincena_hours = js_round2 (fst (quincena_fold ql)) 100,
          quincena_pay = js_round2 (snd (quincena_fold ql)) 10000\<rparr>"
  using assms
  by (auto simp: get_summary_def Let_def simp del: quincena_range.simps split: option.splits sum.splits prod.splits)

section \<open>Lemmas: the seven days of the week\<close>

lemma week_day_year:
  assumes "1 \<le> fst st" and "fst st + 6 \<le> 9999" and "i < 7"
  shows "1 \<le> fst (add_days (int i) st) \<and> fst (add_days (int i) st) \<le> 9999"
  using fst_add_days_nonneg [of "int i" st] assms by auto

lemma week_keys_distinct:
  assumes "valid_date st" and "1 \<le> fst st" and "fst st + 6 \<le> 9999"
  shows "distinct (week_keys st)"
proof -
  have "inj_on (\<lambda>i. format_ymd (add_days (int i) st)) {0..<7}"
  proof (rule inj_onI)
    fix i j
    assume i: "i \<in> {0..<7}" and j: "j \<in> {0..<7}"
      and eq: "format_ymd (add_days (int i) st) = format_ymd (add_days (int j) st)"
    have yi: "1 \<le> fst (add_days (int i) st) \<and> fst (add_days (int i) st) \<le> 9999"
      using week_day_year assms(2,3) i by simp
    have yj: "1 \<le> fst (add_days (int j) st) \<and> fst (add_days (int j) st) \<le> 9999"
      using week_day_year assms(2,3) j by simp
    have "add_days (int i) st = add_days (int j) st"
      using format_ymd_inj valid_add_days [OF assms(1)] yi yj eq by blast
    then have "day_number st + int i = day_number st + int j"
      using day_number_add_days [OF assms(1)] by metis
    then show "i = j" by simp
  qed
  then show ?thesis by (simp add: week_keys_def distinct_map)
qed

lemma init_days_eq: "distinct (week_keys st) \<Longrightarrow> init_days st = map (\<lambda>k. (k, Num 0)) (week_keys st)"
  unfolding init_days_def week_keys_def
  by (subst foldl_jsmap_set_fresh) (simp_all add: o_def)

lemma week_fold_keys:
  assumes "\<forall>r \<in> set logs. log_date_text r \<in> set (map fst (days_map a))"
  shows "map fst (days_map (foldl week_step a logs)) = map fst (days_map a)"
  using assms
proof (induction logs arbitrary: a)
  case Nil
  then show ?case by simp
next
  case (Cons r logs)
  have k: "map fst (days_map (week_step a r)) = map fst (days_map a)"
    using Cons.prems by (simp add: week_step_def Let_def keys_jsmap_set_present)
  have "\<forall>r' \<in> set logs. log_date_text r' \<in> set (map fst (days_map (week_step a r)))"
    unfolding k using Cons.prems by simp
  then show ?case using Cons.IH [of "week_step a r"] k by simp
qed

lemma range_logs_in_week:
  assumes "store_inv s" and "valid_date st" and "1 \<le> fst st" and "fst st + 6 \<le> 9999"
    and "get_work_logs_by_range (format_ymd st) (format_ymd (add_days 6 st)) s = Inr logs"
  shows "\<forall>r \<in> set logs. log_date_text r \<in> set (week_keys st)"
proof
  fix r
  assume r: "r \<in> set logs"
  have e: "valid_date (add_days 6 st)" "1 \<le> fst (add_days 6 st)" "fst (add_days 6 st) \<le> 9999"
    using valid_add_days [OF assms(2)] week_day_year [OF assms(3,4), of 6] by simp_all
  have lo: "pg_date_in (format_ymd st) = Some st"
    using assms(2,3,4) by (intro pg_date_in_format_ymd) simp_all
  have hi: "pg_date_in (format_ymd (add_days 6 st)) = Some (add_days 6 st)"
    by (rule pg_date_in_format_ymd [OF e])
  have "logs = sort_key range_key (filter (in_range st (add_days 6 st)) (rows s))"
    using get_work_logs_by_range_Inr [OF assms(5)] lo hi by auto
  with r have rr: "r \<in> set (rows s)" "in_range st (add_days 6 st) r" by auto
  have "valid_date (log_date r)"
    using assms(1) rr(1) by (simp add: store_inv_def list_all_iff row_ok_def)
  moreover have "day_number st \<le> day_number (log_date r)" "day_number (log_date r) \<le> day_number st + 6"
    using rr(2) day_number_add_days [OF assms(2)] by (simp_all add: in_range_def)
  ultimately have "log_date r \<in> set (map (\<lambda>i. add_days (int i) st) [0..<7])"
    using week_dates_cover assms(2) by blast
  then show "log_date_text r \<in> set (week_keys st)"
    by (auto simp: log_date_text_def week_keys_def)
qed

lemma start_of_week_year:
  assumes "7 \<le> fst t" and "fst t \<le> 9993"
  shows "1 \<le> fst (start_of_week t) \<and> fst (start_of_week t) + 6 \<le> 9999"
proof -
  obtain k where k: "0 \<le> k" "k \<le> 6" "start_of_week t = add_days (- k) t"
    using start_of_week_shift by blast
  then show ?thesis using fst_add_days_nonpos [of "- k" t] assms by auto
qed

lemma week_range_facts:
  assumes "get_week_range env q = Some w" and "target_date env q = Some t" and "valid_date t"
  shows "week_start w = start_of_week t \<and> start_str w = format_ymd (start_of_week t) \<and>
    end_str w = format_ymd (add_days 6 (start_of_week t))"
  using assms end_of_week_start [OF assms(3)] by (auto simp: get_week_range_def)

lemma day_entry_name:
  assumes "parse_iso_date (fst e) = Some x" and "day_entry tz e = Some d"
  shows "ds_date d = fst e \<and> ds_name d = day_abbrev (add_days (tz div 1440) x)"
  using assms by (auto simp: day_entry_def local_of_utc_midnight_def)

lemma week_keys_parse:
  assumes "valid_date st" and "1 \<le> fst st" and "fst st + 6 \<le> 9999" and "i < 7"
  shows "parse_iso_date (format_ymd (add_days (int i) st)) = Some (add_days (int i) st)"
proof -
  obtain y m d where x: "add_days (int i) st = (y, m, d)" by (metis prod_cases3)
  show ?thesis
    using parse_iso_format_ymd [of y m d] valid_add_days [OF assms(1), of "int i"]
      week_day_year [OF assms(2-4)] x by simp
qed

text \<open>The facts of the reference date's week that every summary lemma starts from.\<close>

lemma week_of_target:
  assumes "valid_date t" and "7 \<le> fst t" and "fst t \<le> 9993"
  shows "valid_date (start_of_week t) \<and> weekday (start_of_week t) = 1 \<and>
    1 \<le> fst (start_of_week t) \<and> fst (start_of_week t) + 6 \<le> 9999 \<and>
    distinct (week_keys (start_of_week t))"
  using start_of_week_facts [OF assms(1)] start_of_week_year [OF assms(2,3)]
    week_keys_distinct [of "start_of_week t"] by simp

lemma summary_week_keys:
  assumes "store_inv s" and "valid_date t" and "7 \<le> fst t" and "fst t \<le> 9993"
    and "get_work_logs_by_range (format_ymd (start_of_week t)) (format_ymd (add_days 6 (start_of_week t))) s = Inr logs"
  shows "map fst (days_map (week_fold (start_of_week t) logs)) = week_keys (start_of_week t)"
proof -
  let ?st = "start_of_week t"
  note wk = week_of_target [OF assms(2-4)]
  have "\<forall>r \<in> set logs. log_date_text r \<in> set (week_keys ?st)"
    using range_logs_in_week [OF assms(1) _ _ _ assms(5)] wk by simp
  then show ?thesis
    using week_fold_keys [of logs "\<lparr>days_map = init_days ?st, week_hours = Num 0, week_pay = Num 0\<rparr>"] wk
    by (simp add: week_fold_def init_days_eq o_def)
qed

lemma summary_days:
  assumes "store_inv s" and "get_summary env q s = Inr sm" and "target_date env q = Some t"
    and "valid_date t" and "7 \<le> fst t" and "fst t \<le> 9993"
  shows "map ds_date (days sm) = week_keys (start_of_week t) \<and>
    map ds_name (days sm) =
      map (\<lambda>i. day_abbrev (add_days (tz_offset env div 1440) (add_days (int i) (start_of_week t)))) [0..<7]"
proof -
  let ?st = "start_of_week t" and ?tz = "tz_offset env"
  obtain w logs ds where w: "get_week_range env q = Some w"
    and logs: "get_work_logs_by_range (start_str w) (end_str w) s = Inr logs"
    and ds: "those (map (day_entry ?tz) (days_map (week_fold (week_start w) logs))) = Some ds"
    and sm: "days sm = ds"
    using get_summary_Inr [OF assms(2)] by force
  have wv: "week_start w = ?st" "start_str w = format_ymd ?st" "end_str w = format_ymd (add_days 6 ?st)"
    using week_range_facts [OF w assms(3,4)] by simp_all
  note wk = week_of_target [OF assms(4-6)]
  have keys: "map fst (days_map (week_fold ?st logs)) = week_keys ?st"
    using summary_week_keys [OF assms(1,4-6)] logs wv by simp
  have rel: "list_all2 (\<lambda>e d. day_entry ?tz e = Some d) (days_map (week_fold ?st logs)) ds"
    using ds wv by (simp add: those_map_Some)
  let ?nm = "\<lambda>e. day_abbrev (add_days (?tz div 1440) (the (parse_iso_date (fst e))))"
  have "map ds_date ds = map fst (days_map (week_fold ?st logs))"
    using rel by (rule list_all2_map_eq) (auto simp: day_entry_def)
  moreover have "map ds_name ds = map ?nm (days_map (week_fold ?st logs))"
  proof (rule list_all2_map_eq [OF rel])
    fix e d
    assume "day_entry ?tz e = Some d"
    moreover from this have "parse_iso_date (fst e) = Some (the (parse_iso_date (fst e)))"
      by (auto simp: day_entry_def)
    ultimately show "ds_name d = ?nm e" using day_entry_name by (metis option.sel)
  qed
  moreover have "map ?nm (days_map (week_fold ?st logs)) =
      map (\<lambda>i. day_abbrev (add_days (?tz div 1440) (add_days (int i) ?st))) [0..<7]"
  proof -
    have "map ?nm (days_map (week_fold ?st logs)) =
        map (\<lambda>k. day_abbrev (add_days (?tz div 1440) (the (parse_iso_date k)))) (week_keys ?st)"
      using arg_cong [OF keys, of "map (\<lambda>k. day_abbrev (add_days (?tz div 1440) (the (parse_iso_date k))))"]
      by (simp add: o_def)
    also have "\<dots> = map (\<lambda>i. day_abbrev (add_days (?tz div 1440) (add_days (int i) ?st))) [0..<7]"
      unfolding week_keys_def map_map o_def using wk by (intro map_cong) (simp_all add: week_keys_parse)
    finally show ?thesis .
  qed
  ultimately show ?thesis using sm keys by simp
qed

lemma date_ctor_year_bounds: "1 \<le> y \<Longrightarrow> y \<le> 9999 \<Longrightarrow> 1 \<le> date_ctor_year y \<and> date_ctor_year y \<le> 9999"
  by (simp add: date_ctor_year_def)

lemma quincena_range_eq:
  assumes "valid_date (y, m, d)"
  shows "quincena_range (y, m, d) =
    (if d \<le> 15 then ((date_ctor_year y, m, 1), (date_ctor_year y, m, 15), True)
     else ((date_ctor_year y, m, 16), (y, m, days_in_month y m), False))"
proof -
  let ?Y = "date_ctor_year y"
  have v: "valid_date (?Y, m, 1)" using assms days_in_month_bounds [of ?Y m] by simp
  have "valid_date (?Y, m, 15)" if "d \<le> 15" using assms days_in_month_bounds [of ?Y m] by simp
  moreover have "valid_date (?Y, m, 16)" if "\<not> d \<le> 15" using assms days_in_month_bounds [of ?Y m] by simp
  ultimately show ?thesis
    using make_day_valid_date [OF v] make_day_valid_date [of ?Y m 15] make_day_valid_date [of ?Y m 16]
      end_of_month_last_day [OF assms] by auto
qed

lemma range_query_ok:
  assumes "pg_date_in a = Some lo" and "pg_date_in b = Some hi"
  shows "\<exists>xs. get_work_logs_by_range a b s = Inr xs"
  using assms by (simp add: get_work_logs_by_range_def)

text \<open>A summary for a real date of the years 7 to 9993 is always produced: no exception.\<close>

lemma get_summary_exists:
  assumes "store_inv s" and "target_date env q = Some t" and "valid_date t"
    and "7 \<le> fst t" and "fst t \<le> 9993"
  shows "\<exists>sm. get_summary env q s = Inr sm"
proof -
  let ?st = "start_of_week t"
  note wk = week_of_target [OF assms(3-5)]
  have e6: "valid_date (add_days 6 ?st)" "1 \<le> fst (add_days 6 ?st)" "fst (add_days 6 ?st) \<le> 9999"
    using wk valid_add_days week_day_year [of ?st 6] by simp_all
  have "pg_date_in (format_ymd ?st) = Some ?st" using wk by (intro pg_date_in_format_ymd) simp_all
  moreover have "pg_date_in (format_ymd (add_days 6 ?st)) = Some (add_days 6 ?st)"
    using e6 by (rule pg_date_in_format_ymd)
  ultimately obtain logs where logs:
    "get_work_logs_by_range (format_ymd ?st) (format_ymd (add_days 6 ?st)) s = Inr logs"
    using range_query_ok by blast
  have keys: "map fst (days_map (week_fold ?st logs)) = week_keys ?st"
    by (rule summary_week_keys [OF assms(1,3-5) logs])
  have "\<forall>e \<in> set (days_map (week_fold ?st logs)). day_entry (tz_offset env) e \<noteq> None"
  proof
    fix e
    assume "e \<in> set (days_map (week_fold ?st logs))"
    then have "fst e \<in> set (week_keys ?st)" using keys by (metis image_eqI list.set_map)
    then obtain i where "i < 7" "fst e = format_ymd (add_days (int i) ?st)" by (auto simp: week_keys_def)
    then show "day_entry (tz_offset env) e \<noteq> None" using wk by (simp add: day_entry_def week_keys_parse)
  qed
  then obtain ds where ds: "those (map (day_entry (tz_offset env)) (days_map (week_fold ?st logs))) = Some ds"
    using those_map_exists by blast
  obtain y m d where t: "t = (y, m, d)" by (metis prod_cases3)
  have v: "valid_date (date_ctor_year y, m, 1)" "valid_date (y, m, days_in_month y m)"
    using assms(3) t days_in_month_bounds [of "date_ctor_year y" m] by simp_all
  have yb: "1 \<le> y" "y \<le> 9999" using assms(4,5) t by simp_all
  have Yb: "1 \<le> date_ctor_year y" "date_ctor_year y \<le> 9999" using date_ctor_year_bounds [OF yb] by simp_all
  have "\<exists>ql. get_work_logs_by_range (format_ymd (fst (quincena_range t)))
      (format_ymd (fst (snd (quincena_range t)))) s = Inr ql"
  proof (cases "d \<le> 15")
    case True
    then have q: "quincena_range t = ((date_ctor_year y, m, 1), (date_ctor_year y, m, 15), True)"
      using quincena_range_eq [of y m d] assms(3) t by simp
    have vk: "valid_date (date_ctor_year y, m, 15)"
      using True assms(3) t days_in_month_bounds [of "date_ctor_year y" m] by simp
    show ?thesis unfolding q fst_conv snd_conv
      by (rule range_query_ok [OF pg_date_in_format_ymd pg_date_in_format_ymd]) (use v Yb vk in simp_all)
  next
    case False
    then have q: "quincena_range t = ((date_ctor_year y, m, 16), (y, m, days_in_month y m), False)"
      using quincena_range_eq [of y m d] assms(3) t by simp
    have vk: "valid_date (date_ctor_year y, m, 16)"
      using False assms(3) t days_in_month_bounds [of "date_ctor_year y" m] by simp
    show ?thesis unfolding q fst_conv snd_conv
      by (rule range_query_ok [OF pg_date_in_format_ymd pg_date_in_format_ymd]) (use v yb Yb vk in simp_all)
  qed
  then show ?thesis
    using assms(2,3) logs ds end_of_week_start [OF assms(3)]
    by (auto simp: get_summary_def get_week_range_def Let_def simp del: quincena_range.simps split: prod.split)
qed

lemma upt_seven: "[0..<7] = [0, 1, 2, 3, 4, 5, 6::nat]"
  by (simp add: upt_rec)

lemma week_day_names:
  assumes "valid_date st" and "weekday st = 1"
  shows "map (\<lambda>i. day_abbrev (add_days c (add_days (int i) st))) [0..<7] =
    map (\<lambda>i. [''Sun'', ''Mon'', ''Tue'', ''Wed'', ''Thu'', ''Fri'', ''Sat''] ! nat ((1 + int i + c) mod 7)) [0..<7]"
proof (rule map_cong [OF refl])
  fix i :: nat
  have "weekday (add_days c (add_days (int i) st)) = (1 + int i + c) mod 7"
    using assms by (simp add: weekday_add_days valid_add_days mod_add_left_eq)
  then show "day_abbrev (add_days c (add_days (int i) st)) =
      [''Sun'', ''Mon'', ''Tue'', ''Wed'', ''Thu'', ''Fri'', ''Sat''] ! nat ((1 + int i + c) mod 7)"
    by (simp add: day_abbrev_def)
qed

lemma target_date_west:
  assumes "- 1440 \<le> tz_offset env" and "tz_offset env < 0" and "parse_iso_date s = Some x"
  shows "target_date env (Some s) = Some (add_days (- 1) x)"
proof -
  have "s \<noteq> []" using assms(3) by (auto simp: parse_iso_date_def)
  moreover have "tz_offset env div 1440 = - 1" using assms(1,2) by (simp add: div_eq_minus1)
  ultimately show ?thesis using assms(3) by (simp add: target_date_def local_of_utc_midnight_def)
qed

section \<open>Lemmas: the day buckets add up to the week\<close>

lemma week_step_day_sum:
  assumes "distinct (map fst (days_map a))" and "\<forall>v \<in> set (map snd (days_map a)). v \<noteq> NaN"
    and "log_date_text r \<in> set (map fst (days_map a))" and "hours_worked r \<noteq> NaN"
  shows "js_sum (map snd (days_map (week_step a r))) = js_add (js_sum (map snd (days_map a))) (hours_worked r) \<and>
    distinct (map fst (days_map (week_step a r))) \<and>
    (\<forall>v \<in> set (map snd (days_map (week_step a r))). v \<noteq> NaN) \<and>
    map fst (days_map (week_step a r)) = map fst (days_map a)"
proof -
  let ?m = "days_map a" and ?k = "log_date_text r" and ?h = "hours_worked r"
  have "\<exists>u. map_of ?m ?k = Some u" using assms(3) by (auto dest: weak_map_of_SomeI)
  then obtain u where u: "map_of ?m ?k = Some u" by blast
  have un: "u \<noteq> NaN" using assms(2) map_of_SomeD [OF u] by force
  then obtain c where uc: "u = Num c" by (cases u) auto
  have "day_total ?m ?k = u" using u un by (simp add: day_total_def js_or_zero_not_NaN)
  then have m': "days_map (week_step a r) = jsmap_set ?m ?k (js_add u ?h)"
    by (simp add: week_step_def Let_def)
  have s1: "js_add (js_sum (map snd (jsmap_set ?m ?k (js_add u ?h)))) u = js_add (js_sum (map snd ?m)) (js_add u ?h)"
    by (rule js_sum_jsmap_set_present [OF assms(1) u])
  have s2: "js_add (js_sum (map snd ?m)) (js_add u ?h) = js_add (js_add (js_sum (map snd ?m)) ?h) u"
    by (simp add: js_add_ac)
  have "js_add (js_sum (map snd (jsmap_set ?m ?k (js_add u ?h)))) (Num c) =
      js_add (js_add (js_sum (map snd ?m)) ?h) (Num c)"
    using s1 s2 by (simp only: uc)
  then have sum: "js_sum (map snd (jsmap_set ?m ?k (js_add u ?h))) = js_add (js_sum (map snd ?m)) ?h"
    by (rule js_add_cancel)
  have nn: "js_add u ?h \<noteq> NaN" using un assms(4) by (rule js_add_not_NaN)
  have sub: "set (map snd (jsmap_set ?m ?k (js_add u ?h))) \<subseteq> insert (js_add u ?h) (set (map snd ?m))"
    by (rule vals_jsmap_set)
  have vals: "\<forall>v \<in> set (map snd (jsmap_set ?m ?k (js_add u ?h))). v \<noteq> NaN"
  proof
    fix v
    assume "v \<in> set (map snd (jsmap_set ?m ?k (js_add u ?h)))"
    then have "v \<in> insert (js_add u ?h) (set (map snd ?m))" by (rule subsetD [OF sub])
    then show "v \<noteq> NaN" using nn assms(2) by (cases "v = js_add u ?h") auto
  qed
  have d: "distinct (map fst (jsmap_set ?m ?k (js_add u ?h)))"
    using assms(1) by (rule distinct_jsmap_set)
  have k: "map fst (jsmap_set ?m ?k (js_add u ?h)) = map fst ?m"
    using assms(3) by (rule keys_jsmap_set_present)
  show ?thesis unfolding m' by (intro conjI sum d vals k)
qed

lemma week_fold_day_sum:
  assumes "distinct (map fst (days_map a))" and "\<forall>v \<in> set (map snd (days_map a)). v \<noteq> NaN"
    and "\<forall>r \<in> set logs. log_date_text r \<in> set (map fst (days_map a)) \<and> hours_worked r \<noteq> NaN"
  shows "js_sum (map snd (days_map (foldl week_step a logs))) =
      js_add (js_sum (map snd (days_map a))) (js_sum (map hours_worked logs)) \<and>
    (\<forall>v \<in> set (map snd (days_map (foldl week_step a logs))). v \<noteq> NaN)"
  using assms
proof (induction logs arbitrary: a)
  case Nil
  then show ?case by simp
next
  case (Cons r logs)
  have r: "log_date_text r \<in> set (map fst (days_map a))" "hours_worked r \<noteq> NaN"
    using Cons.prems(3) by simp_all
  note st = week_step_day_sum [OF Cons.prems(1,2) r]
  have e2: "js_sum (map snd (days_map (week_step a r))) = js_add (js_sum (map snd (days_map a))) (hours_worked r)"
    by (rule st [THEN conjunct1])
  have d: "distinct (map fst (days_map (week_step a r)))" by (rule st [THEN conjunct2, THEN conjunct1])
  have v: "\<forall>v \<in> set (map snd (days_map (week_step a r))). v \<noteq> NaN"
    by (rule st [THEN conjunct2, THEN conjunct2, THEN conjunct1])
  have keys: "map fst (days_map (week_step a r)) = map fst (days_map a)"
    by (rule st [THEN conjunct2, THEN conjunct2, THEN conjunct2])
  have p: "\<forall>r' \<in> set logs. log_date_text r' \<in> set (map fst (days_map (week_step a r))) \<and> hours_worked r' \<noteq> NaN"
    unfolding keys using Cons.prems(3) by simp
  note ih = Cons.IH [OF d v p]
  have f: "foldl week_step a (r # logs) = foldl week_step (week_step a r) logs" by simp
  show ?case unfolding f
    apply (rule conjI)
     apply (simp only: ih [THEN conjunct1] e2 js_add_assoc list.map js_sum_Cons)
    by (rule ih [THEN conjunct2])
qed


section \<open>Properties of the summary\<close>

text \<open>
  C11. The Summary Assembler: a summary that is produced reports, rounded to cents, the
  sum of \<open>hoursWorked\<close> and of hours times rate (nothing without a rate) over the
  records of the week range, and the same two sums over the records of the quincena of
  the same reference date, with that quincena's label.
\<close>

theorem summary_totals:
  assumes "get_summary env q s = Inr sm"
  shows "\<exists>w t logs ql. get_week_range env q = Some w \<and> target_date env q = Some t \<and>
    get_work_logs_by_range (start_str w) (end_str w) s = Inr logs \<and>
    get_work_logs_by_range (format_ymd (fst (quincena_range t))) (format_ymd (fst (snd (quincena_range t)))) s = Inr ql \<and>
    start_date sm = start_str w \<and> end_date sm = end_str w \<and>
    total_weekly_hours sm = js_round2 (js_sum (map hours_worked logs)) 100 \<and>
    total_pay sm = js_round2 (js_sum (map log_pay logs)) 10000 \<and>
    quincena_name sm = quincena_label (snd (snd (quincena_range t))) \<and>
    quincena_hours sm = js_round2 (js_sum (map hours_worked ql)) 100 \<and>
    quincena_pay sm = js_round2 (js_sum (map log_pay ql)) 10000"
  using get_summary_Inr [OF assms] by (auto simp: week_fold_totals quincena_fold_totals)

lemma summary_totals_witness:
  "case get_summary \<lparr>today = (2024, 3, 4), tz_offset = 0\<rparr> (Some ''2024-03-04'') empty_db of
     Inr sm \<Rightarrow> (\<exists>w t logs ql. get_week_range \<lparr>today = (2024, 3, 4), tz_offset = 0\<rparr> (Some ''2024-03-04'') = Some w \<and>
        target_date \<lparr>today = (2024, 3, 4), tz_offset = 0\<rparr> (Some ''2024-03-04'') = Some t \<and>
        get_work_logs_by_range (start_str w) (end_str w) empty_db = Inr logs \<and>
        get_work_logs_by_range (format_ymd (fst (quincena_range t))) (format_ymd (fst (snd (quincena_range t)))) empty_db = Inr ql \<and>
        start_date sm = start_str w \<and> end_date sm = end_str w \<and>
        total_weekly_hours sm = js_round2 (js_sum (map hours_worked logs)) 100 \<and>
        total_pay sm = js_round2 (js_sum (map log_pay logs)) 10000 \<and>
        quincena_name sm = quincena_label (snd (snd (quincena_range t))) \<and>
        quincena_hours sm = js_round2 (js_sum (map hours_worked ql)) 100 \<and>
        quincena_pay sm = js_round2 (js_sum (map log_pay ql)) 10000)
   | Inl _ \<Rightarrow> False"
proof -
  let ?e = "\<lparr>today = (2024, 3, 4), tz_offset = 0\<rparr> :: clock_env"
  have t: "target_date ?e (Some ''2024-03-04'') = Some (2024, 3, 4)" by code_simp
  have v: "valid_date (2024, 3, 4)" by code_simp
  obtain sm where eq: "get_summary ?e (Some ''2024-03-04'') empty_db = Inr sm"
    using get_summary_exists [OF store_inv_empty t v] by auto
  show ?thesis using summary_totals [OF eq] by (simp add: eq)
qed

text \<open>
  C12. For a reference date of the years 7 to 9993 and a server at UTC or east of it,
  the summary has exactly the seven days of the week, Monday to Sunday in that order,
  each named by its weekday, whatever records the store holds.
\<close>

theorem summary_seven_days:
  assumes "store_inv s" and "get_summary env q s = Inr sm" and "target_date env q = Some t"
    and "valid_date t" and "7 \<le> fst t" and "fst t \<le> 9993"
    and "0 \<le> tz_offset env" and "tz_offset env < 1440"
  shows "map ds_date (days sm) = week_keys (start_of_week t) \<and>
    map ds_name (days sm) = [''Mon'', ''Tue'', ''Wed'', ''Thu'', ''Fri'', ''Sat'', ''Sun'']"
proof -
  have st: "valid_date (start_of_week t)" "weekday (start_of_week t) = 1"
    using start_of_week_facts [OF assms(4)] by simp_all
  have "tz_offset env div 1440 = 0" using assms(7,8) by simp
  then show ?thesis
    using summary_days [OF assms(1-6)] week_day_names [OF st, of 0] by (simp add: upt_seven)
qed

lemma summary_seven_days_witness:
  "case get_summary \<lparr>today = (2024, 3, 4), tz_offset = 0\<rparr> (Some ''2024-03-07'') empty_db of
     Inr sm \<Rightarrow> map ds_date (days sm) = week_keys (start_of_week (2024, 3, 7)) \<and>
       map ds_name (days sm) = [''Mon'', ''Tue'', ''Wed'', ''Thu'', ''Fri'', ''Sat'', ''Sun'']
   | Inl _ \<Rightarrow> False"
proof -
  let ?e = "\<lparr>today = (2024, 3, 4), tz_offset = 0\<rparr> :: clock_env"
  have inv: "store_inv empty_db" by (rule store_inv_empty)
  have t: "target_date ?e (Some ''2024-03-07'') = Some (2024, 3, 7)" by code_simp
  have v: "valid_date (2024, 3, 7)" by code_simp
  obtain sm where eq: "get_summary ?e (Some ''2024-03-07'') empty_db = Inr sm"
    using get_summary_exists [OF inv t v] by auto
  show ?thesis using summary_seven_days [OF inv eq t v] by (simp add: eq)
qed

text \<open>
  C13. On a server west of UTC (the offset between -24 h and 0, e.g. UTC-3), every day
  of the summary is named after the day before it: the buckets of Monday to Sunday are
  labelled Sun, Mon, ..., Sat, because \<open>format(new Date(date), 'EEE')\<close> reads the key as
  UTC midnight, which is the previous evening in local time.
\<close>

theorem summary_day_names_west:
  assumes "store_inv s" and "get_summary env q s = Inr sm" and "target_date env q = Some t"
    and "valid_date t" and "7 \<le> fst t" and "fst t \<le> 9993"
    and "- 1440 \<le> tz_offset env" and "tz_offset env < 0"
  shows "map ds_date (days sm) = week_keys (start_of_week t) \<and>
    map ds_name (days sm) = [''Sun'', ''Mon'', ''Tue'', ''Wed'', ''Thu'', ''Fri'', ''Sat'']"
proof -
  have st: "valid_date (start_of_week t)" "weekday (start_of_week t) = 1"
    using start_of_week_facts [OF assms(4)] by simp_all
  have "tz_offset env div 1440 = - 1" using assms(7,8) by (simp add: div_eq_minus1)
  then show ?thesis
    using summary_days [OF assms(1-6)] week_day_names [OF st, of "- 1"] by (simp add: upt_seven)
qed

lemma summary_day_names_west_witness:
  "case get_summary \<lparr>today = (2024, 3, 4), tz_offset = - 180\<rparr> (Some ''2024-03-07'') empty_db of
     Inr sm \<Rightarrow> map ds_date (days sm) = week_keys (start_of_week (2024, 3, 6)) \<and>
       map ds_name (days sm) = [''Sun'', ''Mon'', ''Tue'', ''Wed'', ''Thu'', ''Fri'', ''Sat'']
   | Inl _ \<Rightarrow> False"
proof -
  let ?e = "\<lparr>today = (2024, 3, 4), tz_offset = - 180\<rparr> :: clock_env"
  have inv: "store_inv empty_db" by (rule store_inv_empty)
  have t: "target_date ?e (Some ''2024-03-07'') = Some (2024, 3, 6)" by code_simp
  have v: "valid_date (2024, 3, 6)" by code_simp
  obtain sm where eq: "get_summary ?e (Some ''2024-03-07'') empty_db = Inr sm"
    using get_summary_exists [OF inv t v] by auto
  show ?thesis using summary_day_names_west [OF inv eq t v] by (simp add: eq)
qed

text \<open>
  C14. West of UTC the week of a reference date that is a Monday is the week before it:
  \<open>new Date("YYYY-MM-DD")\<close> is the previous evening in local time, a Sunday, so the summary
  and the week list cover the seven days ending the day before the requested date.
\<close>

theorem week_range_west:
  assumes "- 1440 \<le> tz_offset env" and "tz_offset env < 0"
    and "parse_iso_date s = Some x" and "weekday x = 1"
  shows "\<exists>w. get_week_range env (Some s) = Some w \<and> week_start w = add_days (- 7) x \<and>
    start_str w = format_ymd (add_days (- 7) x) \<and> end_str w = format_ymd (add_days (- 1) x)"
proof -
  have v: "valid_date x" using assms(3) by (rule parse_iso_date_valid)
  have sun: "weekday (add_days (- 1) x) = 0" using v assms(4) by (simp add: weekday_add_days)
  have "start_of_week (add_days (- 1) x) = add_days (- 7) x"
    using sun by (simp add: start_of_week_def add_days_add [OF v])
  moreover have "end_of_week (add_days (- 1) x) = add_days (- 1) x"
    using sun by (simp add: end_of_week_def)
  ultimately show ?thesis
    using target_date_west [OF assms(1-3)] by (simp add: get_week_range_def)
qed

lemma week_range_west_witness:
  "\<exists>w. get_week_range \<lparr>today = (2024, 3, 4), tz_offset = - 180\<rparr> (Some ''2024-03-04'') = Some w \<and>
     week_start w = add_days (- 7) (2024, 3, 4) \<and> start_str w = format_ymd (add_days (- 7) (2024, 3, 4)) \<and>
     end_str w = format_ymd (add_days (- 1) (2024, 3, 4))"
proof -
  have p: "parse_iso_date ''2024-03-04'' = Some (2024, 3, 4)" by code_simp
  have m: "weekday (2024, 3, 4) = 1" by code_simp
  show ?thesis
    by (rule week_range_west [where env = "\<lparr>today = (2024, 3, 4), tz_offset = - 180\<rparr>", OF _ _ p m]) simp_all
qed

text \<open>
  C15. West of UTC a reference date on the 16th falls in the first quincena: the
  summary for \<open>?date=YYYY-MM-16\<close> reports the 1st to the 15th (of the year the
  \<open>Date\<close> constructor makes of \<open>YYYY\<close>) under the label "1ra Quincena".
\<close>

theorem quincena_west:
  assumes "- 1440 \<le> tz_offset env" and "tz_offset env < 0"
    and "parse_iso_date s = Some (y, m, 16)"
  shows "\<exists>t. target_date env (Some s) = Some t \<and>
    quincena_range t = ((date_ctor_year y, m, 1), (date_ctor_year y, m, 15), True)"
proof -
  have v: "valid_date (y, m, 16)" using assms(3) by (rule parse_iso_date_valid)
  have prev: "add_days (- 1) (y, m, 16) = (y, m, 15)" by (simp add: add_days_minus_one)
  have "valid_date (y, m, 15)" using v by simp
  then show ?thesis
    using target_date_west [OF assms] prev quincena_range_eq [of y m 15] by simp
qed

lemma quincena_west_witness:
  "\<exists>t. target_date \<lparr>today = (2024, 3, 4), tz_offset = - 180\<rparr> (Some ''2024-02-16'') = Some t \<and>
     quincena_range t = ((date_ctor_year 2024, 2, 1), (date_ctor_year 2024, 2, 15), True)"
proof -
  have p: "parse_iso_date ''2024-02-16'' = Some (2024, 2, 16)" by code_simp
  show ?thesis
    by (rule quincena_west [where env = "\<lparr>today = (2024, 3, 4), tz_offset = - 180\<rparr>", OF _ _ p]) simp_all
qed

text \<open>
  C16. When no stored record has \<open>hoursWorked = NaN\<close>, the seven day totals of the
  summary add up to its \<open>totalWeeklyHours\<close> exactly (both are in hundredths, so the
  rounding to cents changes neither).
\<close>

theorem summary_day_hours:
  assumes "store_inv s" and "get_summary env q s = Inr sm" and "target_date env q = Some t"
    and "valid_date t" and "7 \<le> fst t" and "fst t \<le> 9993"
    and "\<forall>r \<in> set (rows s). hours_worked r \<noteq> NaN"
  shows "js_sum (map ds_hours (days sm)) = total_weekly_hours sm"
proof -
  let ?st = "start_of_week t" and ?tz = "tz_offset env"
  obtain w logs ds where w: "get_week_range env q = Some w"
    and logs: "get_work_logs_by_range (start_str w) (end_str w) s = Inr logs"
    and ds: "those (map (day_entry ?tz) (days_map (week_fold (week_start w) logs))) = Some ds"
    and sm: "days sm = ds" "total_weekly_hours sm = js_round2 (week_hours (week_fold (week_start w) logs)) 100"
    using get_summary_Inr [OF assms(2)] by force
  have wv: "week_start w = ?st" "start_str w = format_ymd ?st" "end_str w = format_ymd (add_days 6 ?st)"
    using week_range_facts [OF w assms(3,4)] by simp_all
  have stv: "valid_date ?st" using start_of_week_facts [OF assms(4)] by simp
  have sty: "1 \<le> fst ?st" "fst ?st + 6 \<le> 9999" using start_of_week_year [OF assms(5,6)] by simp_all
  have dk: "distinct (week_keys ?st)" by (rule week_keys_distinct [OF stv sty])
  have inw: "\<forall>r \<in> set logs. log_date_text r \<in> set (week_keys ?st)"
    using range_logs_in_week [OF assms(1) stv sty] logs wv by simp
  have "set logs \<subseteq> set (rows s)"
    using get_work_logs_by_range_Inr [OF logs] by auto
  then have hn: "\<forall>r \<in> set logs. hours_worked r \<noteq> NaN" using assms(7) by blast
  let ?a0 = "\<lparr>days_map = init_days ?st, week_hours = Num 0, week_pay = Num 0\<rparr>"
  have fold: "js_sum (map snd (days_map (week_fold ?st logs))) = js_sum (map hours_worked logs) \<and>
      (\<forall>v \<in> set (map snd (days_map (week_fold ?st logs))). v \<noteq> NaN)"
    using week_fold_day_sum [of ?a0 logs] inw hn dk
    by (simp add: week_fold_def init_days_eq [OF dk] o_def js_sum_zeros)
  have rel: "list_all2 (\<lambda>e d. day_entry ?tz e = Some d) (days_map (week_fold ?st logs)) ds"
    using ds wv by (simp add: those_map_Some)
  have "map ds_hours ds = map (\<lambda>e. js_round2 (snd e) 100) (days_map (week_fold ?st logs))"
    using rel by (rule list_all2_map_eq) (auto simp: day_entry_def)
  also have "\<dots> = map snd (days_map (week_fold ?st logs))"
    using fold by (intro map_cong refl) (auto simp: js_round2_hundredths)
  finally have "js_sum (map ds_hours ds) = js_sum (map hours_worked logs)" using fold by simp
  moreover have "js_sum (map hours_worked logs) \<noteq> NaN" using hn by (simp add: js_sum_not_NaN)
  ultimately show ?thesis using sm wv by (simp add: week_fold_totals js_round2_hundredths)
qed

lemma summary_day_hours_witness:
  "case get_summary \<lparr>today = (2024, 3, 4), tz_offset = 0\<rparr> (Some ''2024-03-04'') empty_db of
     Inr sm \<Rightarrow> js_sum (map ds_hours (days sm)) = total_weekly_hours sm
   | Inl _ \<Rightarrow> False"
proof -
  let ?e = "\<lparr>today = (2024, 3, 4), tz_offset = 0\<rparr> :: clock_env"
  have t: "target_date ?e (Some ''2024-03-04'') = Some (2024, 3, 4)" by code_simp
  have v: "valid_date (2024, 3, 4)" by code_simp
  obtain sm where eq: "get_summary ?e (Some ''2024-03-04'') empty_db = Inr sm"
    using get_summary_exists [OF store_inv_empty t v] by auto
  have "\<forall>r \<in> set (rows empty_db). hours_worked r \<noteq> NaN" by (simp add: empty_db_def)
  then show ?thesis using summary_day_hours [OF store_inv_empty eq t v] by (simp add: eq)
qed

text \<open>
  C17. The Quincena Aggregator: for a reference date \<open>(y, m, d)\<close> the summary's quincena
  is the 1st to the 15th when \<open>d \<le> 15\<close> and the 16th to the last day of the month
  otherwise, labelled accordingly, and its hours and pay are the rounded sums over
  exactly the stored records dated in that period. The bounds built with
  \<open>new Date(y, m, d)\<close> are in the year \<open>date_ctor_year y\<close> (1900 + y for a year
  below 100), while \<open>endOfMonth\<close> keeps the year y.
\<close>

theorem summary_quincena:
  assumes "store_inv s" and "get_summary env q s = Inr sm" and "target_date env q = Some (y, m, d)"
    and "valid_date (y, m, d)" and "7 \<le> y" and "y \<le> 9993"
  shows "\<exists>ql. set ql = {r \<in> set (rows s).
        (if d \<le> 15 then (date_ctor_year y, m, 1) else (date_ctor_year y, m, 16)) \<le> log_date r \<and>
        log_date r \<le> (if d \<le> 15 then (date_ctor_year y, m, 15) else (y, m, days_in_month y m))} \<and>
      quincena_name sm = (if d \<le> 15 then ''1ra Quincena'' else ''2da Quincena'') \<and>
      quincena_hours sm = js_round2 (js_sum (map hours_worked ql)) 100 \<and>
      quincena_pay sm = js_round2 (js_sum (map log_pay ql)) 10000"
proof -
  define lo where "lo = (if d \<le> 15 then (date_ctor_year y, m, 1::int) else (date_ctor_year y, m, 16))"
  define hi where "hi = (if d \<le> 15 then (date_ctor_year y, m, 15::int) else (y, m, days_in_month y m))"
  have q: "quincena_range (y, m, d) = (lo, hi, d \<le> 15)"
    using quincena_range_eq [OF assms(4)] by (simp add: lo_def hi_def)
  have vlo: "valid_date lo" and vhi: "valid_date hi"
    using assms(4) days_in_month_bounds [of "date_ctor_year y" m] by (auto simp: lo_def hi_def)
  have Yb: "1 \<le> date_ctor_year y" "date_ctor_year y \<le> 9999"
    using date_ctor_year_bounds [of y] assms(5,6) by simp_all
  have plo: "pg_date_in (format_ymd lo) = Some lo"
    using vlo Yb by (intro pg_date_in_format_ymd) (simp_all add: lo_def)
  have phi: "pg_date_in (format_ymd hi) = Some hi"
    using vhi Yb assms(5,6) by (intro pg_date_in_format_ymd) (simp_all add: hi_def)
  obtain ql where ql: "get_work_logs_by_range (format_ymd lo) (format_ymd hi) s = Inr ql"
    and sm: "quincena_name sm = quincena_label (d \<le> 15)"
      "quincena_hours sm = js_round2 (fst (quincena_fold ql)) 100"
      "quincena_pay sm = js_round2 (snd (quincena_fold ql)) 10000"
    using get_summary_Inr [OF assms(2)] assms(3) q by force
  have "set ql = {r \<in> set (rows s). lo \<le> log_date r \<and> log_date r \<le> hi}"
    by (rule range_result_set [OF assms(1) plo phi ql])
  then show ?thesis
    using sm by (auto simp: quincena_fold_totals quincena_label_def lo_def hi_def)
qed

lemma summary_quincena_witness:
  "case get_summary \<lparr>today = (2024, 3, 4), tz_offset = 0\<rparr> (Some ''2024-02-16'') empty_db of
     Inr sm \<Rightarrow> (\<exists>ql. set ql = {r \<in> set (rows empty_db).
        (if (16::int) \<le> 15 then (date_ctor_year 2024, 2, 1) else (date_ctor_year 2024, 2, 16)) \<le> log_date r \<and>
        log_date r \<le> (if (16::int) \<le> 15 then (date_ctor_year 2024, 2, 15) else (2024, 2, days_in_month 2024 2))} \<and>
      quincena_name sm = (if (16::int) \<le> 15 then ''1ra Quincena'' else ''2da Quincena'') \<and>
      quincena_hours sm = js_round2 (js_sum (map hours_worked ql)) 100 \<and>
      quincena_pay sm = js_round2 (js_sum (map log_pay ql)) 10000)
   | Inl _ \<Rightarrow> False"
proof -
  let ?e = "\<lparr>today = (2024, 3, 4), tz_offset = 0\<rparr> :: clock_env"
  have t: "target_date ?e (Some ''2024-02-16'') = Some (2024, 2, 16)" by code_simp
  have v: "valid_date (2024, 2, 16)" by code_simp
  obtain sm where eq: "get_summary ?e (Some ''2024-02-16'') empty_db = Inr sm"
    using get_summary_exists [OF store_inv_empty t v] by auto
  show ?thesis using summary_quincena [OF store_inv_empty eq t v] by (simp add: eq)
qed

end
