(* ===== verification/Schema.thy ===== *)
theory Schema
  imports Store
begin

text \<open>
  The request validation of src/shared/schema.ts and the API table of
  src/shared/routes.ts. A JSON request body is a record of the JSON values of the keys
  the schemas read (\<open>None\<close> for an absent key); a JSON number is held in hundredths.
  \<open>validate_create\<close> is \<open>insertWorkLogSchema.parse\<close>, \<open>validate_update\<close> its
  \<open>.partial()\<close> and \<open>validate_setting\<close> the settings body schema: each returns the
  parsed input or the first zod issue as (message, field), the \<open>err.errors[0]\<close> the
  routes report. \<open>endpoint\<close> and its functions are the \<open>api\<close> object; \<open>build_url\<close>
  is \<open>buildUrl\<close>, and \<open>match_route\<close> is Express's matching of a path pattern,
  against which \<open>build_url\<close> is shown to round-trip.
\<close>

section \<open>JSON values and zod's primitive schemas\<close>

datatype json = JString string | JNumber int | JBool bool | JNull | JArray "json list" | JObject

record log_body =
  b_date :: "json option"
  b_start :: "json option"
  b_end :: "json option"
  b_rate :: "json option"
  b_hours :: "json option"

definition json_type_name :: "json \<Rightarrow> string" where
  "json_type_name v =
     (case v of JString _ \<Rightarrow> ''string'' | JNumber _ \<Rightarrow> ''number'' | JBool _ \<Rightarrow> ''boolean''
      | JNull \<Rightarrow> ''null'' | JArray _ \<Rightarrow> ''array'' | JObject \<Rightarrow> ''object'')"

type_synonym issue = "string \<times> string"

text \<open>\<open>/^\d{4}-\d{2}-\d{2}$/\<close> and \<open>/^\d{2}:\d{2}$/\<close>.\<close>

definition date_format :: "string \<Rightarrow> bool" where
  "date_format s =
     (case s of
        [y1, y2, y3, y4, c1, m1, m2, c2, d1, d2] \<Rightarrow>
          list_all is_digit [y1, y2, y3, y4, m1, m2, d1, d2] \<and> c1 = CHR ''-'' \<and> c2 = CHR ''-''
      | _ \<Rightarrow> False)"

definition time_format :: "string \<Rightarrow> bool" where
  "time_format s =
     (case s of [h1, h2, c, m1, m2] \<Rightarrow> list_all is_digit [h1, h2, m1, m2] \<and> c = CHR '':'' | _ \<Rightarrow> False)"

text \<open>\<open>z.string().regex(p, msg)\<close> on a required key, and with \<open>.optional()\<close>.\<close>

fun zod_string :: "string \<Rightarrow> string \<Rightarrow> (string \<Rightarrow> bool) \<Rightarrow> json option \<Rightarrow> issue + string" where
  "zod_string field msg p None = Inl (''Required'', field)"
| "zod_string field msg p (Some (JString s)) = (if p s then Inr s else Inl (msg, field))"
| "zod_string field msg p (Some v) = Inl (''Expected string, received '' @ json_type_name v, field)"

definition zod_opt_string ::
  "string \<Rightarrow> string \<Rightarrow> (string \<Rightarrow> bool) \<Rightarrow> json option \<Rightarrow> issue + string option" where
  "zod_opt_string field msg p v =
     (case v of None \<Rightarrow> Inr None | Some _ \<Rightarrow> map_sum id Some (zod_string field msg p v))"

text \<open>
  \<open>Number(v)\<close> as \<open>z.coerce.number()\<close> applies it: a text is trimmed, the empty text
  is 0 and otherwise read as a decimal with at most two fraction digits (the shape the
  client sends); \<open>null\<close> and \<open>false\<close> are 0, \<open>true\<close> is 1, an object \<open>NaN\<close>. An
  array goes through \<open>String\<close>: \<open>[]\<close> is 0, a one-element array is its element read as
  a text (\<open>[null]\<close> is 0, \<open>[true]\<close> and \<open>[{}]\<close> are \<open>NaN\<close>), and a longer array joins
  with commas, which is \<open>NaN\<close>.
\<close>

fun js_number :: "json \<Rightarrow> jsnum" where
  "js_number (JNumber k) = Num k"
| "js_number (JString s) =
     (let t = rev (dropWhile is_js_space (rev (dropWhile is_js_space s)))
      in if t = [] then Num 0 else parse_float t)"
| "js_number (JBool b) = Num (if b then 100 else 0)"
| "js_number JNull = Num 0"
| "js_number (JArray []) = Num 0"
| "js_number (JArray [x]) = (case x of JNull \<Rightarrow> Num 0 | JBool _ \<Rightarrow> NaN | JObject \<Rightarrow> NaN | _ \<Rightarrow> js_number x)"
| "js_number (JArray (x # y # zs)) = NaN"
| "js_number JObject = NaN"

text \<open>\<open>z.coerce.number().optional()\<close>: an absent key stays absent, \<open>NaN\<close> is an issue.\<close>

definition zod_rate :: "json option \<Rightarrow> issue + hundredths option" where
  "zod_rate v =
     (case v of
        None \<Rightarrow> Inr None
      | Some j \<Rightarrow> (case js_number j of
                     NaN \<Rightarrow> Inl (''Expected number, received nan'', ''hourlyRate'')
                   | Num k \<Rightarrow> Inr (Some k)))"

section \<open>The request schemas\<close>

definition date_msg :: string where "date_msg = ''Invalid date format (YYYY-MM-DD)''"

definition time_msg :: string where "time_msg = ''Invalid time format (HH:mm)''"

text \<open>
  \<open>insertWorkLogSchema.parse(body)\<close>: the keys in the schema's order (\<open>date\<close>,
  \<open>startTime\<close>, \<open>endTime\<close>, \<open>hourlyRate\<close>); the first failing one gives
  \<open>errors[0]\<close>; \<open>hoursWorked\<close> is omitted from the schema and stripped.
\<close>

definition validate_create :: "log_body \<Rightarrow> issue + log_input" where
  "validate_create b =
     (case zod_string ''date'' date_msg date_format (b_date b) of
        Inl e \<Rightarrow> Inl e
      | Inr d \<Rightarrow>
     (case zod_string ''startTime'' time_msg time_format (b_start b) of
        Inl e \<Rightarrow> Inl e
      | Inr st \<Rightarrow>
     (case zod_string ''endTime'' time_msg time_format (b_end b) of
        Inl e \<Rightarrow> Inl e
      | Inr et \<Rightarrow>
     (case zod_rate (b_rate b) of
        Inl e \<Rightarrow> Inl e
      | Inr r \<Rightarrow> Inr \<lparr>in_date = d, in_start = st, in_end = et, in_rate = r\<rparr>))))"

text \<open>\<open>insertWorkLogSchema.partial().parse(body)\<close>.\<close>

definition validate_update :: "log_body \<Rightarrow> issue + log_update" where
  "validate_update b =
     (case zod_opt_string ''date'' date_msg date_format (b_date b) of
        Inl e \<Rightarrow> Inl e
      | Inr d \<Rightarrow>
     (case zod_opt_string ''startTime'' time_msg time_format (b_start b) of
        Inl e \<Rightarrow> Inl e
      | Inr st \<Rightarrow>
     (case zod_opt_string ''endTime'' time_msg time_format (b_end b) of
        Inl e \<Rightarrow> Inl e
      | Inr et \<Rightarrow>
     (case zod_rate (b_rate b) of
        Inl e \<Rightarrow> Inl e
      | Inr r \<Rightarrow> Inr \<lparr>up_date = d, up_start = st, up_end = et, up_rate = r\<rparr>))))"

text \<open>\<open>api.settings.update.input\<close>: \<open>z.object({ value: z.string() })\<close>.\<close>

definition validate_setting :: "json option \<Rightarrow> issue + string" where
  "validate_setting v = zod_string ''value'' [] (\<lambda>_. True) v"

section \<open>The API table\<close>

datatype http_method = GET | POST | PUT | DELETE

datatype endpoint = Create_log | List_week | Get_summary | Update_log | Delete_log | Get_setting | Put_setting

fun endpoint_method :: "endpoint \<Rightarrow> http_method" where
  "endpoint_method Create_log = POST"
| "endpoint_method List_week = GET"
| "endpoint_method Get_summary = GET"
| "endpoint_method Update_log = PUT"
| "endpoint_method Delete_log = DELETE"
| "endpoint_method Get_setting = GET"
| "endpoint_method Put_setting = PUT"

fun endpoint_path :: "endpoint \<Rightarrow> string" where
  "endpoint_path Create_log = ''/api/work-logs''"
| "endpoint_path List_week = ''/api/work-logs/week''"
| "endpoint_path Get_summary = ''/api/work-logs/week/summary''"
| "endpoint_path Update_log = ''/api/work-logs/:id''"
| "endpoint_path Delete_log = ''/api/work-logs/:id''"
| "endpoint_path Get_setting = ''/api/settings/:key''"
| "endpoint_path Put_setting = ''/api/settings/:key''"

text \<open>The status codes each entry's \<open>responses\<close> declares.\<close>

fun declared_statuses :: "endpoint \<Rightarrow> nat list" where
  "declared_statuses Create_log = [201, 400]"
| "declared_statuses List_week = [200]"
| "declared_statuses Get_summary = [200]"
| "declared_statuses Update_log = [200, 400, 404]"
| "declared_statuses Delete_log = [204, 404]"
| "declared_statuses Get_setting = [200, 404]"
| "declared_statuses Put_setting = [200]"

section \<open>buildUrl and route matching\<close>

text \<open>\<open>String.prototype.includes\<close> and \<open>replace\<close> with a string pattern (first occurrence).\<close>

fun replace_first_ne :: "string \<Rightarrow> string \<Rightarrow> string \<Rightarrow> string" where
  "replace_first_ne p r [] = []"
| "replace_first_ne p r (c # s) =
     (if take (length p) (c # s) = p then r @ drop (length p) (c # s) else c # replace_first_ne p r s)"

definition js_replace :: "string \<Rightarrow> string \<Rightarrow> string \<Rightarrow> string" where
  "js_replace s p r = (if p = [] then r @ s else replace_first_ne p r s)"

definition js_includes :: "string \<Rightarrow> string \<Rightarrow> bool" where
  "js_includes s p \<longleftrightarrow> (\<exists>i \<le> length s. take (length p) (drop i s) = p)"

definition build_url :: "string \<Rightarrow> (string \<times> string) list option \<Rightarrow> string" where
  "build_url path params =
     (case params of
        None \<Rightarrow> path
      | Some ps \<Rightarrow> foldl (\<lambda>url (k, v). if js_includes url (CHR '':'' # k) then js_replace url (CHR '':'' # k) v else url)
                     path ps)"

text \<open>
  Express (path-to-regexp): \<open>/\<close>-separated segments, a \<open>:name\<close> segment binds a non-empty
  segment. The URL is matched as it is given: Express would first cut it at \<open>?\<close>
  and percent-decode the bound value, which changes nothing for the URLs the client
  builds (decimal ids and the key \<open>defaultHourlyRate\<close>), the only ones matched here.
\<close>

fun split_slash :: "string \<Rightarrow> string list" where
  "split_slash [] = [[]]"
| "split_slash (c # s) = (if c = CHR ''/'' then [] # split_slash s
                          else (case split_slash s of w # ws \<Rightarrow> (c # w) # ws | [] \<Rightarrow> [[c]]))"

fun match_segments :: "string list \<Rightarrow> string list \<Rightarrow> (string \<times> string) list option" where
  "match_segments [] [] = Some []"
| "match_segments (p # ps) (u # us) =
     (if p \<noteq> [] \<and> hd p = CHR '':'' then
        (if u = [] then None else map_option (\<lambda>b. (tl p, u) # b) (match_segments ps us))
      else if p = u then match_segments ps us else None)"
| "match_segments _ _ = None"

definition match_route :: "string \<Rightarrow> string \<Rightarrow> (string \<times> string) list option" where
  "match_route pattern url = match_segments (split_slash pattern) (split_slash url)"

section \<open>Lemmas\<close>

lemma zod_string_Inr: "zod_string f m p v = Inr x \<Longrightarrow> v = Some (JString x) \<and> p x"
  by (cases "(f, m, p, v)" rule: zod_string.cases) (auto split: if_splits)

lemma validate_create_Inr:
  assumes "validate_create b = Inr i"
  shows "b_date b = Some (JString (in_date i)) \<and> date_format (in_date i) \<and>
    b_start b = Some (JString (in_start i)) \<and> time_format (in_start i) \<and>
    b_end b = Some (JString (in_end i)) \<and> time_format (in_end i) \<and> zod_rate (b_rate b) = Inr (in_rate i)"
  using assms
  by (auto simp: validate_create_def split: sum.splits dest!: zod_string_Inr)

lemma js_includes_mid: "js_includes (a @ p @ b) p"
  unfolding js_includes_def by (rule exI [of _ "length a"]) simp

lemma split_slash_plain: "CHR ''/'' \<notin> set v \<Longrightarrow> split_slash v = [v]"
  by (induction v) auto

lemma split_slash_Cons_slash: "split_slash (CHR ''/'' # s) = [] # split_slash s"
  by simp

lemma split_slash_word:
  "c \<noteq> CHR ''/'' \<Longrightarrow> split_slash (c # s) = (case split_slash s of w # ws \<Rightarrow> (c # w) # ws | [] \<Rightarrow> [[c]])"
  by simp

lemma split_slash_not_Nil: "split_slash s \<noteq> []"
  by (induction s) (auto split: list.split)

lemma split_slash_append_word:
  assumes "CHR ''/'' \<notin> set w"
  shows "split_slash (w @ CHR ''/'' # s) = w # split_slash s"
  using assms by (induction w) auto

section \<open>Properties of the request schemas and the API table\<close>

text \<open>
  C18. A body that \<open>insertWorkLogSchema\<close> accepts gives a date of the form
  \<open>YYYY-MM-DD\<close> and two times of the form \<open>HH:mm\<close>, each taken verbatim from a JSON
  string of the request.
\<close>

theorem validate_create_type:
  assumes "validate_create b = Inr i"
  shows "date_format (in_date i) \<and> time_format (in_start i) \<and> time_format (in_end i) \<and>
    b_date b = Some (JString (in_date i)) \<and> b_start b = Some (JString (in_start i)) \<and>
    b_end b = Some (JString (in_end i))"
  using validate_create_Inr [OF assms] by simp

lemma validate_create_type_witness:
  "validate_create \<lparr>b_date = Some (JString ''2024-03-04''), b_start = Some (JString ''09:00''),
      b_end = Some (JString ''17:00''), b_rate = Some (JNumber 2000), b_hours = None\<rparr> =
     Inr \<lparr>in_date = ''2024-03-04'', in_start = ''09:00'', in_end = ''17:00'', in_rate = Some 2000\<rparr> \<and>
   date_format ''2024-03-04'' \<and> time_format ''09:00'' \<and> time_format ''17:00'' \<and>
   Some (JString ''2024-03-04'') = Some (JString ''2024-03-04'') \<and> Some (JString ''09:00'') = Some (JString ''09:00'') \<and>
   Some (JString ''17:00'') = Some (JString ''17:00'')"
proof -
  have e: "validate_create \<lparr>b_date = Some (JString ''2024-03-04''), b_start = Some (JString ''09:00''),
      b_end = Some (JString ''17:00''), b_rate = Some (JNumber 2000), b_hours = None\<rparr> =
     Inr \<lparr>in_date = ''2024-03-04'', in_start = ''09:00'', in_end = ''17:00'', in_rate = Some 2000\<rparr>"
    by code_simp
  show ?thesis using e validate_create_type [OF e] by simp
qed

text \<open>
  C19. \<open>hoursWorked\<close> is never taken from the caller: whatever a create or an update
  request sends under that key, the parsed input is the same.
\<close>

theorem validate_ignores_hours:
  "validate_create (b\<lparr>b_hours := x\<rparr>) = validate_create b \<and> validate_update (b\<lparr>b_hours := x\<rparr>) = validate_update b"
proof -
  have sel: "b_date (b\<lparr>b_hours := x\<rparr>) = b_date b" "b_start (b\<lparr>b_hours := x\<rparr>) = b_start b"
    "b_end (b\<lparr>b_hours := x\<rparr>) = b_end b" "b_rate (b\<lparr>b_hours := x\<rparr>) = b_rate b"
    by simp_all
  show ?thesis unfolding validate_create_def validate_update_def sel by simp
qed

end
