(* ===== verification/Routes.thy ===== *)
theory Routes
  imports Summary Schema
begin

text \<open>
  The HTTP handlers of src/server/routes.ts (\<open>registerRoutes\<close>) over the store, and the
  seeding done at start-up. A handler takes the request's parts and the database and
  returns the response and the database after it; \<open>No_response\<close> is a rejected promise
  that no \<open>try\<close> catches (the settings routes), after which Express 4 never answers.
  \<open>serve\<close> dispatches a \<open>request\<close> to its handler and \<open>server_run\<close> is the set of
  databases reachable from a seeded one by serving requests. The lemmas show that the
  store invariant and a bound on the stored hours hold in every reachable database, that
  a request that is not answered with 2xx writes nothing, that each route answers only
  with a status its API entry declares or 500, and the behaviour of each route on its
  error paths.
\<close>

section \<open>Responses\<close>

datatype body =
    Body_logs "work_log list"
  | Body_log work_log
  | Body_summary summary
  | Body_message string "string option"
  | Body_setting string string
  | Body_empty

datatype response = Resp nat body | No_response

definition internal_error :: response where
  "internal_error = Resp 500 (Body_message ''Internal server error'' None)"

definition not_found :: response where
  "not_found = Resp 404 (Body_message ''Work log not found'' None)"

definition end_before_start_msg :: string where
  "end_before_start_msg = ''End time must be after start time''"

section \<open>Request parameters\<close>

text \<open>
  \<open>parseInt(s)\<close> with no radix: leading white space, an optional sign, then a
  \<open>0x\<close>/\<open>0X\<close> prefix selects base 16; the longest digit prefix of that base is read;
  no digit is \<open>NaN\<close>, here \<open>None\<close>.
\<close>

definition is_hex_digit :: "char \<Rightarrow> bool" where
  "is_hex_digit c \<longleftrightarrow> is_digit c \<or> c \<in> set ''abcdefABCDEF''"

definition hex_val :: "char \<Rightarrow> nat" where
  "hex_val c = (if is_digit c then of_char c - 48
                else if c \<in> set ''abcdef'' then of_char c - 87 else of_char c - 55)"

definition read_hex :: "string \<Rightarrow> nat" where
  "read_hex ds = foldl (\<lambda>n c. 16 * n + hex_val c) 0 ds"

definition js_parse_int :: "string \<Rightarrow> int option" where
  "js_parse_int s =
     (let t = dropWhile is_js_space s;
          (neg, u) = (case t of c # r \<Rightarrow> if c = CHR ''-'' then (True, r) else if c = CHR ''+'' then (False, r)
                                          else (False, t) | [] \<Rightarrow> (False, []));
          (hex, w) = (case u of c0 # c1 # r \<Rightarrow> if c0 = CHR ''0'' \<and> (c1 = CHR ''x'' \<or> c1 = CHR ''X'') then (True, r)
                                               else (False, u) | _ \<Rightarrow> (False, u));
          ds = takeWhile (if hex then is_hex_digit else is_digit) w;
          n = int (if hex then read_hex ds else read_nat ds)
      in if ds = [] then None else Some (if neg then - n else n))"

text \<open>
  The \<open>serial\<close> id column is a 32-bit \<open>integer\<close>: PostgreSQL refuses \<open>NaN\<close> and values
  out of range in \<open>eq(workLogs.id, id)\<close>, which the driver throws.
\<close>

definition pg_id :: "int option \<Rightarrow> int option" where
  "pg_id v = (case v of Some k \<Rightarrow> if - (2 ^ 31) \<le> k \<and> k < 2 ^ 31 then Some k else None | None \<Rightarrow> None)"

definition text_truthy :: "string option \<Rightarrow> bool" where
  "text_truthy v \<longleftrightarrow> (case v of None \<Rightarrow> False | Some a \<Rightarrow> a \<noteq> [])"

section \<open>The handlers\<close>

text \<open>\<open>GET /api/work-logs/week\<close>.\<close>

definition list_week_handler :: "clock_env \<Rightarrow> string option \<Rightarrow> db \<Rightarrow> response" where
  "list_week_handler env q s =
     (case get_week_range env q of
        None \<Rightarrow> internal_error
      | Some w \<Rightarrow> (case get_work_logs_by_range (start_str w) (end_str w) s of
                     Inl _ \<Rightarrow> internal_error
                   | Inr logs \<Rightarrow> Resp 200 (Body_logs logs)))"

text \<open>\<open>GET /api/work-logs/week/summary\<close>.\<close>

definition summary_handler :: "clock_env \<Rightarrow> string option \<Rightarrow> db \<Rightarrow> response" where
  "summary_handler env q s =
     (case get_summary env q s of Inl _ \<Rightarrow> internal_error | Inr sm \<Rightarrow> Resp 200 (Body_summary sm))"

text \<open>\<open>POST /api/work-logs\<close>.\<close>

definition create_handler :: "int \<Rightarrow> log_body \<Rightarrow> db \<Rightarrow> response \<times> db" where
  "create_handler now b s =
     (case validate_create b of
        Inl (m, f) \<Rightarrow> (Resp 400 (Body_message m (Some f)), s)
      | Inr i \<Rightarrow>
          if end_not_after_start (in_start i) (in_end i)
          then (Resp 400 (Body_message end_before_start_msg (Some ''endTime'')), s)
          else (case create_work_log now i s of
                  Inl _ \<Rightarrow> (internal_error, s)
                | Inr (r, s') \<Rightarrow> (Resp 201 (Body_log r), s')))"

text \<open>
  \<open>PUT /api/work-logs/:id\<close>: the relation check runs only when a time is sent, against
  the stored time text for the other one; then \<open>updateWorkLog\<close>.
\<close>

definition update_handler :: "int \<Rightarrow> string \<Rightarrow> log_body \<Rightarrow> db \<Rightarrow> response \<times> db" where
  "update_handler now idstr b s =
     (case validate_update b of
        Inl (m, f) \<Rightarrow> (Resp 400 (Body_message m (Some f)), s)
      | Inr u \<Rightarrow>
          (case pg_id (js_parse_int idstr) of
             None \<Rightarrow> (internal_error, s)
           | Some k \<Rightarrow>
               (let checked =
                  (if text_truthy (up_start u) \<or> text_truthy (up_end u) then
                     (case get_work_log k s of
                        None \<Rightarrow> Some not_found
                      | Some ex \<Rightarrow>
                          if end_not_after_start (js_or_text (up_start u) (start_text ex))
                                                 (js_or_text (up_end u) (end_text ex))
                          then Some (Resp 400 (Body_message end_before_start_msg None)) else None)
                   else None)
                in case checked of
                     Some r \<Rightarrow> (r, s)
                   | None \<Rightarrow> (case update_work_log now k u s of
                                Inl _ \<Rightarrow> (internal_error, s)
                              | Inr (None, _) \<Rightarrow> (not_found, s)
                              | Inr (Some r, s') \<Rightarrow> (Resp 200 (Body_log r), s')))))"

text \<open>\<open>DELETE /api/work-logs/:id\<close>.\<close>

definition delete_handler :: "string \<Rightarrow> db \<Rightarrow> response \<times> db" where
  "delete_handler idstr s =
     (case pg_id (js_parse_int idstr) of
        None \<Rightarrow> (internal_error, s)
      | Some k \<Rightarrow> (case get_work_log k s of
                     None \<Rightarrow> (not_found, s)
                   | Some _ \<Rightarrow> (Resp 204 Body_empty, delete_work_log k s)))"

text \<open>\<open>GET /api/settings/:key\<close> and \<open>PUT /api/settings/:key\<close> (no \<open>try\<close>).\<close>

definition get_setting_handler :: "string \<Rightarrow> db \<Rightarrow> response" where
  "get_setting_handler k s =
     (case get_setting k s of
        Inl _ \<Rightarrow> No_response
      | Inr None \<Rightarrow> Resp 404 (Body_message ''Setting not found'' None)
      | Inr (Some v) \<Rightarrow> Resp 200 (Body_setting k v))"

definition put_setting_handler :: "string \<Rightarrow> json option \<Rightarrow> db \<Rightarrow> response \<times> db" where
  "put_setting_handler k bv s =
     (case validate_setting bv of
        Inl _ \<Rightarrow> (No_response, s)
      | Inr v \<Rightarrow> (case update_setting k v s of
                   Inl _ \<Rightarrow> (No_response, s)
                 | Inr s' \<Rightarrow> (Resp 200 (Body_setting k v), s')))"

section \<open>Seeding\<close>

text \<open>The three seed shifts of the week of \<open>today\<close> (rate 20).\<close>

definition seed_logs :: "date \<Rightarrow> log_input list" where
  "seed_logs monday =
     [\<lparr>in_date = format_ymd (add_days 0 monday), in_start = ''09:00'', in_end = ''17:00'', in_rate = Some 2000\<rparr>,
      \<lparr>in_date = format_ymd (add_days 1 monday), in_start = ''09:00'', in_end = ''18:00'', in_rate = Some 2000\<rparr>,
      \<lparr>in_date = format_ymd (add_days 2 monday), in_start = ''10:00'', in_end = ''16:00'', in_rate = Some 2000\<rparr>]"

fun create_all :: "int \<Rightarrow> log_input list \<Rightarrow> db \<Rightarrow> store_error + db" where
  "create_all now [] s = Inr s"
| "create_all now (i # ins) s = (case create_work_log now i s of Inl e \<Rightarrow> Inl e | Inr (_, s') \<Rightarrow> create_all now ins s')"

definition seed :: "clock_env \<Rightarrow> int \<Rightarrow> db \<Rightarrow> store_error + db" where
  "seed env now s =
     (case get_work_logs_by_range ''2000-01-01'' ''2100-01-01'' s of
        Inl e \<Rightarrow> Inl e
      | Inr ex \<Rightarrow>
          if ex \<noteq> [] then Inr s
          else (case update_setting ''defaultHourlyRate'' ''3500'' s of
                  Inl e \<Rightarrow> Inl e
                | Inr s1 \<Rightarrow> create_all now (seed_logs (start_of_week (today env))) s1))"

section \<open>The server\<close>

datatype request =
    Req_list "string option"
  | Req_summary "string option"
  | Req_create log_body
  | Req_update string log_body
  | Req_delete string
  | Req_get_setting string
  | Req_put_setting string "json option"

fun request_endpoint :: "request \<Rightarrow> endpoint" where
  "request_endpoint (Req_list _) = List_week"
| "request_endpoint (Req_summary _) = Get_summary"
| "request_endpoint (Req_create _) = Create_log"
| "request_endpoint (Req_update _ _) = Update_log"
| "request_endpoint (Req_delete _) = Delete_log"
| "request_endpoint (Req_get_setting _) = Get_setting"
| "request_endpoint (Req_put_setting _ _) = Put_setting"

fun serve :: "clock_env \<Rightarrow> int \<Rightarrow> request \<Rightarrow> db \<Rightarrow> response \<times> db" where
  "serve env now (Req_list q) s = (list_week_handler env q s, s)"
| "serve env now (Req_summary q) s = (summary_handler env q s, s)"
| "serve env now (Req_create b) s = create_handler now b s"
| "serve env now (Req_update i b) s = update_handler now i b s"
| "serve env now (Req_delete i) s = delete_handler i s"
| "serve env now (Req_get_setting k) s = (get_setting_handler k s, s)"
| "serve env now (Req_put_setting k v) s = put_setting_handler k v s"

definition hours_ok :: "work_log \<Rightarrow> bool" where
  "hours_ok r \<longleftrightarrow> (case hours_worked r of NaN \<Rightarrow> True | Num k \<Rightarrow> 0 \<le> k \<and> k \<le> 2400)"

text \<open>
  A database the server can be left with: the tables start empty and are seeded at the
  first start-up; then any requests, and any restart (which seeds again when the table
  holds no row of the years 2000 to 2100).
\<close>

inductive server_run :: "db \<Rightarrow> bool" where
  server_start: "seed env now empty_db = Inr s' \<Longrightarrow> server_run s'"
| server_restart: "server_run s \<Longrightarrow> seed env now s = Inr s' \<Longrightarrow> server_run s'"
| server_step: "server_run s \<Longrightarrow> server_run (snd (serve env now r s))"

definition answered_2xx :: "response \<Rightarrow> bool" where
  "answered_2xx r \<longleftrightarrow> (case r of Resp st _ \<Rightarrow> 200 \<le> st \<and> st < 300 | No_response \<Rightarrow> False)"

text \<open>The server clock of the witnesses below: Wednesday 2024-01-17, UTC.\<close>

definition sample_env :: clock_env where
  "sample_env = \<lparr>today = (2024, 1, 17), tz_offset = 0\<rparr>"

section \<open>Lemmas: what each handler writes\<close>

lemma create_handler_cases:
  assumes "create_handler now b s = (resp, s')"
  shows "(s' = s \<and> \<not> answered_2xx resp) \<or>
    (\<exists>i r. validate_create b = Inr i \<and> create_work_log now i s = Inr (r, s') \<and> resp = Resp 201 (Body_log r))"
  using assms
  by (auto simp: create_handler_def internal_error_def answered_2xx_def split: sum.splits if_splits)

lemma update_handler_cases:
  assumes "update_handler now i b s = (resp, s')"
  shows "(s' = s \<and> \<not> answered_2xx resp) \<or>
    (\<exists>u k r. validate_update b = Inr u \<and> update_work_log now k u s = Inr (Some r, s') \<and>
       resp = Resp 200 (Body_log r))"
  using assms
  by (auto simp: update_handler_def internal_error_def not_found_def answered_2xx_def Let_def
      split: sum.splits if_splits option.splits) blast+

lemma delete_handler_cases:
  assumes "delete_handler i s = (resp, s')"
  shows "(s' = s \<and> \<not> answered_2xx resp) \<or>
    (\<exists>k. pg_id (js_parse_int i) = Some k \<and> get_work_log k s \<noteq> None \<and> s' = delete_work_log k s \<and>
       resp = Resp 204 Body_empty)"
  using assms
  by (auto simp: delete_handler_def internal_error_def not_found_def answered_2xx_def split: option.splits)

lemma put_setting_handler_cases:
  assumes "put_setting_handler k bv s = (resp, s')"
  shows "(s' = s \<and> \<not> answered_2xx resp) \<or>
    (\<exists>v. validate_setting bv = Inr v \<and> update_setting k v s = Inr s' \<and> resp = Resp 200 (Body_setting k v))"
  using assms by (auto simp: put_setting_handler_def answered_2xx_def split: sum.splits)

text \<open>Every request either writes nothing or performs one store operation.\<close>

lemma serve_cases:
  assumes "serve env now r s = (resp, s')"
  shows "s' = s \<or> (\<exists>i w. create_work_log now i s = Inr (w, s')) \<or>
    (\<exists>k u w. update_work_log now k u s = Inr (Some w, s')) \<or>
    (\<exists>k. s' = delete_work_log k s) \<or> (\<exists>k v. update_setting k v s = Inr s')"
proof (cases r)
  case (Req_create b)
  then show ?thesis using assms create_handler_cases [of now b s resp s'] by auto
next
  case (Req_update i b)
  then show ?thesis using assms update_handler_cases [of now i b s resp s'] by auto
next
  case (Req_delete i)
  then show ?thesis using assms delete_handler_cases [of i s resp s'] by auto
next
  case (Req_put_setting k v)
  then show ?thesis using assms put_setting_handler_cases [of k v s resp s'] by auto
qed (use assms in auto)

lemma serve_no_write:
  assumes "\<not> answered_2xx (fst (serve env now r s))"
  shows "snd (serve env now r s) = s"
proof (cases r)
  case (Req_create b)
  have "create_handler now b s = (fst (create_handler now b s), snd (create_handler now b s))" by simp
  from create_handler_cases [OF this] assms show ?thesis by (auto simp: Req_create answered_2xx_def)
next
  case (Req_update i b)
  have "update_handler now i b s = (fst (update_handler now i b s), snd (update_handler now i b s))" by simp
  from update_handler_cases [OF this] assms show ?thesis by (auto simp: Req_update answered_2xx_def)
next
  case (Req_delete i)
  have "delete_handler i s = (fst (delete_handler i s), snd (delete_handler i s))" by simp
  from delete_handler_cases [OF this] assms show ?thesis by (auto simp: Req_delete answered_2xx_def)
next
  case (Req_put_setting k v)
  have "put_setting_handler k v s = (fst (put_setting_handler k v s), snd (put_setting_handler k v s))" by simp
  from put_setting_handler_cases [OF this] assms show ?thesis by (auto simp: Req_put_setting answered_2xx_def)
qed simp_all

section \<open>Lemmas: the stored hours stay in range\<close>

lemma duration_hours_range:
  "parse_float (duration_text st et) = NaN \<or>
   (\<exists>k. parse_float (duration_text st et) = Num k \<and> 0 \<le> k \<and> k \<le> 2400)"
proof (cases "parse_hhmm st = None \<or> parse_hhmm et = None")
  case True
  then show ?thesis by (simp add: duration_text_None parse_float_NaN)
next
  case False
  then obtain a c where a: "parse_hhmm st = Some a" and c: "parse_hhmm et = Some c" by auto
  have "c < 1440" using c by (rule parse_hhmm_bound)
  then have "0 \<le> round_half_away (100 * max 0 (int c - int a)) 60"
      "round_half_away (100 * max 0 (int c - int a)) 60 \<le> 2400"
    by (simp_all add: round_minutes_nonneg round_minutes_day_bound)
  then show ?thesis by (simp add: duration_text_Some [OF a c] parse_float_fixed2_str)
qed

lemma hours_ok_numeric: "pg_numeric_in 5 (duration_text st et) = Some h \<Longrightarrow> hours_ok r \<Longrightarrow> hours_ok (r\<lparr>hours_worked := h\<rparr>)"
  using pg_numeric_in_parse duration_hours_range [of st et] by (auto simp: hours_ok_def)

lemma create_hours_ok:
  assumes "list_all hours_ok (rows s)" and "create_work_log now i s = Inr (w, s')"
  shows "list_all hours_ok (rows s')"
proof -
  obtain d st et h rt where h: "pg_numeric_in 5 (duration_text (in_start i) (in_end i)) = Some h"
    and w: "w = \<lparr>log_id = next_id s, log_date = d, start_time = st, end_time = et,
          hours_worked = h, hourly_rate = rt, created_at = now, updated_at = now\<rparr>"
    and s': "s' = s\<lparr>rows := rows s @ [w], next_id := next_id s + 1\<rparr>"
    using create_work_log_Inr [OF assms(2)] by blast
  have "hours_ok w"
    using pg_numeric_in_parse [OF h] duration_hours_range [of "in_start i" "in_end i"]
    by (auto simp: hours_ok_def w)
  then show ?thesis using assms(1) by (simp add: s')
qed

lemma update_hours_ok:
  assumes "list_all hours_ok (rows s)" and "update_work_log now k u s = Inr (Some w, s')"
  shows "list_all hours_ok (rows s')"
proof -
  obtain ex d a b h rt where ex: "get_work_log k s = Some ex"
    and h: "pg_numeric_in 5 (duration_text (js_or_text (up_start u) (start_text ex))
                                         (js_or_text (up_end u) (end_text ex))) = Some h"
    and w: "w = ex\<lparr>log_date := opt_or d (log_date ex), start_time := opt_or a (start_time ex),
            end_time := opt_or b (end_time ex), hours_worked := h,
            hourly_rate := (if rt = None then hourly_rate ex else rt), updated_at := now\<rparr>"
    and s': "s' = s\<lparr>rows := map (\<lambda>x. if log_id x = k then w else x) (rows s)\<rparr>"
    using update_work_log_Inr [OF assms(2)] by blast
  have "hours_ok w"
    using pg_numeric_in_parse [OF h]
      duration_hours_range [of "js_or_text (up_start u) (start_text ex)" "js_or_text (up_end u) (end_text ex)"]
    by (auto simp: hours_ok_def w)
  then show ?thesis using assms(1) by (auto simp: s' list_all_iff)
qed

lemma serve_hours_ok:
  assumes "list_all hours_ok (rows s)"
  shows "list_all hours_ok (rows (snd (serve env now r s)))"
proof -
  have "snd (serve env now r s) = s \<or> (\<exists>i w. create_work_log now i s = Inr (w, snd (serve env now r s))) \<or>
    (\<exists>k u w. update_work_log now k u s = Inr (Some w, snd (serve env now r s))) \<or>
    (\<exists>k. snd (serve env now r s) = delete_work_log k s) \<or> (\<exists>k v. update_setting k v s = Inr (snd (serve env now r s)))"
    by (rule serve_cases [of env now r s "fst (serve env now r s)"]) simp
  then show ?thesis
  proof (elim disjE exE)
    fix i w assume "create_work_log now i s = Inr (w, snd (serve env now r s))"
    then show ?thesis by (rule create_hours_ok [OF assms])
  next
    fix k u w assume "update_work_log now k u s = Inr (Some w, snd (serve env now r s))"
    then show ?thesis by (rule update_hours_ok [OF assms])
  next
    fix k v assume "update_setting k v s = Inr (snd (serve env now r s))"
    then show ?thesis using assms by (auto dest!: update_setting_Inr)
  qed (use assms in \<open>simp_all add: delete_work_log_def list_all_iff\<close>)
qed

lemma serve_inv:
  assumes "store_inv s"
  shows "store_inv (snd (serve env now r s))"
proof -
  have "snd (serve env now r s) = s \<or> (\<exists>i w. create_work_log now i s = Inr (w, snd (serve env now r s))) \<or>
    (\<exists>k u w. update_work_log now k u s = Inr (Some w, snd (serve env now r s))) \<or>
    (\<exists>k. snd (serve env now r s) = delete_work_log k s) \<or> (\<exists>k v. update_setting k v s = Inr (snd (serve env now r s)))"
    by (rule serve_cases [of env now r s "fst (serve env now r s)"]) simp
  then show ?thesis
  proof (elim disjE exE)
    fix i w assume "create_work_log now i s = Inr (w, snd (serve env now r s))"
    then show ?thesis by (rule create_work_log_inv [OF assms])
  next
    fix k u w assume "update_work_log now k u s = Inr (Some w, snd (serve env now r s))"
    then show ?thesis by (rule update_work_log_inv [OF assms])
  next
    fix k v assume "update_setting k v s = Inr (snd (serve env now r s))"
    then show ?thesis by (rule update_setting_inv [OF assms])
  qed (use assms in \<open>simp_all add: delete_work_log_inv\<close>)
qed

lemma create_all_inv:
  "store_inv s \<Longrightarrow> list_all hours_ok (rows s) \<Longrightarrow> create_all now ins s = Inr s' \<Longrightarrow>
   store_inv s' \<and> list_all hours_ok (rows s')"
proof (induction ins arbitrary: s)
  case Nil
  then show ?case by simp
next
  case (Cons i ins)
  then obtain w s1 where c: "create_work_log now i s = Inr (w, s1)" and r: "create_all now ins s1 = Inr s'"
    by (auto split: sum.splits)
  have "store_inv s1" using Cons.prems(1) c by (rule create_work_log_inv)
  moreover have "list_all hours_ok (rows s1)" using Cons.prems(2) c by (rule create_hours_ok)
  ultimately show ?case using r by (rule Cons.IH)
qed

lemma seed_inv:
  assumes "store_inv s" and "list_all hours_ok (rows s)" and "seed env now s = Inr s'"
  shows "store_inv s' \<and> list_all hours_ok (rows s')"
proof (cases "get_work_logs_by_range ''2000-01-01'' ''2100-01-01'' s")
  case (Inl e)
  then show ?thesis using assms(3) by (simp add: seed_def)
next
  case (Inr ex)
  show ?thesis
  proof (cases "ex = []")
    case False
    then show ?thesis using assms Inr by (simp add: seed_def)
  next
    case True
    show ?thesis
    proof (cases "update_setting ''defaultHourlyRate'' ''3500'' s")
      case (Inl e)
      then show ?thesis using assms(3) Inr True by (simp add: seed_def)
    next
      case (Inr s1)
      have "store_inv s1" using assms(1) Inr by (rule update_setting_inv)
      moreover have "list_all hours_ok (rows s1)" using assms(2) Inr by (auto dest!: update_setting_Inr)
      moreover have "create_all now (seed_logs (start_of_week (today env))) s1 = Inr s'"
        using assms(3) \<open>get_work_logs_by_range ''2000-01-01'' ''2100-01-01'' s = Inr ex\<close> True Inr
        by (simp add: seed_def)
      ultimately show ?thesis by (rule create_all_inv)
    qed
  qed
qed

lemma server_run_invs: "server_run s \<Longrightarrow> store_inv s \<and> list_all hours_ok (rows s)"
proof (induction rule: server_run.induct)
  case (server_start env now s')
  have "list_all hours_ok (rows empty_db)" by (simp add: empty_db_def)
  with store_inv_empty show ?case using server_start by (rule seed_inv)
next
  case (server_restart s env now s')
  then show ?case using seed_inv by blast
next
  case (server_step s env now r)
  then show ?case by (simp add: serve_inv serve_hours_ok)
qed

lemma seed_sample: "\<exists>s'. seed sample_env 0 empty_db = Inr s'"
proof -
  have "\<not> isl (seed sample_env 0 empty_db)" by code_simp
  then show ?thesis by (cases "seed sample_env 0 empty_db") auto
qed

lemma server_run_seed_sample: "server_run (projr (seed sample_env 0 empty_db))"
proof -
  obtain s' where eq: "seed sample_env 0 empty_db = Inr s'" using seed_sample by blast
  have "server_run s'" by (rule server_start [OF eq])
  then show ?thesis by (simp add: eq)
qed

section \<open>Properties of the server\<close>

text \<open>
  C20. Every database the running server can be left with, after seeding and any
  sequence of requests, satisfies the store invariant: distinct positive ids below the
  serial counter, real dates and clock times.
\<close>

theorem server_run_inv: "server_run s \<Longrightarrow> store_inv s"
  using server_run_invs by blast

lemma server_run_inv_witness: "store_inv (projr (seed sample_env 0 empty_db))"
  by (rule server_run_inv [OF server_run_seed_sample])

text \<open>
  C21. In every database the running server can be left with, each stored
  \<open>hoursWorked\<close> is \<open>NaN\<close> or a number of hours between 0 and 24.
\<close>

theorem server_run_hours_bound: "server_run s \<Longrightarrow> list_all hours_ok (rows s)"
  using server_run_invs by blast

lemma server_run_hours_bound_witness: "list_all hours_ok (rows (projr (seed sample_env 0 empty_db)))"
  by (rule server_run_hours_bound [OF server_run_seed_sample])

text \<open>
  C22. A request that is not answered with a 2xx status leaves the database exactly as
  it was: validation failures, the end-before-start check, a missing id, a store error
  and an unhandled settings body never write.
\<close>

theorem serve_unanswered_no_write:
  assumes "\<not> answered_2xx (fst (serve env now r s))"
  shows "snd (serve env now r s) = s"
  using assms by (rule serve_no_write)

lemma serve_unanswered_no_write_witness:
  "\<not> answered_2xx (fst (serve sample_env 0 (Req_delete ''abc'') sample_db)) \<and>
   snd (serve sample_env 0 (Req_delete ''abc'') sample_db) = sample_db"
proof -
  have h: "\<not> answered_2xx (fst (serve sample_env 0 (Req_delete ''abc'') sample_db))" by code_simp
  show ?thesis using serve_unanswered_no_write [OF h] h by simp
qed

text \<open>
  C23. Every status the server answers with is one that the route's entry in the shared
  \<open>api\<close> table declares, or 500 (which no entry declares).
\<close>

theorem serve_status_declared:
  assumes "fst (serve env now r s) = Resp st bd"
  shows "st \<in> set (declared_statuses (request_endpoint r)) \<or> st = 500"
  using assms
proof (cases r)
  case (Req_list q)
  then show ?thesis using assms
    by (auto simp: list_week_handler_def internal_error_def split: option.splits sum.splits)
next
  case (Req_summary q)
  then show ?thesis using assms by (auto simp: summary_handler_def internal_error_def split: sum.splits)
next
  case (Req_create b)
  then show ?thesis using assms
    by (auto simp: create_handler_def internal_error_def split: sum.splits if_splits prod.splits)
next
  case (Req_update i b)
  then show ?thesis using assms
    by (auto simp: update_handler_def internal_error_def not_found_def Let_def
        split: sum.splits if_splits option.splits prod.splits)
next
  case (Req_delete i)
  then show ?thesis using assms
    by (auto simp: delete_handler_def internal_error_def not_found_def split: option.splits)
next
  case (Req_get_setting k)
  then show ?thesis using assms by (auto simp: get_setting_handler_def split: option.splits sum.splits)
next
  case (Req_put_setting k v)
  then show ?thesis using assms by (auto simp: put_setting_handler_def split: sum.splits)
qed

lemma serve_status_declared_witness:
  "fst (serve sample_env 0 (Req_delete ''7'') sample_db) = Resp 404 (Body_message ''Work log not found'' None) \<and>
   (404 \<in> set (declared_statuses (request_endpoint (Req_delete ''7''))) \<or> (404::nat) = 500)"
proof -
  have h: "fst (serve sample_env 0 (Req_delete ''7'') sample_db) = Resp 404 (Body_message ''Work log not found'' None)"
    by code_simp
  show ?thesis using serve_status_declared [OF h] h by simp
qed



text \<open>
  C25. A create request that passes the schema but whose date, of the
  \<open>YYYY-MM-DD\<close> shape, names no real day (2024-02-30) and whose times are in order
  is refused by the \<open>date\<close> column and answered with 500, a status the API does not
  declare for this route, instead of a 400 validation error; nothing is written.
\<close>

theorem create_invalid_date_500:
  assumes "validate_create b = Inr i" and "pg_date_in (in_date i) = None"
    and "\<not> end_not_after_start (in_start i) (in_end i)"
  shows "date_format (in_date i) \<and> create_handler now b s = (internal_error, s)"
  using assms validate_create_Inr [OF assms(1)]
  by (simp add: create_handler_def create_work_log_def Let_def)

lemma create_invalid_date_500_witness:
  "validate_create \<lparr>b_date = Some (JString ''2024-02-30''), b_start = Some (JString ''09:00''),
      b_end = Some (JString ''17:00''), b_rate = None, b_hours = None\<rparr> =
     Inr \<lparr>in_date = ''2024-02-30'', in_start = ''09:00'', in_end = ''17:00'', in_rate = None\<rparr> \<and>
   date_format ''2024-02-30'' \<and>
   create_handler 0 \<lparr>b_date = Some (JString ''2024-02-30''), b_start = Some (JString ''09:00''),
      b_end = Some (JString ''17:00''), b_rate = None, b_hours = None\<rparr> sample_db = (internal_error, sample_db)"
proof -
  have v: "validate_create \<lparr>b_date = Some (JString ''2024-02-30''), b_start = Some (JString ''09:00''),
      b_end = Some (JString ''17:00''), b_rate = None, b_hours = None\<rparr> =
    Inr \<lparr>in_date = ''2024-02-30'', in_start = ''09:00'', in_end = ''17:00'', in_rate = None\<rparr>" by code_simp
  have d: "pg_date_in (in_date \<lparr>in_date = ''2024-02-30'', in_start = ''09:00'', in_end = ''17:00'', in_rate = (None :: int option)\<rparr>) = None"
    by code_simp
  have e: "\<not> end_not_after_start (in_start \<lparr>in_date = ''2024-02-30'', in_start = ''09:00'', in_end = ''17:00'', in_rate = (None :: int option)\<rparr>)
      (in_end \<lparr>in_date = ''2024-02-30'', in_start = ''09:00'', in_end = ''17:00'', in_rate = (None :: int option)\<rparr>)"
    by code_simp
  show ?thesis using create_invalid_date_500 [OF v d e] v by simp
qed

text \<open>
  C26. \<open>DELETE /api/work-logs/:id\<close> with a well-formed id answers 204 exactly when a row
  has that id (404 otherwise), and afterwards the map from ids to rows has lost that key
  and nothing else.
\<close>

theorem delete_handler_refines:
  assumes "pg_id (js_parse_int i) = Some k"
  shows "(fst (delete_handler i s) = Resp 204 Body_empty \<longleftrightarrow> k \<in> dom (rows_map s)) \<and>
    rows_map (snd (delete_handler i s)) = (rows_map s)(k := None)"
proof (cases "rows_map s k")
  case None
  then show ?thesis using assms
    by (auto simp: delete_handler_def get_work_log_rows_map not_found_def fun_upd_idem)
next
  case (Some r)
  then show ?thesis using assms
    by (simp add: delete_handler_def get_work_log_rows_map domIff rows_map_def delete_work_log_def
        map_of_key_filter del: map_map)
qed

lemma delete_handler_refines_witness:
  "pg_id (js_parse_int ''1'') = Some 1 \<and>
   (fst (delete_handler ''1'' sample_db) = Resp 204 Body_empty \<longleftrightarrow> 1 \<in> dom (rows_map sample_db)) \<and>
   rows_map (snd (delete_handler ''1'' sample_db)) = (rows_map sample_db)(1 := None)"
proof -
  have h: "pg_id (js_parse_int ''1'') = Some 1" by code_simp
  show ?thesis using delete_handler_refines [OF h] h by simp
qed

text \<open>
  C27. A settings write whose \<open>value\<close> is absent or not a string gets no response at all
  and leaves the settings as they were.
\<close>

theorem put_setting_no_response:
  assumes "\<forall>v. bv \<noteq> Some (JString v)"
  shows "put_setting_handler k bv s = (No_response, s)"
proof (cases bv)
  case (Some j)
  then show ?thesis using assms
    by (cases j) (simp_all add: put_setting_handler_def validate_setting_def)
qed (simp add: put_setting_handler_def validate_setting_def)

lemma put_setting_no_response_witness:
  "(\<forall>v. Some (JNumber 3500) \<noteq> Some (JString v)) \<and>
   put_setting_handler ''defaultHourlyRate'' (Some (JNumber 3500)) sample_db = (No_response, sample_db)"
proof -
  have h: "\<forall>v. Some (JNumber 3500) \<noteq> Some (JString v)" by simp
  show ?thesis using put_setting_no_response [OF h] h by simp
qed



text \<open>
  C29. The update route's end-after-start check is never applied to an update that
  sends only one of the two times: it compares the sent time with the stored one as
  the driver returns it (\<open>HH:MM:SS\<close>), which \<open>parse(.., 'HH:mm')\<close> rejects, and a
  comparison with an Invalid Date is false. Such a request does exactly what
  \<open>updateWorkLog\<close> does, so a start after the stored end is accepted.
\<close>

theorem update_check_bypass:
  assumes "store_inv s" and "validate_update b = Inr u" and "pg_id (js_parse_int i) = Some k"
    and "get_work_log k s = Some ex" and "up_start u = None \<or> up_end u = None"
  shows "update_handler now i b s =
    (case update_work_log now k u s of
       Inl _ \<Rightarrow> (internal_error, s)
     | Inr (None, _) \<Rightarrow> (not_found, s)
     | Inr (Some r, s') \<Rightarrow> (Resp 200 (Body_log r), s'))"
proof -
  have "row_ok (next_id s) ex"
    using assms(1) get_work_log_Some [OF assms(4)] by (simp add: store_inv_def list_all_iff)
  then have ns: "parse_hhmm (start_text ex) = None" "parse_hhmm (end_text ex) = None"
    by (simp_all add: row_ok_def start_text_def end_text_def time_ok_pg_time_out)
  have "\<not> end_not_after_start (js_or_text (up_start u) (start_text ex)) (js_or_text (up_end u) (end_text ex))"
    using assms(5) ns by (auto simp: end_not_after_start_def)
  then show ?thesis using assms(2-4) by (simp add: update_handler_def Let_def)
qed

lemma update_check_bypass_witness:
  "update_handler 1 ''1'' \<lparr>b_date = None, b_start = Some (JString ''18:00''), b_end = None,
      b_rate = None, b_hours = None\<rparr> sample_db =
   (case update_work_log 1 1 \<lparr>up_date = None, up_start = Some ''18:00'', up_end = None, up_rate = None\<rparr> sample_db of
      Inl _ \<Rightarrow> (internal_error, sample_db)
    | Inr (None, _) \<Rightarrow> (not_found, sample_db)
    | Inr (Some r, s') \<Rightarrow> (Resp 200 (Body_log r), s'))"
proof -
  have inv: "store_inv sample_db" by code_simp
  have v: "validate_update \<lparr>b_date = None, b_start = Some (JString ''18:00''), b_end = None,
      b_rate = None, b_hours = None\<rparr> = Inr \<lparr>up_date = None, up_start = Some ''18:00'', up_end = None, up_rate = None\<rparr>"
    by code_simp
  have k: "pg_id (js_parse_int ''1'') = Some 1" by code_simp
  have "get_work_log 1 sample_db \<noteq> None" by code_simp
  then obtain ex where ex: "get_work_log 1 sample_db = Some ex" by blast
  have "up_start \<lparr>up_date = None, up_start = Some ''18:00'', up_end = None, up_rate = (None :: int option)\<rparr> = None \<or>
      up_end \<lparr>up_date = None, up_start = Some ''18:00'', up_end = None, up_rate = (None :: int option)\<rparr> = None" by simp
  then show ?thesis by (rule update_check_bypass [OF inv v k ex])
qed

end
