(* ===== verification/Client.thy ===== *)
theory Client
  imports Routes "HOL-Library.Sublist"
begin

text \<open>
  The client side of the API: the react-query hooks of src/client/src/hooks/use-work-logs.ts,
  the state and the mutations of the Dashboard page (src/client/src/pages/Dashboard.tsx),
  the week navigation of src/client/src/components/WeekSelector.tsx and the default
  values of src/client/src/components/WorkLogForm.tsx. The query cache is a list of
  (query key, response) entries; a query is fetched from the server when its key is not
  cached, and a mutation that settles invalidates the keys its \<open>onSuccess\<close> names
  (\<open>invalidateQueries\<close> matches keys by prefix). \<open>client_run\<close> is the set of
  states one browser and the server can reach by loading the page, navigating between
  weeks and mutating. The lemmas show that the cache never holds an answer the server
  would no longer give, and that the edit dialog's values fail the schema it is
  validated against.
\<close>

section \<open>Query keys and the requests behind them\<close>

type_synonym query_key = "string list"

type_synonym query_cache = "(query_key \<times> response) list"

text \<open>\<open>useWorkLogs(date)\<close> and \<open>useWeeklySummary(date)\<close>: \<open>[path, format(date, 'yyyy-MM-dd')]\<close>.\<close>

definition work_logs_key :: "date \<Rightarrow> query_key" where
  "work_logs_key d = [endpoint_path List_week, format_ymd d]"

definition weekly_summary_key :: "date \<Rightarrow> query_key" where
  "weekly_summary_key d = [endpoint_path Get_summary, format_ymd d]"

text \<open>The Dashboard's settings query: \<open>[buildUrl(api.settings.get.path, { key: 'defaultHourlyRate' })]\<close>.\<close>

definition rate_key :: query_key where
  "rate_key = [build_url (endpoint_path Get_setting) (Some [(''key'', ''defaultHourlyRate'')])]"

text \<open>
  The request a key's query function sends: the hooks' \<open>?date=\<close> queries, and the
  default query function, which fetches the URL that is the key's one element.
\<close>

fun key_request :: "query_key \<Rightarrow> request option" where
  "key_request [p, d] =
     (if p = endpoint_path List_week then Some (Req_list (Some d))
      else if p = endpoint_path Get_summary then Some (Req_summary (Some d)) else None)"
| "key_request [u] =
     (case match_route (endpoint_path Get_setting) u of Some [(_, v)] \<Rightarrow> Some (Req_get_setting v) | _ \<Rightarrow> None)"
| "key_request _ = None"

section \<open>The query cache\<close>

text \<open>\<open>queryClient.invalidateQueries({ queryKey: p })\<close>: every key that \<open>p\<close> is a prefix of.\<close>

definition invalidate :: "query_key \<Rightarrow> query_cache \<Rightarrow> query_cache" where
  "invalidate p c = filter (\<lambda>e. \<not> prefix p (fst e)) c"

text \<open>
  \<open>useQuery\<close>: a cached key is not fetched again; otherwise the query function runs and
  its data is cached when \<open>res.ok\<close> (it throws otherwise).
\<close>

definition run_query :: "clock_env \<Rightarrow> int \<Rightarrow> query_key \<Rightarrow> db \<Rightarrow> query_cache \<Rightarrow> query_cache" where
  "run_query env now k s c =
     (case map_of c k of
        Some _ \<Rightarrow> c
      | None \<Rightarrow> (case key_request k of
                  None \<Rightarrow> c
                | Some rq \<Rightarrow> (let r = fst (serve env now rq s) in if answered_2xx r then c @ [(k, r)] else c)))"

section \<open>Mutations\<close>

datatype mutation = Mut_create log_body | Mut_update int log_body | Mut_delete int | Mut_rate string

text \<open>\<open>String(id)\<close> for an integer id.\<close>

definition id_param :: "int \<Rightarrow> string" where
  "id_param i = (if i < 0 then CHR ''-'' # show_nat (nat (- i)) else show_nat (nat i))"

text \<open>The value Express binds to a route's one parameter, if the URL matches the route.\<close>

definition route_param :: "string \<Rightarrow> string \<Rightarrow> string option" where
  "route_param pat url = (case match_route pat url of Some [(_, v)] \<Rightarrow> Some v | _ \<Rightarrow> None)"

text \<open>
  The request each mutation function sends: \<open>useCreateWorkLog\<close>, \<open>useUpdateWorkLog\<close>,
  \<open>useDeleteWorkLog\<close> (URLs from \<open>buildUrl(path, { id })\<close>) and the Dashboard's
  \<open>updateRateMutation\<close>; \<open>None\<close> is a URL no route matches.
\<close>

fun mutation_request :: "mutation \<Rightarrow> request option" where
  "mutation_request (Mut_create b) = Some (Req_create b)"
| "mutation_request (Mut_update i b) =
     map_option (\<lambda>v. Req_update v b)
       (route_param (endpoint_path Update_log) (build_url (endpoint_path Update_log) (Some [(''id'', id_param i)])))"
| "mutation_request (Mut_delete i) =
     map_option Req_delete
       (route_param (endpoint_path Delete_log) (build_url (endpoint_path Delete_log) (Some [(''id'', id_param i)])))"
| "mutation_request (Mut_rate v) =
     map_option (\<lambda>k. Req_put_setting k (Some (JString v)))
       (route_param (endpoint_path Put_setting) (build_url (endpoint_path Put_setting) (Some [(''key'', ''defaultHourlyRate'')])))"

text \<open>
  When \<open>onSuccess\<close> runs: the work-log mutations throw unless \<open>res.ok\<close>; the rate
  mutation returns \<open>res.json()\<close> and settles on any response.
\<close>

fun mutation_settled :: "mutation \<Rightarrow> response \<Rightarrow> bool" where
  "mutation_settled (Mut_rate _) r = (r \<noteq> No_response)"
| "mutation_settled _ r = answered_2xx r"

text \<open>The keys each \<open>onSuccess\<close> invalidates.\<close>

fun mutation_invalidates :: "mutation \<Rightarrow> query_key list" where
  "mutation_invalidates (Mut_rate _) = [rate_key]"
| "mutation_invalidates _ = [[endpoint_path List_week], [endpoint_path Get_summary]]"

section \<open>The Dashboard\<close>

record client_state =
  server_db :: db
  qcache :: query_cache
  current_date :: date

definition client_mutate :: "clock_env \<Rightarrow> int \<Rightarrow> mutation \<Rightarrow> client_state \<Rightarrow> client_state" where
  "client_mutate env now m st =
     (case mutation_request m of
        None \<Rightarrow> st
      | Some rq \<Rightarrow>
          (let (r, s') = serve env now rq (server_db st)
           in st\<lparr>server_db := s',
                 qcache := (if mutation_settled m r then fold invalidate (mutation_invalidates m) (qcache st)
                            else qcache st)\<rparr>))"

text \<open>The page's three queries for the current date.\<close>

definition dashboard_load :: "clock_env \<Rightarrow> int \<Rightarrow> client_state \<Rightarrow> client_state" where
  "dashboard_load env now st =
     st\<lparr>qcache := fold (\<lambda>k c. run_query env now k (server_db st) c)
                   [rate_key, work_logs_key (current_date st), weekly_summary_key (current_date st)] (qcache st)\<rparr>"

text \<open>\<open>WeekSelector\<close>: \<open>subWeeks(d, 1)\<close>, \<open>addWeeks(d, 1)\<close> and a date picked in the calendar.\<close>

datatype nav = Nav_prev | Nav_next | Nav_pick date

fun navigate :: "nav \<Rightarrow> date \<Rightarrow> date" where
  "navigate Nav_prev d = add_days (- 7) d"
| "navigate Nav_next d = add_days 7 d"
| "navigate (Nav_pick x) d = x"

datatype client_event = Load | Navigate nav | Mutate mutation

fun client_step :: "clock_env \<Rightarrow> int \<Rightarrow> client_event \<Rightarrow> client_state \<Rightarrow> client_state" where
  "client_step env now Load st = dashboard_load env now st"
| "client_step env now (Navigate n) st = st\<lparr>current_date := navigate n (current_date st)\<rparr>"
| "client_step env now (Mutate m) st = client_mutate env now m st"

text \<open>One browser against a seeded server: the page opens on \<open>new Date()\<close> with an empty cache.\<close>

inductive client_run :: "clock_env \<Rightarrow> client_state \<Rightarrow> bool" where
  client_start: "server_run s \<Longrightarrow> client_run env \<lparr>server_db = s, qcache = [], current_date = today env\<rparr>"
| client_next: "client_run env st \<Longrightarrow> client_run env (client_step env now e st)"

text \<open>Every cached entry is the answer the server gives now to its key's request.\<close>

definition cached_ok :: "clock_env \<Rightarrow> db \<Rightarrow> query_key \<times> response \<Rightarrow> bool" where
  "cached_ok env s e \<longleftrightarrow> (case key_request (fst e) of None \<Rightarrow> False | Some rq \<Rightarrow> fst (serve env 0 rq s) = snd e)"

definition coherent :: "clock_env \<Rightarrow> client_state \<Rightarrow> bool" where
  "coherent env st \<longleftrightarrow> list_all (cached_ok env (server_db st)) (qcache st)"

section \<open>The edit dialog\<close>

text \<open>
  \<open>WorkLogForm\<close>'s default values for the edit dialog: the stored date and times as the
  driver returns them, and \<open>Number(editingLog.hourlyRate) || 50\<close> (hundredths; a
  missing rate is \<open>Number(null) = 0\<close>, which is falsy).
\<close>

definition edit_form_body :: "work_log \<Rightarrow> log_body" where
  "edit_form_body r =
     \<lparr>b_date = Some (JString (log_date_text r)), b_start = Some (JString (start_text r)),
      b_end = Some (JString (end_text r)),
      b_rate = Some (JNumber (case hourly_rate r of None \<Rightarrow> 5000 | Some k \<Rightarrow> if k = 0 then 5000 else k)),
      b_hours = None\<rparr>"

section \<open>Lemmas\<close>

fun join_slash :: "string list \<Rightarrow> string" where
  "join_slash [] = []"
| "join_slash [w] = w"
| "join_slash (w # ws) = w @ CHR ''/'' # join_slash ws"

lemma join_split_slash: "join_slash (split_slash s) = s"
proof (induction s)
  case (Cons c s)
  then show ?case
    by (cases "split_slash s" rule: join_slash.cases) (auto simp: split_slash_not_Nil)
qed simp

lemma match_segments_lit:
  assumes "p = [] \<or> hd p \<noteq> CHR '':''" and "match_segments (p # ps) us = Some bs"
  shows "\<exists>us'. us = p # us' \<and> match_segments ps us' = Some bs"
  using assms by (cases us) (auto split: if_splits)

lemma match_segments_param:
  assumes "match_segments [CHR '':'' # n] us = Some bs"
  shows "\<exists>u. us = [u] \<and> bs = [(n, u)]"
proof (cases us)
  case (Cons u us')
  then show ?thesis using assms by (cases us') (auto split: if_splits)
qed (use assms in simp)

lemma match_settings_segments:
  assumes "match_segments [[], ''api'', ''settings'', '':key''] us = Some bs"
  shows "\<exists>v. us = [[], ''api'', ''settings'', v] \<and> bs = [(''key'', v)]"
proof -
  obtain u1 where 1: "us = [] # u1" "match_segments [''api'', ''settings'', '':key''] u1 = Some bs"
    using match_segments_lit [OF _ assms] by auto
  obtain u2 where 2: "u1 = ''api'' # u2" "match_segments [''settings'', '':key''] u2 = Some bs"
    using match_segments_lit [OF _ 1(2)] by auto
  obtain u3 where 3: "u2 = ''settings'' # u3" "match_segments ['':key''] u3 = Some bs"
    using match_segments_lit [OF _ 2(2)] by auto
  show ?thesis using match_segments_param [OF 3(2)] 1(1) 2(1) 3(1) by auto
qed
lemma match_settings_url:
  assumes "match_route (endpoint_path Get_setting) u = Some [(n, v)]"
  shows "u = ''/api/settings/'' @ v"
proof -
  have "split_slash (endpoint_path Get_setting) = [[], ''api'', ''settings'', '':key'']" by simp
  then have "split_slash u = [[], ''api'', ''settings'', v]"
    using assms match_settings_segments unfolding match_route_def by fastforce
  then have "join_slash (split_slash u) = ''/api/settings/'' @ v" by simp
  then show ?thesis by (simp add: join_split_slash)
qed

lemma key_request_setting:
  assumes "key_request [u] = Some (Req_get_setting v)"
  shows "u = ''/api/settings/'' @ v"
proof -
  obtain n where "match_route (endpoint_path Get_setting) u = Some [(n, v)]"
    using assms by (auto simp del: endpoint_path.simps split: option.splits list.splits prod.splits)
  then show ?thesis by (rule match_settings_url)
qed

lemma key_request_cases:
  assumes "key_request k = Some rq"
  shows "(\<exists>d. k = [endpoint_path List_week, d] \<and> rq = Req_list (Some d)) \<or>
    (\<exists>d. k = [endpoint_path Get_summary, d] \<and> rq = Req_summary (Some d)) \<or>
    (\<exists>v. k = [''/api/settings/'' @ v] \<and> rq = Req_get_setting v)"
proof (cases k rule: key_request.cases)
  case (2 u)
  then obtain v where "rq = Req_get_setting v"
    using assms by (auto split: option.splits list.splits prod.splits)
  then show ?thesis using assms 2 key_request_setting by blast
qed (use assms in \<open>auto split: if_splits\<close>)

text \<open>The read requests do not depend on the clock and read only rows, or only one setting.\<close>

lemma read_now:
  "key_request k = Some rq \<Longrightarrow> fst (serve env now rq s) = fst (serve env 0 rq s)"
  using key_request_cases [of k rq] by auto

lemma read_rows:
  assumes "rows s' = rows s"
  shows "fst (serve env now (Req_list q) s') = fst (serve env now (Req_list q) s) \<and>
    fst (serve env now (Req_summary q) s') = fst (serve env now (Req_summary q) s)"
  unfolding serve.simps fst_conv list_week_handler_def summary_handler_def get_summary_def
    get_work_logs_by_range_def assms by (rule conjI refl)+

lemma read_setting:
  "settings s' v = settings s v \<Longrightarrow> fst (serve env now (Req_get_setting v) s') = fst (serve env now (Req_get_setting v) s)"
  by (simp add: get_setting_handler_def get_setting_def)

lemma fold_invalidate: "set (fold invalidate ps c) = {e \<in> set c. \<forall>p \<in> set ps. \<not> prefix p (fst e)}"
  by (induction ps arbitrary: c) (auto simp: invalidate_def)

lemma coherent_keep:
  assumes "coherent env st" and "set c' \<subseteq> set (qcache st)"
    and "\<And>e rq. e \<in> set c' \<Longrightarrow> key_request (fst e) = Some rq \<Longrightarrow>
           fst (serve env 0 rq s') = fst (serve env 0 rq (server_db st))"
  shows "coherent env (st\<lparr>server_db := s', qcache := c'\<rparr>)"
  using assms unfolding coherent_def list_all_iff cached_ok_def
  by (fastforce split: option.splits)

text \<open>What the work-log routes and the settings route write.\<close>

lemma create_handler_settings: "settings (snd (create_handler now b s)) = settings s"
proof -
  have "create_handler now b s = (fst (create_handler now b s), snd (create_handler now b s))" by simp
  from create_handler_cases [OF this] show ?thesis
    using create_work_log_Inr by fastforce
qed

lemma update_handler_settings: "settings (snd (update_handler now i b s)) = settings s"
proof -
  have "update_handler now i b s = (fst (update_handler now i b s), snd (update_handler now i b s))" by simp
  from update_handler_cases [OF this] show ?thesis
    using update_work_log_Inr by fastforce
qed

lemma delete_handler_settings: "settings (snd (delete_handler i s)) = settings s"
  by (auto simp: delete_handler_def delete_work_log_def split: option.splits)

lemma put_rate:
  "serve env now (Req_put_setting k (Some (JString v))) s = (r, s') \<Longrightarrow> r \<noteq> No_response \<Longrightarrow>
    s' = s\<lparr>settings := (settings s)(k \<mapsto> v)\<rparr>"
  by (auto simp: put_setting_handler_def validate_setting_def update_setting_def split: if_splits)

lemma rate_route: "route_param (endpoint_path Put_setting) (build_url (endpoint_path Put_setting) (Some [(''key'', ''defaultHourlyRate'')])) =
    Some ''defaultHourlyRate''"
  by code_simp

lemma rate_key_eq: "rate_key = [''/api/settings/defaultHourlyRate'']"
  by code_simp

lemma mutation_request_log:
  "mutation_request (Mut_update i b) = Some rq \<Longrightarrow> \<exists>v. rq = Req_update v b"
  "mutation_request (Mut_delete i) = Some rq \<Longrightarrow> \<exists>v. rq = Req_delete v"
  by (auto simp only: mutation_request.simps map_option_eq_Some)

text \<open>After a work-log write only settings keys survive the invalidation, and their answers stand.\<close>

lemma log_write_keeps:
  assumes "settings s' = settings s"
    and "e \<in> set (fold invalidate [[endpoint_path List_week], [endpoint_path Get_summary]] c)"
    and "key_request (fst e) = Some rq"
  shows "fst (serve env 0 rq s') = fst (serve env 0 rq s)"
proof -
  have "\<forall>p \<in> set [[endpoint_path List_week], [endpoint_path Get_summary]]. \<not> prefix p (fst e)"
    using assms(2) unfolding fold_invalidate mem_Collect_eq by (rule conjunct2)
  then have np: "\<not> prefix [endpoint_path List_week] (fst e)" "\<not> prefix [endpoint_path Get_summary] (fst e)"
    by simp_all
  have "\<not> (\<exists>d. fst e = [endpoint_path List_week, d])" "\<not> (\<exists>d. fst e = [endpoint_path Get_summary, d])"
    using np by auto
  then obtain v where "rq = Req_get_setting v"
    using key_request_cases [OF assms(3)] by blast
  then show ?thesis by (simp add: get_setting_handler_def get_setting_def assms(1))
qed

text \<open>After the rate write only the \<open>defaultHourlyRate\<close> key is invalidated, and no other answer changes.\<close>

lemma rate_write_keeps:
  assumes "e \<in> set (fold invalidate [rate_key] c)" and "key_request (fst e) = Some rq"
  shows "fst (serve env 0 rq (s\<lparr>settings := (settings s)(''defaultHourlyRate'' \<mapsto> v)\<rparr>)) = fst (serve env 0 rq s)"
proof -
  have "\<forall>p \<in> set [rate_key]. \<not> prefix p (fst e)"
    using assms(1) unfolding fold_invalidate mem_Collect_eq by (rule conjunct2)
  then have np: "\<not> prefix [''/api/settings/defaultHourlyRate''] (fst e)"
    by (simp add: rate_key_eq)
  have rows: "rows (s\<lparr>settings := (settings s)(''defaultHourlyRate'' \<mapsto> v)\<rparr>) = rows s" by simp
  consider (l) d where "rq = Req_list (Some d)" | (m) d where "rq = Req_summary (Some d)"
    | (g) w where "fst e = [''/api/settings/'' @ w]" "rq = Req_get_setting w"
    using key_request_cases [OF assms(2)] by blast
  then show ?thesis
  proof cases
    case l
    then show ?thesis using read_rows [OF rows, where env = env and now = 0 and q = "Some d"] by simp
  next
    case m
    then show ?thesis using read_rows [OF rows, where env = env and now = 0 and q = "Some d"] by simp
  next
    case g
    then have "w \<noteq> ''defaultHourlyRate''" using np by auto
    then show ?thesis by (simp add: g(2) get_setting_handler_def get_setting_def)
  qed
qed

lemma coherent_mutate:
  assumes coh: "coherent env st"
  shows "coherent env (client_mutate env now m st)"
proof (cases "mutation_request m")
  case None
  then show ?thesis using coh by (simp add: client_mutate_def)
next
  case (Some rq)
  obtain r s' where srv: "serve env now rq (server_db st) = (r, s')" by (cases "serve env now rq (server_db st)")
  define c' where "c' = (if mutation_settled m r then fold invalidate (mutation_invalidates m) (qcache st) else qcache st)"
  have cm: "client_mutate env now m st = st\<lparr>server_db := s', qcache := c'\<rparr>"
    by (simp add: client_mutate_def Some srv c'_def)
  have sub: "set c' \<subseteq> set (qcache st)" by (auto simp: c'_def fold_invalidate)
  show ?thesis
  proof (cases "answered_2xx r")
    case False
    then have same: "s' = server_db st" using serve_no_write [of env now rq "server_db st"] srv by simp
    show ?thesis unfolding cm
    proof (rule coherent_keep [OF coh sub])
      fix e rq' show "fst (serve env 0 rq' s') = fst (serve env 0 rq' (server_db st))" by (simp add: same)
    qed
  next
    case True
    show ?thesis
    proof (cases m)
      case (Mut_rate v)
      have rq: "rq = Req_put_setting ''defaultHourlyRate'' (Some (JString v))"
        using Some unfolding Mut_rate mutation_request.simps rate_route by simp
      have nr: "r \<noteq> No_response" using True by (cases r) (simp_all add: answered_2xx_def)
      have s': "s' = server_db st\<lparr>settings := (settings (server_db st))(''defaultHourlyRate'' \<mapsto> v)\<rparr>"
        using put_rate [OF srv [unfolded rq] nr] .
      have c'eq: "c' = fold invalidate [rate_key] (qcache st)" using nr by (simp add: c'_def Mut_rate)
      show ?thesis unfolding cm s'
      proof (rule coherent_keep [OF coh sub])
        fix e rq' assume "e \<in> set c'" and "key_request (fst e) = Some rq'"
        then show "fst (serve env 0 rq' (server_db st\<lparr>settings := (settings (server_db st))(''defaultHourlyRate'' \<mapsto> v)\<rparr>)) =
            fst (serve env 0 rq' (server_db st))"
          unfolding c'eq by (rule rate_write_keeps)
      qed
    next
      case (Mut_create b)
      then have sett: "settings s' = settings (server_db st)"
        using Some srv create_handler_settings [of now b "server_db st"] by auto
      have c'eq: "c' = fold invalidate [[endpoint_path List_week], [endpoint_path Get_summary]] (qcache st)"
        using True by (simp add: c'_def Mut_create)
      show ?thesis unfolding cm
      proof (rule coherent_keep [OF coh sub])
        fix e rq' assume "e \<in> set c'" and "key_request (fst e) = Some rq'"
        then show "fst (serve env 0 rq' s') = fst (serve env 0 rq' (server_db st))"
          unfolding c'eq by (rule log_write_keeps [OF sett])
      qed
    next
      case (Mut_update i b)
      then obtain v where "rq = Req_update v b" using Some mutation_request_log(1) by blast
      then have sett: "settings s' = settings (server_db st)"
        using srv update_handler_settings [of now v b "server_db st"] by auto
      have c'eq: "c' = fold invalidate [[endpoint_path List_week], [endpoint_path Get_summary]] (qcache st)"
        using True by (simp add: c'_def Mut_update)
      show ?thesis unfolding cm
      proof (rule coherent_keep [OF coh sub])
        fix e rq' assume "e \<in> set c'" and "key_request (fst e) = Some rq'"
        then show "fst (serve env 0 rq' s') = fst (serve env 0 rq' (server_db st))"
          unfolding c'eq by (rule log_write_keeps [OF sett])
      qed
    next
      case (Mut_delete i)
      then obtain v where "rq = Req_delete v" using Some mutation_request_log(2) by blast
      then have sett: "settings s' = settings (server_db st)"
        using srv delete_handler_settings [of v "server_db st"] by auto
      have c'eq: "c' = fold invalidate [[endpoint_path List_week], [endpoint_path Get_summary]] (qcache st)"
        using True by (simp add: c'_def Mut_delete)
      show ?thesis unfolding cm
      proof (rule coherent_keep [OF coh sub])
        fix e rq' assume "e \<in> set c'" and "key_request (fst e) = Some rq'"
        then show "fst (serve env 0 rq' s') = fst (serve env 0 rq' (server_db st))"
          unfolding c'eq by (rule log_write_keeps [OF sett])
      qed
    qed
  qed
qed

lemma run_query_ok:
  assumes "list_all (cached_ok env s) c"
  shows "list_all (cached_ok env s) (run_query env now k s c)"
proof (cases "map_of c k")
  case (Some x)
  then show ?thesis using assms by (simp add: run_query_def)
next
  case None
  show ?thesis
  proof (cases "key_request k")
    case None
    then show ?thesis using assms \<open>map_of c k = None\<close> by (simp add: run_query_def)
  next
    case (Some rq)
    have "fst (serve env now rq s) = fst (serve env 0 rq s)" by (rule read_now [OF Some])
    then have "cached_ok env s (k, fst (serve env now rq s))" unfolding cached_ok_def using Some by simp
    then show ?thesis using assms \<open>map_of c k = None\<close> Some by (simp add: run_query_def Let_def)
  qed
qed

lemma fold_run_query_ok:
  "list_all (cached_ok env s) c \<Longrightarrow> list_all (cached_ok env s) (fold (\<lambda>k c. run_query env now k s c) ks c)"
  by (induction ks arbitrary: c) (simp_all add: run_query_ok)

lemma coherent_load:
  assumes "coherent env st"
  shows "coherent env (dashboard_load env now st)"
proof -
  have "list_all (cached_ok env (server_db st))
      (fold (\<lambda>k c. run_query env now k (server_db st) c)
         [rate_key, work_logs_key (current_date st), weekly_summary_key (current_date st)] (qcache st))"
    using assms unfolding coherent_def by (rule fold_run_query_ok)
  then show ?thesis unfolding coherent_def dashboard_load_def by simp
qed

lemma time_format_length: "time_format s \<Longrightarrow> length s = 5"
  by (simp add: time_format_def split: list.splits)

lemma time_format_pg_time_out: "\<not> time_format (pg_time_out hm)"
proof
  assume "time_format (pg_time_out hm)"
  then have "length (pg_time_out hm) = 5" by (rule time_format_length)
  moreover have "2 \<le> length (pad_left 2 (show_nat (fst hm)))" "2 \<le> length (pad_left 2 (show_nat (snd hm)))"
    by (rule length_pad_left_ge)+
  ultimately show False by (simp add: pg_time_out_def)
qed

section \<open>Properties of the client\<close>

text \<open>
  C30. For one browser and the server, whatever sequence of page loads, week changes
  and mutations it performs, every answer in react-query's cache is the answer the
  server would give to that query now: the invalidations in the mutations' \<open>onSuccess\<close>
  cover every cached query a successful write can change, and a request that fails
  writes nothing.
\<close>

theorem client_run_coherent: "client_run env st \<Longrightarrow> coherent env st"
proof (induction rule: client_run.induct)
  case (client_start s env)
  show ?case unfolding coherent_def by simp
next
  case (client_next env st now e)
  show ?case
  proof (cases e)
    case Load
    show ?thesis unfolding Load client_step.simps by (rule coherent_load [OF client_next.IH])
  next
    case (Navigate n)
    have "coherent env (st\<lparr>current_date := navigate n (current_date st)\<rparr>)"
      using client_next.IH unfolding coherent_def by simp
    then show ?thesis unfolding Navigate client_step.simps .
  next
    case (Mutate m)
    show ?thesis unfolding Mutate client_step.simps by (rule coherent_mutate [OF client_next.IH])
  qed
qed

lemma client_run_coherent_witness:
  "coherent sample_env
     (client_step sample_env 2 Load
       (client_step sample_env 1 (Mutate (Mut_rate ''4000''))
         (client_step sample_env 0 Load
           \<lparr>server_db = projr (seed sample_env 0 empty_db), qcache = [], current_date = today sample_env\<rparr>)))"
  by (rule client_run_coherent [OF client_next [OF client_next [OF client_next [OF client_start [OF server_run_seed_sample]]]]])

text \<open>
  C31. The edit dialog cannot be submitted unchanged: it fills the form with the stored
  times as the driver returns them (\<open>HH:MM:SS\<close>), and the form's resolver, the same
  \<open>insertWorkLogSchema\<close>, rejects them with "Invalid time format (HH:mm)" on
  \<open>startTime\<close> for every stored row whose date has the \<open>YYYY-MM-DD\<close> shape.
\<close>

theorem edit_form_rejected:
  assumes "date_format (log_date_text r)"
  shows "validate_create (edit_form_body r) = Inl (time_msg, ''startTime'')"
  using assms time_format_pg_time_out by (simp add: validate_create_def edit_form_body_def start_text_def)

lemma edit_form_rejected_witness:
  "date_format (log_date_text (hd (rows sample_db))) \<and>
   validate_create (edit_form_body (hd (rows sample_db))) = Inl (time_msg, ''startTime'')"
proof -
  have h: "date_format (log_date_text (hd (rows sample_db)))" by code_simp
  show ?thesis using edit_form_rejected [OF h] h by simp
qed

end
