(* ===== verification/Spec2Isabelle.thy ===== *)
theory Spec2Isabelle
  imports Client
begin

text \<open>
  \<^bold>\<open>A verification development of the work-hours tracker.\<close>

  \<^bold>\<open>The program.\<close> An Express server (src/server/routes.ts, \<open>registerRoutes\<close>) serves
  a small JSON API over a PostgreSQL store (src/server/storage.ts,
  \<open>DatabaseStorage\<close>, tables of src/shared/schema.ts). A client posts shifts (date,
  start and end time, optional hourly rate); the store computes the hours worked
  (the duration block of \<open>createWorkLog\<close> and \<open>updateWorkLog\<close>); the summary route
  groups a week's shifts into seven days Monday to Sunday and totals the hours and the
  pay of the week and of the half-month (quincena) of a reference date. Request bodies
  are checked by the zod schemas of src/shared/schema.ts, and src/shared/routes.ts holds
  the \<open>api\<close> table and \<open>buildUrl\<close> that client and server share. At start-up the
  server seeds three shifts into an empty table.

  \<^bold>\<open>The theories,\<close> each importing the ones it calls:
  \<^item> \<open>Prelude\<close>: generic lemmas on lists, options and association lists.
  \<^item> \<open>JsRuntime\<close>: JavaScript numbers as \<open>jsnum\<close> (an exact integer count of hundredths or
    ten-thousandths, or \<open>NaN\<close>) with \<open>+\<close>, \<open>*\<close>, \<open><\<close>, \<open><=\<close>, \<open>||\<close>; \<open>toFixed(2)\<close>
    (\<open>round_half_away\<close>, \<open>fixed2_str\<close>), \<open>parseFloat\<close> (\<open>parse_float\<close>) and the
    insertion-ordered \<open>Map\<close> (\<open>jsmap_set\<close>, \<open>jsmap_get\<close>).
  \<^item> \<open>Clock\<close>: date-fns \<open>parse(s, 'HH:mm')\<close> (\<open>parse_hhmm\<close>), the duration block
    (\<open>duration_minutes\<close>, \<open>duration_text\<close>), the routes' \<open>end <= start\<close> test
    (\<open>end_not_after_start\<close>) and PostgreSQL's \<open>time\<close> column.
  \<^item> \<open>Calendar\<close>: dates as (year, month, day) with day numbers, \<open>addDays\<close>,
    \<open>startOfWeek\<close>/\<open>endOfWeek\<close> with Monday first, \<open>endOfMonth\<close>, the
    \<open>yyyy-MM-dd\<close> and \<open>EEE\<close> formats and V8's \<open>new Date('YYYY-MM-DD')\<close>
    (\<open>parse_iso_date\<close>, which reads the \<open>YYYY-MM-DD\<close> form only: every other text,
    which V8 may still read, is taken as an Invalid Date).
  \<^item> \<open>Store\<close>: the database as a record (rows in insertion order, the serial counter,
    the settings map); one function per \<open>DatabaseStorage\<close> method, with the
    column conversions whose refusal is the \<open>Inl\<close> (thrown) branch (a \<open>text\<close>
    column refuses U+0000, \<open>pg_text_ok\<close>); the store
    invariant, the refinement of create, update and delete to a map from ids to rows,
    the range query's contract and what \<open>hoursWorked\<close> becomes.
  \<^item> \<open>Summary\<close>: \<open>getWeekRange\<close>, the week pass over the seven-day \<open>Map\<close>
    (\<open>week_fold\<close>), the quincena pass (\<open>quincena_fold\<close>) and \<open>get_summary\<close>, the
    summary route's body; its lemmas give the totals, the seven day entries, the
    quincena bounds and the effects of the server's offset from UTC. The quincena's
    bounds built with \<open>new Date(y, m, d)\<close> use \<open>date_ctor_year\<close> (a year 0 to 99
    becomes 1900 + y), while \<open>endOfMonth\<close> keeps the year.
  \<^item> \<open>Schema\<close>: JSON bodies, \<open>insertWorkLogSchema\<close> and its \<open>.partial()\<close>
    (\<open>validate_create\<close>, \<open>validate_update\<close>), the settings body, the \<open>api\<close> table
    (\<open>endpoint_path\<close>, \<open>declared_statuses\<close>), \<open>buildUrl\<close> and Express's path
    matching (\<open>match_route\<close>, on the path as given: the URLs the client builds carry
    no query, fragment or percent escape, so Express's cut and decoding are not modelled).
  \<^item> \<open>Routes\<close>: one handler per route of \<open>registerRoutes\<close>, returning the response and
    the database after it; the seeding (\<open>seed\<close>); \<open>serve\<close>, the dispatch of a
    \<open>request\<close>; \<open>server_run\<close>, the inductive set of databases a running server can
    be left with. Its lemmas show the invariant and the hours bound in every such
    database, that a request not answered 2xx writes nothing, that statuses are the
    declared ones or 500, that every request is answered except a settings request
    whose body fails the schema or whose key or value the \<open>text\<close> column refuses,
    and the error paths of each route. \<open>parseInt\<close> of an id (\<open>js_parse_int\<close>)
    reads decimal digits or, after \<open>0x\<close>, hexadecimal ones.
  \<^item> \<open>Client\<close>: the browser side (src/client/src): the query keys and query functions
    of hooks/use-work-logs.ts over a model of react-query's cache (\<open>run_query\<close>,
    \<open>invalidate\<close>), the mutations and their \<open>onSuccess\<close> invalidations, the
    Dashboard's page state and events (\<open>client_step\<close>), WeekSelector's navigation
    and the edit dialog's form values. \<open>client_run\<close> is one browser session against
    a seeded server; its lemmas show that the cache always holds the answers the server
    would give now, and that the edit dialog's values fail the form's schema.

  \<^bold>\<open>Units and idealisations.\<close> JavaScript doubles are replaced by exact integers in
  fixed units (minutes, hundredths of an hour, ten-thousandths of a currency unit),
  rounded exactly. This is an idealisation: sums and products of two-decimal values
  are exact here, while the doubles may land just below a half cent, where
  \<open>toFixed(2)\<close> then rounds down (0.35 * 0.1 is 0.034999... as a double and prints
  0.03, where the exact 0.035 gives 0.04); the pay totals are proved for the exact
  values. The hours of one shift (\<open>Math.round(x * 100) / 100\<close> of a whole number of
  minutes over 60) are not at a tie and are faithful. \<open>parseFloat\<close> and \<open>Number\<close> are
  modelled on decimals with at most two fraction digits, the only texts the program
  produces or the client sends. The server's time zone is a fixed offset from UTC in
  minutes (\<open>tz_offset\<close>), with no daylight-saving change; \<open>new Date()\<close> is the
  \<open>today\<close> field of the environment. PostgreSQL's column conversions (\<open>date\<close>,
  \<open>time\<close>, \<open>numeric(p,2)\<close>, \<open>integer\<close>) and the text the driver returns are
  modelled from PostgreSQL's documented behaviour, as are Express 4's route matching
  and its not answering when an async handler's promise rejects. Each request runs to
  completion before the next (the store methods are single statements, atomic in
  PostgreSQL), so a run of the server is a sequence of \<open>serve\<close> steps. Recursion
  everywhere is structural or over a fixed range, so every function is total and
  executable; no fuel is needed.

  \<^bold>\<open>Not modelled.\<close> The database is taken to be reachable: a lost connection
  would make every storage call throw, answered 500 by the work-log routes and not at
  all by the settings routes. The seeding runs on the database the server finds at
  start-up (\<open>server_start\<close> from an empty one, \<open>server_restart\<close> from any database a
  previous run left). The rendering of the client (JSX, toasts, dialogs'
  open state, WeeklySummary's display of the summary) produces no state that the
  server or the cache reads. The PersistentCalculator component evaluates user text
  with JavaScript's \<open>eval\<close>, which has no faithful finite model. Logging
  (\<open>console.log\<close>, \<open>console.error\<close>), the HTTP server's start-up and the
  static file serving are I/O only. The response schemas of the \<open>api\<close> table,
  which the client's \<open>parse\<close> calls apply, are represented by the declared status
  lists. zod's issue kinds other than the first issue of a body are not modelled,
  since the routes report only \<open>errors[0]\<close>. react-query's background refetching
  and several browsers sharing one server are not modelled: the cache coherence
  lemma is for one session, and another session's writes are not seen until a
  query is invalidated.
\<close>

end
